(* ===== verification/Prelude.thy ===== *)
theory Prelude
  imports Main "HOL-Library.Word" "HOL-Library.Signed_Division"
begin

text \<open>
  What every component of the development shares: the machine integers the Go code computes
  with, Go's truncating division, the values of \<open>types.Mode\<close>, the error values that stand for
  Go's \<open>error\<close> results, and generic facts on lists and association lists.

  An operation of the source that returns an \<open>error\<close> returns an \<open>error option\<close> here
  (\<open>None\<close> is Go's \<open>nil\<close>) or, where it also returns a value that is only meaningful without
  an error, a sum with the error on the left.  \<open>logrus.Fatalf\<close> ends the process and is the error
  \<open>Fatal\<close>; a run-time panic (an index out of range, a nil pointer) is the error \<open>Panic\<close>.
  \<open>Diverge\<close> is the answer of a loop that has used up its fuel, that is, no answer.
  Messages are the literal part of the source's format strings.
\<close>

named_theorems go_simps \<open>evaluation of Go's integer operations in the range where they are exact\<close>

section \<open>Machine integers\<close>

type_synonym byte = "8 word"

text \<open>A 64-bit signed integer is an \<open>int\<close>; \<open>i64\<close> is the value an operation leaves in one.\<close>

definition i64 :: "int \<Rightarrow> int" where
  "i64 x = (x + 2 ^ 63) mod 2 ^ 64 - 2 ^ 63"

text \<open>Conversions to \<open>uint16\<close> and \<open>uint64\<close>.\<close>

definition u16 :: "int \<Rightarrow> nat" where
  "u16 x = nat (x mod 65536)"

definition u64 :: "int \<Rightarrow> int" where
  "u64 x = x mod 2 ^ 64"

lemma u64_id [go_simps]: "0 \<le> x \<Longrightarrow> x < 2 ^ 64 \<Longrightarrow> u64 x = x"
  by (simp add: u64_def)

lemma i64_id [go_simps]: "- (2 ^ 63) \<le> x \<Longrightarrow> x < 2 ^ 63 \<Longrightarrow> i64 x = x"
  by (simp add: i64_def)

lemma u16_less [simp]: "u16 x < 65536"
  by (simp add: u16_def nat_less_iff)

lemma u16_id [go_simps]: "0 \<le> x \<Longrightarrow> x < 65536 \<Longrightarrow> u16 x = nat x"
  by (simp add: u16_def)

lemma u16_int [go_simps]: "n < 65536 \<Longrightarrow> u16 (int n) = n"
  by (simp add: u16_id)

lemma smod_nonneg [go_simps]: "0 \<le> a \<Longrightarrow> 0 < b \<Longrightarrow> a smod b = a mod (b :: int)"
  by (simp add: signed_modulo_int_def sgn_if split: if_splits)

lemma sdiv_nonneg [go_simps]: "0 \<le> a \<Longrightarrow> 0 < b \<Longrightarrow> a sdiv b = a div (b :: int)"
  by (simp add: signed_divide_int_def sgn_if split: if_splits)

section \<open>Modes and errors\<close>

text \<open>
  \<open>types.Mode\<close> is a string type with five named values; \<open>ModeStr\<close> is any other string, in
  particular the zero value \<open>ModeStr ''''\<close> of an unset variable.
\<close>

datatype mode = WO | RW | ERR | INIT | CLOSED | ModeStr string

datatype error =
    Err string
  | EOF
  | ErrNotExist
  | IOErr
  | ErrNoBackend
  | BackendError "(string \<times> error) list"
  | MultiWriterError "error option list" "error option list"
  | Fatal string
  | Panic string
  | Diverge

type_synonym 'a result = "error + 'a"

text \<open>The ends of a process, which no caller sees as a value.\<close>

fun crashes :: "error \<Rightarrow> bool" where
  "crashes (Fatal _) \<longleftrightarrow> True"
| "crashes (Panic _) \<longleftrightarrow> True"
| "crashes Diverge \<longleftrightarrow> True"
| "crashes _ \<longleftrightarrow> False"

section \<open>Strings\<close>

text \<open>\<open>strings.HasPrefix\<close> and \<open>strings.HasSuffix\<close>, the affix first.\<close>

definition has_prefix :: "string \<Rightarrow> string \<Rightarrow> bool" where
  "has_prefix p s = (take (length p) s = p)"

definition has_suffix :: "string \<Rightarrow> string \<Rightarrow> bool" where
  "has_suffix p s = (length p \<le> length s \<and> drop (length s - length p) s = p)"

lemma has_prefix_append [simp]: "has_prefix p (p @ s)"
  by (simp add: has_prefix_def)

lemma has_suffix_append [simp]: "has_suffix p (s @ p)"
  by (simp add: has_suffix_def)

section \<open>Generic lemmas\<close>

lemma nth_list_update_if: "i < length xs \<Longrightarrow> xs[j := v] ! i = (if i = j then v else xs ! i)"
  by (auto simp: nth_list_update)

lemma map_of_filter_key: "map_of (filter (\<lambda>(k, _). k \<noteq> a) xs) b = (if b = a then None else map_of xs b)"
  by (induction xs) auto

lemma length_filter_not: "length (filter (\<lambda>x. \<not> P x) xs) = length xs - length (filter P xs)"
  by (induction xs) (auto simp: Suc_diff_le)

end
