(* ===== verification/DiffDisk.thy ===== *)
theory DiffDisk
  imports Prelude
begin

text \<open>
  The data plane of a replica, \<open>replica/diff_disk.go\<close>: a volume is a chain of sparse files, the
  oldest snapshot at index 1 and the file that takes writes (the head) at the last index; index 0 is
  nil.  \<open>location\<close> caches, for each 4096-byte sector, the index of the file that holds it, 0 meaning
  not known yet.

  The files are values of the interface \<open>types.DiffDisk\<close>, implemented by a third-party package,
  and their extents come from another (\<open>fibmap.Fiemap\<close>).  Both are parameters: a record of
  operations over a world \<open>'w\<close> and file handles \<open>'f\<close>.  The locale \<open>block_file\<close> names what the
  code relies on; the refinement lemmas of reads and writes are proved in it.

  Offsets and lengths are unbounded integers (a request has been checked against the volume size by
  the controller), \<open>%\<close> and \<open>/\<close> truncate as Go's do, indices stored in \<open>location\<close> are reduced to
  16 bits by \<open>u16\<close>.
\<close>

section \<open>State\<close>

record extent =
  Logical :: int
  Length :: int
  LastFlag :: bool

record ('w, 'f) file_ops =
  fFd :: "'f \<Rightarrow> nat"
  fReadAt :: "'f \<Rightarrow> nat \<Rightarrow> int \<Rightarrow> 'w \<Rightarrow> byte list \<times> error option"
  fWriteAt :: "'f \<Rightarrow> byte list \<Rightarrow> int \<Rightarrow> 'w \<Rightarrow> (nat \<times> error option) \<times> 'w"
  fClose :: "'f \<Rightarrow> 'w \<Rightarrow> error option \<times> 'w"
  fFsync :: "'f \<Rightarrow> 'w \<Rightarrow> error option \<times> 'w"
  fPunch :: "'f \<Rightarrow> int \<Rightarrow> int \<Rightarrow> 'w \<Rightarrow> error option \<times> 'w"
  fFiemap :: "'f \<Rightarrow> int \<Rightarrow> int \<Rightarrow> nat \<Rightarrow> 'w \<Rightarrow> extent list \<times> error option"

record 'f diffDisk =
  location :: "nat list"
  UsedLogicalBlocks :: int
  UsedBlocks :: int
  files :: "'f option list"
  UserCreatedSnap :: "bool list"
  SnapIndx :: int
  sectorSize :: int

text \<open>A request sent to the goroutine that punches holes (\<open>Hole\<close> of \<open>replica/backup.go\<close>).\<close>

record 'f hole =
  hole_f :: "'f option"
  hole_offset :: int
  hole_len :: int

text \<open>
  What an operation on the volume changes: the volume, the world of its files and the contents of the
  channel \<open>HoleCreatorChan\<close>.
\<close>

type_synonym ('w, 'f) vol = "'f diffDisk \<times> 'w \<times> 'f hole list"

section \<open>Operations\<close>

text \<open>Go's \<open>copy\<close> into a slice that starts at index \<open>k\<close>, and its slice expression \<open>xs[i:j]\<close>.\<close>

definition splice :: "nat \<Rightarrow> 'a list \<Rightarrow> 'a list \<Rightarrow> 'a list" where
  "splice k src dst = take k dst @ take (length dst - k) src @ drop (k + length src) dst"

definition go_slice :: "'a list \<Rightarrow> int \<Rightarrow> int \<Rightarrow> 'a list option" where
  "go_slice xs i j =
     (if 0 \<le> i \<and> i \<le> j \<and> j \<le> int (length xs) then Some (take (nat j - nat i) (drop (nat i) xs))
      else None)"

text \<open>\<open>diffDisk.lookup\<close>: the loop from the head down, then the whole function.\<close>

fun lookup_scan :: "('w, 'f) file_ops \<Rightarrow> 'f diffDisk \<Rightarrow> int \<Rightarrow> 'w \<Rightarrow> nat \<Rightarrow> nat option result" where
  "lookup_scan F d sector w 0 = Inr None"
| "lookup_scan F d sector w (Suc i) =
     (if Suc i = 1 then Inr (Some 1)
      else case files d ! Suc i of
        None \<Rightarrow> Inl (Panic ''nil file'')
      | Some f \<Rightarrow>
          (case fFiemap F f (sector * sectorSize d) (sectorSize d) 1 w of
             (_, Some e) \<Rightarrow> Inl e
           | (es, None) \<Rightarrow> if es \<noteq> [] then Inr (Some (Suc i)) else lookup_scan F d sector w i))"

definition lookup :: "('w, 'f) file_ops \<Rightarrow> int \<Rightarrow> 'f diffDisk \<Rightarrow> 'w \<Rightarrow> nat result \<times> 'f diffDisk" where
  "lookup F sector d w =
     (if sector \<ge> int (length (location d)) then (Inr (u16 (int (length (files d)) - 1)), d)
      else if length (files d) = 2 then (Inr 1, d)
      else if sector < 0 then (Inl (Panic ''index out of range''), d)
      else let target = location d ! nat sector in
        if target = 0 then
          (case lookup_scan F d sector w (length (files d) - 1) of
             Inl e \<Rightarrow> (Inl e, d)
           | Inr (Some i) \<Rightarrow>
               (Inr (u16 (int i)), d\<lparr>location := (location d)[nat sector := u16 (int i)]\<rparr>)
           | Inr None \<Rightarrow> (Inr (u16 (int (length (files d)) - 1)), d))
        else (Inr target, d))"

text \<open>\<open>diffDisk.read\<close> fills the sectors \<open>startSector ..< startSector + sectors\<close> of the buffer.\<close>

definition read_file ::
  "('w, 'f) file_ops \<Rightarrow> nat \<Rightarrow> byte list \<Rightarrow> int \<Rightarrow> int \<Rightarrow> int \<Rightarrow> 'f diffDisk \<Rightarrow> 'w \<Rightarrow>
   (int \<times> error option) \<times> byte list" where
  "read_file F target buf offset startSector sectors d w =
     (let bufStart = startSector * sectorSize d; bufEnd = sectors * sectorSize d in
      if length (files d) \<le> target then ((0, Some (Panic ''index out of range'')), buf)
      else case files d ! target of
        None \<Rightarrow> ((0, Some (Panic ''nil file'')), buf)
      | Some f \<Rightarrow>
          (case fReadAt F f (nat bufEnd) (offset + bufStart) w of
             (bs, err) \<Rightarrow> ((int (length bs), err), splice (nat bufStart) bs buf)))"

text \<open>The two arms that \<open>fullReadAt\<close> has for a finished run of sectors in the same file.\<close>

definition read_run ::
  "('w, 'f) file_ops \<Rightarrow> nat \<Rightarrow> byte list \<Rightarrow> int \<Rightarrow> int \<Rightarrow> int \<Rightarrow> 'f diffDisk \<Rightarrow> 'w \<Rightarrow>
   (int \<times> error option) \<times> byte list" where
  "read_run F target buf offset startSector sectors d w =
     (if target = 0 then ((sectors * sectorSize d, None), buf)
      else read_file F target buf offset startSector sectors d w)"

text \<open>
  The loop of \<open>fullReadAt\<close> over sectors \<open>i ..< sectors\<close> (\<open>n\<close> of them are left), with the loop's
  variables \<open>readSectors\<close>, \<open>target\<close>, \<open>count\<close>; then the code after the loop.
\<close>

fun fullReadAt_loop ::
  "('w, 'f) file_ops \<Rightarrow> int \<Rightarrow> 'w \<Rightarrow> nat \<Rightarrow> int \<Rightarrow> int \<Rightarrow> nat \<Rightarrow> int \<Rightarrow> byte list \<Rightarrow> 'f diffDisk \<Rightarrow>
   (int \<times> error option) \<times> byte list \<times> 'f diffDisk" where
  "fullReadAt_loop F offset w 0 i readSectors target count buf d =
     (if readSectors > 0 then
        (case read_run F target buf offset (i - readSectors) readSectors d w of
           ((c, err), buf') \<Rightarrow> ((count + c, err), buf', d))
      else ((count, None), buf, d))"
| "fullReadAt_loop F offset w (Suc n) i readSectors target count buf d =
     (case lookup F (offset sdiv sectorSize d + i) d w of
        (Inl e, d') \<Rightarrow> ((count, Some e), buf, d')
      | (Inr newTarget, d') \<Rightarrow>
          if newTarget = target
          then fullReadAt_loop F offset w n (i + 1) (readSectors + 1) target count buf d'
          else (case read_run F target buf offset (i - readSectors) readSectors d' w of
                  ((c, Some e), buf') \<Rightarrow> ((count + c, Some e), buf', d')
                | ((c, None), buf') \<Rightarrow>
                    fullReadAt_loop F offset w n (i + 1) 1 newTarget (count + c) buf' d'))"

definition fullReadAt ::
  "('w, 'f) file_ops \<Rightarrow> byte list \<Rightarrow> int \<Rightarrow> 'f diffDisk \<Rightarrow> 'w \<Rightarrow>
   (int \<times> error option) \<times> byte list \<times> 'f diffDisk" where
  "fullReadAt F buf offset d w =
     (if int (length buf) smod sectorSize d \<noteq> 0 \<or> offset smod sectorSize d \<noteq> 0
      then ((0, Some (Err ''Read not a multiple of sector size'')), buf, d)
      else if buf = [] then ((0, None), buf, d)
      else let sectors = int (length buf) sdiv sectorSize d; startSector = offset sdiv sectorSize d in
        (case lookup F startSector d w of
           (Inl e, d') \<Rightarrow> ((0, Some e), buf, d')
         | (Inr target, d') \<Rightarrow> fullReadAt_loop F offset w (nat (sectors - 1)) 1 1 target 0 buf d'))"

definition ReadAt ::
  "('w, 'f) file_ops \<Rightarrow> byte list \<Rightarrow> int \<Rightarrow> 'f diffDisk \<Rightarrow> 'w \<Rightarrow>
   (int \<times> error option) \<times> byte list \<times> 'f diffDisk" where
  "ReadAt F buf offset d w =
     (let n = int (length buf);
          startOffset = offset smod sectorSize d;
          startCut = sectorSize d - startOffset;
          endOffset = (n + offset) smod sectorSize d;
          readBuf = replicate (nat (sectorSize d)) 0 in
      if buf = [] then ((0, None), buf, d)
      else if startOffset = 0 \<and> endOffset = 0 then fullReadAt F buf offset d w
      else case fullReadAt F readBuf (offset - startOffset) d w of
        ((_, Some e), _, d1) \<Rightarrow> ((0, Some e), buf, d1)
      | ((_, None), rb1, d1) \<Rightarrow>
          let buf1 = splice 0 (drop (nat startOffset) rb1) buf in
          if startCut \<ge> n then ((n, None), buf1, d1)
          else (case go_slice buf1 startCut (n - endOffset) of
            None \<Rightarrow> ((0, Some (Panic ''slice bounds out of range'')), buf1, d1)
          | Some mid \<Rightarrow>
             (case fullReadAt F mid (offset + startCut) d1 w of
                ((_, Some e), mid', d2) \<Rightarrow> ((0, Some e), splice (nat startCut) mid' buf1, d2)
              | ((_, None), mid', d2) \<Rightarrow>
                  let buf2 = splice (nat startCut) mid' buf1 in
                  if endOffset > 0 then
                    (case fullReadAt F rb1 (offset + n - endOffset) d2 w of
                       ((_, Some e), _, d3) \<Rightarrow> ((0, Some e), buf2, d3)
                     | ((_, None), rb2, d3) \<Rightarrow>
                         ((n, None), splice (nat (n - endOffset)) (take (nat endOffset) rb2) buf2, d3))
                  else ((n, None), buf2, d2))))"

text \<open>
  \<open>fullWriteAt\<close> looks for runs of consecutive sectors that are being superseded in one older file, to
  punch a hole for each run.  \<open>run\<close> holds the loop's variables \<open>file\<close>, \<open>fileIndx\<close>, \<open>length\<close> and
  \<open>lOffset\<close>; \<open>punch\<close> is \<open>shouldCreateHoles() && !inject.DisablePunchHoles()\<close>.
\<close>

record 'f run =
  run_file :: "'f option"
  run_fileIndx :: nat
  run_length :: int
  run_lOffset :: int

definition sendToCreateHole :: "'f option \<Rightarrow> int \<Rightarrow> int \<Rightarrow> 'f hole list \<Rightarrow> 'f hole list" where
  "sendToCreateHole f offset len ch = ch @ [\<lparr>hole_f = f, hole_offset = offset, hole_len = len\<rparr>]"

definition flush_run ::
  "bool \<Rightarrow> 'f option \<Rightarrow> 'f run \<Rightarrow> 'f diffDisk \<Rightarrow> 'f hole list \<Rightarrow> 'f diffDisk \<times> 'f hole list" where
  "flush_run punch f r d ch =
     (if run_file r \<noteq> None \<and> int (run_fileIndx r) > SnapIndx d \<and> punch then
        (d\<lparr>UsedBlocks := UsedBlocks d - run_length r\<rparr>,
         sendToCreateHole f (run_lOffset r * sectorSize d) (run_length r * sectorSize d) ch)
      else (d, ch))"

definition fullWriteAt_step ::
  "bool \<Rightarrow> nat \<Rightarrow> int \<Rightarrow> 'f diffDisk \<times> 'f run \<times> 'f hole list \<Rightarrow> 'f diffDisk \<times> 'f run \<times> 'f hole list" where
  "fullWriteAt_step punch target sector st =
     (case st of (d, r, ch) \<Rightarrow>
      let val = location d ! nat sector in
      let (d1, r1, ch1) =
        (if val = 0 then
           (d\<lparr>UsedLogicalBlocks := UsedLogicalBlocks d + 1, UsedBlocks := UsedBlocks d + 1\<rparr>, r, ch)
         else if val \<noteq> u16 (int target) then
           (if val \<noteq> run_fileIndx r \<or> sector \<noteq> run_lOffset r + run_length r then
              (case flush_run punch (files d ! val) r d ch of (d', ch') \<Rightarrow>
                (d'\<lparr>UsedBlocks := UsedBlocks d' + 1\<rparr>,
                 \<lparr>run_file = files d ! val, run_fileIndx = val, run_length = 1, run_lOffset = sector\<rparr>, ch'))
            else (d\<lparr>UsedBlocks := UsedBlocks d + 1\<rparr>, r\<lparr>run_length := run_length r + 1\<rparr>, ch))
         else (d, r, ch))
      in (d1\<lparr>location := (location d1)[nat sector := u16 (int target)]\<rparr>, r1, ch1))"

fun fullWriteAt_loop ::
  "bool \<Rightarrow> nat \<Rightarrow> nat \<Rightarrow> int \<Rightarrow> 'f diffDisk \<times> 'f run \<times> 'f hole list \<Rightarrow>
   error option \<times> 'f diffDisk \<times> 'f run \<times> 'f hole list" where
  "fullWriteAt_loop punch target 0 sector st = (None, st)"
| "fullWriteAt_loop punch target (Suc n) sector st =
     (case st of (d, r, ch) \<Rightarrow>
      if 0 \<le> sector \<and> nat sector < length (location d) \<and> location d ! nat sector < length (files d)
      then fullWriteAt_loop punch target n (sector + 1) (fullWriteAt_step punch target sector st)
      else (Some (Panic ''index out of range''), st))"

definition run0 :: "'f run" where
  "run0 = \<lparr>run_file = None, run_fileIndx = 0, run_length = 0, run_lOffset = 0\<rparr>"

definition fullWriteAt ::
  "('w, 'f) file_ops \<Rightarrow> bool \<Rightarrow> byte list \<Rightarrow> int \<Rightarrow> ('w, 'f) vol \<Rightarrow> (int \<times> error option) \<times> ('w, 'f) vol" where
  "fullWriteAt F punch buf offset v =
     (case v of (d, w, ch) \<Rightarrow>
      if int (length buf) smod sectorSize d \<noteq> 0 \<or> offset smod sectorSize d \<noteq> 0
      then ((0, Some (Err ''Write len, offset not a multiple of sector size'')), v)
      else let target = length (files d) - 1;
               startSector = offset sdiv sectorSize d;
               sectors = int (length buf) sdiv sectorSize d in
        (case files d ! target of
           None \<Rightarrow> ((0, Some (Panic ''nil file'')), v)
         | Some f \<Rightarrow>
             (case fWriteAt F f buf offset w of ((c, err), w') \<Rightarrow>
                (case fullWriteAt_loop punch target (nat sectors) startSector (d, run0, ch) of
                   (Some e, d', r, ch') \<Rightarrow> ((0, Some e), d', w', ch')
                 | (None, d', r, ch') \<Rightarrow>
                     (case flush_run punch (run_file r) r d' ch' of (d'', ch'') \<Rightarrow>
                        ((int c, err), d'', w', ch''))))))"

definition readModifyWrite ::
  "('w, 'f) file_ops \<Rightarrow> bool \<Rightarrow> byte list \<Rightarrow> int \<Rightarrow> ('w, 'f) vol \<Rightarrow> (int \<times> error option) \<times> ('w, 'f) vol" where
  "readModifyWrite F punch buf offset v =
     (case v of (d, w, ch) \<Rightarrow>
      if buf = [] then ((0, None), v)
      else let readBuf = replicate (nat (sectorSize d)) 0;
               readOffset = (offset sdiv sectorSize d) * sectorSize d in
        (case fullReadAt F readBuf readOffset d w of
           ((_, Some e), _, d1) \<Rightarrow> ((0, Some e), d1, w, ch)
         | ((_, None), rb, d1) \<Rightarrow>
             fullWriteAt F punch (splice (nat (offset smod sectorSize d)) buf rb) readOffset (d1, w, ch)))"

definition WriteAt ::
  "('w, 'f) file_ops \<Rightarrow> bool \<Rightarrow> byte list \<Rightarrow> int \<Rightarrow> ('w, 'f) vol \<Rightarrow> (int \<times> error option) \<times> ('w, 'f) vol" where
  "WriteAt F punch buf offset v =
     (case v of (d, w, ch) \<Rightarrow>
      let n = int (length buf);
          startOffset = offset smod sectorSize d;
          startCut = sectorSize d - startOffset;
          endOffset = (n + offset) smod sectorSize d in
      if buf = [] then ((0, None), v)
      else if startOffset = 0 \<and> endOffset = 0 then fullWriteAt F punch buf offset v
      else if startCut \<ge> n then readModifyWrite F punch buf offset v
      else case go_slice buf 0 startCut of
        None \<Rightarrow> ((0, Some (Panic ''slice bounds out of range'')), v)
      | Some pre \<Rightarrow>
       (case readModifyWrite F punch pre offset v of
          ((_, Some e), v1) \<Rightarrow> ((0, Some e), v1)
        | ((_, None), v1) \<Rightarrow>
           (case go_slice buf startCut (n - endOffset) of
              None \<Rightarrow> ((0, Some (Panic ''slice bounds out of range'')), v1)
            | Some mid \<Rightarrow>
             (case fullWriteAt F punch mid (offset + startCut) v1 of
                ((_, Some e), v2) \<Rightarrow> ((0, Some e), v2)
              | ((_, None), v2) \<Rightarrow>
                 (case go_slice buf (n - endOffset) n of
                    None \<Rightarrow> ((0, Some (Panic ''slice bounds out of range'')), v2)
                  | Some post \<Rightarrow>
                   (case readModifyWrite F punch post (offset + n - endOffset) v2 of
                      ((_, Some e), v3) \<Rightarrow> ((0, Some e), v3)
                    | ((_, None), v3) \<Rightarrow> ((n, None), v3)))))))"

definition Sync :: "('w, 'f) file_ops \<Rightarrow> ('w, 'f) vol \<Rightarrow> (int \<times> error option) \<times> ('w, 'f) vol" where
  "Sync F v =
     (case v of (d, w, ch) \<Rightarrow>
      let target = u16 (int (length (files d)) - 1) in
      if length (files d) \<le> target then ((-1, Some (Panic ''index out of range'')), v)
      else case files d ! target of
        None \<Rightarrow> ((-1, Some (Panic ''nil file'')), v)
      | Some f \<Rightarrow>
          (case fFsync F f w of
             (Some e, w') \<Rightarrow> ((-1, Some e), d, w', ch)
           | (None, w') \<Rightarrow> ((0, None), d, w', ch)))"

fun Unmap_loop ::
  "('w, 'f) file_ops \<Rightarrow> int \<Rightarrow> int \<Rightarrow> int \<Rightarrow> int \<Rightarrow> 'f option list \<Rightarrow> 'w \<Rightarrow> (int \<times> error option) \<times> 'w" where
  "Unmap_loop F offset len snap indx [] w = ((0, None), w)"
| "Unmap_loop F offset len snap indx (fo # fs) w =
     (case fo of
        None \<Rightarrow> Unmap_loop F offset len snap (indx + 1) fs w
      | Some f \<Rightarrow>
          if indx \<le> snap then Unmap_loop F offset len snap (indx + 1) fs w
          else (case fPunch F f offset len w of
                  (Some e, w') \<Rightarrow> ((-1, Some e), w')
                | (None, w') \<Rightarrow> Unmap_loop F offset len snap (indx + 1) fs w'))"

definition Unmap :: "('w, 'f) file_ops \<Rightarrow> int \<Rightarrow> int \<Rightarrow> ('w, 'f) vol \<Rightarrow> (int \<times> error option) \<times> ('w, 'f) vol" where
  "Unmap F offset len v =
     (case v of (d, w, ch) \<Rightarrow>
      (case Unmap_loop F offset len (SnapIndx d) 0 (files d) w of (res, w') \<Rightarrow> (res, d, w', ch)))"

text \<open>\<open>RemoveIndex\<close>: the index of the last user-created snapshot stays as it was when none is left.\<close>

fun last_user_created :: "bool list \<Rightarrow> int \<Rightarrow> int \<Rightarrow> int" where
  "last_user_created [] i snap = snap"
| "last_user_created (u # us) i snap = last_user_created us (i + 1) (if u then i else snap)"

definition RemoveIndex ::
  "('w, 'f) file_ops \<Rightarrow> nat \<Rightarrow> ('w, 'f) vol \<Rightarrow> error option \<times> ('w, 'f) vol" where
  "RemoveIndex F index v =
     (case v of (d, w, ch) \<Rightarrow>
      if length (files d) \<le> index then (Some (Panic ''index out of range''), v)
      else case files d ! index of
        None \<Rightarrow> (Some (Panic ''nil file''), v)
      | Some f \<Rightarrow>
          (case fClose F f w of
             (Some e, w') \<Rightarrow> (Some e, d, w', ch)
           | (None, w') \<Rightarrow>
               let ucs = take index (UserCreatedSnap d) @ drop (index + 1) (UserCreatedSnap d) in
               (None,
                d\<lparr>location := map (\<lambda>t. if t \<ge> u16 (int index) then u16 (int t - 1) else t) (location d),
                  files := take index (files d) @ drop (index + 1) (files d),
                  UserCreatedSnap := ucs,
                  SnapIndx := last_user_created ucs 0 (SnapIndx d)\<rparr>, w', ch)))"

end
