(* ===== verification/DiffDiskCorrect.thy ===== *)
theory DiffDiskCorrect
  imports DiffDisk
begin

text \<open>
  Correctness of the data plane.  A volume, seen from outside, is an array of bytes: \<open>vol_byte\<close> reads
  a byte through the file that \<open>sector_src\<close> names.  In the locale \<open>block_file\<close>, which states what
  the code relies on of the files, a read returns the bytes of that array and changes nothing a reader can see,
  and a write is the update of the array at the request's range.
\<close>

section \<open>The abstract volume\<close>

text \<open>The newest file of the chain with an extent at a sector; the base file, index 1, is never asked.\<close>

definition newest :: "('f \<Rightarrow> int \<Rightarrow> bool) \<Rightarrow> 'f option list \<Rightarrow> int \<Rightarrow> nat" where
  "newest al fs s = last (1 # filter (\<lambda>i. al (the (fs ! i)) s) [2..<length fs])"

definition sector_src :: "('f \<Rightarrow> int \<Rightarrow> bool) \<Rightarrow> 'f diffDisk \<Rightarrow> int \<Rightarrow> nat" where
  "sector_src al d s =
     (if length (files d) = 2 then 1
      else if location d ! nat s \<noteq> 0 then location d ! nat s
      else newest al (files d) s)"

definition vol_byte :: "('f \<Rightarrow> int \<Rightarrow> byte) \<Rightarrow> ('f \<Rightarrow> int \<Rightarrow> bool) \<Rightarrow> 'f diffDisk \<Rightarrow> int \<Rightarrow> byte" where
  "vol_byte ct al d p = ct (the (files d ! sector_src al d (p div 4096))) p"

definition vol_size :: "'f diffDisk \<Rightarrow> int" where
  "vol_size d = 4096 * int (length (location d))"

definition overwrite :: "(int \<Rightarrow> byte) \<Rightarrow> int \<Rightarrow> byte list \<Rightarrow> int \<Rightarrow> byte" where
  "overwrite V off bs p = (if off \<le> p \<and> p < off + int (length bs) then bs ! nat (p - off) else V p)"

definition bytes_at :: "(int \<Rightarrow> byte) \<Rightarrow> int \<Rightarrow> nat \<Rightarrow> byte list" where
  "bytes_at V off n = map (\<lambda>i. V (off + int i)) [0..<n]"

text \<open>The shape every reachable volume has, and that its files are usable over the whole volume.\<close>

definition wf_shape :: "'f diffDisk \<Rightarrow> bool" where
  "wf_shape d \<longleftrightarrow>
     sectorSize d = 4096 \<and> 2 \<le> length (files d) \<and> length (files d) \<le> 65536 \<and>
     files d ! 0 = None \<and> (\<forall>i\<in>{1..<length (files d)}. files d ! i \<noteq> None) \<and>
     distinct (files d) \<and> (\<forall>t\<in>set (location d). t < length (files d))"

definition wf_disk :: "('f \<Rightarrow> int \<Rightarrow> bool) \<Rightarrow> 'f diffDisk \<Rightarrow> bool" where
  "wf_disk av d \<longleftrightarrow>
     wf_shape d \<and> (\<forall>i\<in>{1..<length (files d)}. av (the (files d ! i)) (vol_size d))"

section \<open>The interface of a file\<close>

locale block_file =
  fixes F :: "('w, 'f) file_ops"
    and content :: "'w \<Rightarrow> 'f \<Rightarrow> int \<Rightarrow> byte"
    and alloc :: "'w \<Rightarrow> 'f \<Rightarrow> int \<Rightarrow> bool"
    and avail :: "'w \<Rightarrow> 'f \<Rightarrow> int \<Rightarrow> bool"
  assumes read_ok:
    "\<And>w f n off len. avail w f n \<Longrightarrow> 0 \<le> off \<Longrightarrow> off + int len \<le> n \<Longrightarrow>
       fReadAt F f len off w = (map (\<lambda>i. content w f (off + int i)) [0..<len], None)"
  and write_ok:
    "\<And>w f n off bs. avail w f n \<Longrightarrow> 0 \<le> off \<Longrightarrow> off + int (length bs) \<le> n \<Longrightarrow>
       4096 dvd off \<Longrightarrow> 4096 dvd length bs \<Longrightarrow> fst (fWriteAt F f bs off w) = (length bs, None)"
  and write_content:
    "\<And>w f n off bs g p. avail w f n \<Longrightarrow> 0 \<le> off \<Longrightarrow> off + int (length bs) \<le> n \<Longrightarrow>
       4096 dvd off \<Longrightarrow> 4096 dvd length bs \<Longrightarrow>
       content (snd (fWriteAt F f bs off w)) g p =
         (if g = f \<and> off \<le> p \<and> p < off + int (length bs) then bs ! nat (p - off) else content w g p)"
  and write_alloc:
    "\<And>w f n off bs g s. avail w f n \<Longrightarrow> 0 \<le> off \<Longrightarrow> off + int (length bs) \<le> n \<Longrightarrow>
       4096 dvd off \<Longrightarrow> 4096 dvd length bs \<Longrightarrow>
       alloc (snd (fWriteAt F f bs off w)) g s =
         (g = f \<and> off \<le> s * 4096 \<and> s * 4096 < off + int (length bs) \<or> alloc w g s)"
  and write_avail:
    "\<And>w f n off bs g m. avail w f n \<Longrightarrow> 0 \<le> off \<Longrightarrow> off + int (length bs) \<le> n \<Longrightarrow>
       avail w g m \<Longrightarrow> avail (snd (fWriteAt F f bs off w)) g m"
  and fiemap_ok:
    "\<And>w f n s. avail w f n \<Longrightarrow> 0 \<le> s \<Longrightarrow> s * 4096 + 4096 \<le> n \<Longrightarrow>
       \<exists>es. fFiemap F f (s * 4096) 4096 1 w = (es, None) \<and> (es \<noteq> [] \<longleftrightarrow> alloc w f s)"

section \<open>Lists\<close>

lemma length_splice [simp]: "k \<le> length dst \<Longrightarrow> k + length src \<le> length dst \<Longrightarrow> length (splice k src dst) = length dst"
  by (simp add: splice_def)

lemma nth_splice:
  assumes "k + length src \<le> length dst" "i < length dst"
  shows "splice k src dst ! i = (if k \<le> i \<and> i < k + length src then src ! (i - k) else dst ! i)"
proof -
  have k: "min (length dst) k = k" using assms by simp
  consider "i < k" | "k \<le> i" "i < k + length src" | "k + length src \<le> i" by linarith
  then show ?thesis
  proof cases
    case 1 then show ?thesis using assms by (simp add: splice_def nth_append)
  next
    case 2
    then have "i - k < length src" by linarith
    with 2 show ?thesis using assms k by (simp add: splice_def nth_append)
  next
    case 3
    then have "i - k - length src + (k + length src) = i" "\<not> i - k < length src" by simp_all
    with 3 show ?thesis using assms k by (simp add: splice_def nth_append add.commute)
  qed
qed

lemma length_bytes_at [simp]: "length (bytes_at V off n) = n"
  by (simp add: bytes_at_def)

lemma nth_bytes_at [simp]: "i < n \<Longrightarrow> bytes_at V off n ! i = V (off + int i)"
  by (simp add: bytes_at_def)

lemma bytes_at_cong:
  "(\<And>p. off \<le> p \<Longrightarrow> p < off + int n \<Longrightarrow> V p = V' p) \<Longrightarrow> bytes_at V off n = bytes_at V' off n"
  by (simp add: bytes_at_def)

text \<open>A buffer filled up to \<open>k\<close> is, after the next \<open>m\<close> bytes are copied in, filled up to \<open>k + m\<close>.\<close>

definition filled :: "(int \<Rightarrow> byte) \<Rightarrow> int \<Rightarrow> nat \<Rightarrow> byte list \<Rightarrow> bool" where
  "filled V off k buf \<longleftrightarrow> k \<le> length buf \<and> (\<forall>i<k. buf ! i = V (off + int i))"

lemma filled_0 [simp]: "filled V off 0 buf"
  by (simp add: filled_def)

lemma filled_full: "filled V off (length buf) buf \<Longrightarrow> buf = bytes_at V off (length buf)"
  by (auto simp: filled_def intro: nth_equalityI)

lemma filled_splice:
  assumes "filled V off k buf" "k + m \<le> length buf"
  shows "filled V off (k + m) (splice k (bytes_at V (off + int k) m) buf)"
  using assms by (auto simp: filled_def nth_splice)

lemma drop_bytes_at: "drop k (bytes_at V off n) = bytes_at V (off + int k) (n - k)"
  by (rule nth_equalityI) (auto simp: add.assoc)

lemma take_bytes_at: "take k (bytes_at V off n) = bytes_at V off (min k n)"
  by (rule nth_equalityI) auto

lemma splice_0_bytes_at: "splice 0 (bytes_at V off n) buf = splice 0 (bytes_at V off (min n (length buf))) buf"
  by (simp add: splice_def take_bytes_at min_def)

lemma go_slice_nat: "a \<le> b \<Longrightarrow> b \<le> length xs \<Longrightarrow> go_slice xs (int a) (int b) = Some (take (b - a) (drop a xs))"
  by (simp add: go_slice_def)

text \<open>The first copy of a read that starts at \<open>r\<close> in a sector.\<close>

lemma filled_first:
  fixes r :: nat
  shows "filled V (4096 * q + int r) (min (length buf) (4096 - r)) (splice 0 (drop r (bytes_at V (4096 * q) 4096)) buf)"
    and "length (splice 0 (drop r (bytes_at V (4096 * q) 4096)) buf) = length buf"
  using filled_splice [of V "4096 * q + int r" 0 buf "min (length buf) (4096 - r)"]
    splice_0_bytes_at [of V "4096 * q + int r" "4096 - r" buf]
  by (simp_all add: drop_bytes_at min.commute)

section \<open>The shape of a request\<close>

text \<open>
  Whole sectors; or bytes of one sector; or the end of a sector, \<open>k\<close> whole sectors and the beginning of
  another, not all of them empty.
\<close>

lemma request_split:
  fixes off :: int and n L :: nat
  assumes "0 \<le> off" "0 < n" "off + int n \<le> 4096 * int L"
    "\<And>q m. off = 4096 * q \<Longrightarrow> 0 \<le> q \<Longrightarrow> n = m * 4096 \<Longrightarrow> q + int m \<le> int L \<Longrightarrow> thesis"
    "\<And>q r. off = 4096 * q + int r \<Longrightarrow> 0 \<le> q \<Longrightarrow> q < int L \<Longrightarrow> r < 4096 \<Longrightarrow> n \<le> 4096 - r \<Longrightarrow> n < 4096 \<Longrightarrow> thesis"
    "\<And>q r k e. off = 4096 * q + int r \<Longrightarrow> 0 \<le> q \<Longrightarrow> r < 4096 \<Longrightarrow> e < 4096 \<Longrightarrow> n = 4096 - r + k * 4096 + e \<Longrightarrow>
       0 < k * 4096 + e \<Longrightarrow> 0 < r + e \<Longrightarrow> q + 1 + int k + (if e = 0 then 0 else 1) \<le> int L \<Longrightarrow> thesis"
  shows thesis
proof -
  define q r where "q = off div 4096" and "r = nat (off mod 4096)"
  have q: "0 \<le> q" and off: "off = 4096 * q + int r" and r: "r < 4096"
    using assms(1) by (auto simp: q_def r_def nat_less_iff)
  show thesis
  proof (cases "n \<le> 4096 - r")
    case True
    have "q < int L" using assms(2,3) off by linarith
    show thesis
    proof (cases "n < 4096")
      case True then show thesis using assms(5) [OF off q \<open>q < int L\<close> r] \<open>n \<le> 4096 - r\<close> by simp
    next
      case False
      then have "n = 1 * 4096" "r = 0" using \<open>n \<le> 4096 - r\<close> r by auto
      then show thesis using assms(4) [of q 1] off q \<open>q < int L\<close> by simp
    qed
  next
    case False
    define k e where "k = (n - (4096 - r)) div 4096" and "e = (n - (4096 - r)) mod 4096"
    have n: "n = 4096 - r + k * 4096 + e" and e: "e < 4096" using False by (auto simp: k_def e_def)
    have fit: "q + 1 + int k + (if e = 0 then 0 else 1) \<le> int L" using assms(3) n off r by auto
    show thesis
    proof (cases "r + e = 0")
      case True
      then have "off = 4096 * q" "n = (1 + k) * 4096" "q + int (1 + k) \<le> int L" using off n fit by simp_all
      then show thesis using assms(4) q by blast
    next
      case 2: False
      have "0 < k * 4096 + e" using False n by linarith
      then show thesis using assms(6) [OF off q r e n _ _ fit] 2 by simp
    qed
  qed
qed

lemma request_smod:
  fixes k r e n :: nat
  assumes "0 \<le> q" "r < 4096" "e < 4096" "n = 4096 - r + k * 4096 + e"
  shows "(4096 * q + int r) smod 4096 = int r" "(int n + (4096 * q + int r)) smod 4096 = int e"
    "4096 * q + int r + (4096 - int r) = 4096 * (q + 1)"
    "4096 * q + int r + int n - int e = 4096 * (q + 1 + int k)"
    "nat (4096 - int r) = 4096 - r" "nat (int n - int e) = n - e"
proof -
  have n: "int n + (4096 * q + int r) = int e + (q + 1 + int k) * 4096" using assms by simp
  have "(int n + (4096 * q + int r)) mod 4096 = int e" using assms(3) unfolding n by (simp only: mod_mult_self1) simp
  then show "(int n + (4096 * q + int r)) smod 4096 = int e" using assms(1) by (simp add: smod_nonneg)
  show "4096 * q + int r + int n - int e = 4096 * (q + 1 + int k)" using n by simp
qed (use assms in \<open>simp_all add: go_simps\<close>)

lemma request_slices:
  assumes "r < 4096" "n = 4096 - r + k * 4096 + e"
  shows "length xs = n \<Longrightarrow> go_slice xs (4096 - int r) (int n - int e) = Some (take (k * 4096) (drop (4096 - r) xs))"
    and "length xs = n \<Longrightarrow> go_slice xs 0 (4096 - int r) = Some (take (4096 - r) xs)"
    and "length xs = n \<Longrightarrow> go_slice xs (int n - int e) (int n) = Some (drop (n - e) xs)"
proof -
  have eqs: "4096 - int r = int (4096 - r)" "int n - int e = int (n - e)" "k * 4096 = n - e - (4096 - r)" "0 = int 0"
    using assms by simp_all
  show "go_slice xs (4096 - int r) (int n - int e) = Some (take (k * 4096) (drop (4096 - r) xs))" if "length xs = n"
    unfolding eqs(1-3) by (rule go_slice_nat) (use assms that in simp_all)
  show "go_slice xs 0 (4096 - int r) = Some (take (4096 - r) xs)" if "length xs = n"
    using go_slice_nat [of 0 "4096 - r" xs] assms that unfolding eqs(1) by simp
  show "go_slice xs (int n - int e) (int n) = Some (drop (n - e) xs)" if "length xs = n"
    using go_slice_nat [of "n - e" n xs] assms that unfolding eqs(2) by simp
qed

section \<open>The newest file\<close>

lemma newest_bounds: "2 \<le> length fs \<Longrightarrow> 1 \<le> newest al fs s \<and> newest al fs s < length fs"
proof -
  assume a: "2 \<le> length fs"
  let ?xs = "filter (\<lambda>i. al (the (fs ! i)) s) [2..<length fs]"
  show ?thesis
  proof (cases "?xs = []")
    case True then show ?thesis using a by (simp add: newest_def)
  next
    case False
    then have "last ?xs \<in> set ?xs" by (rule last_in_set)
    then show ?thesis using False by (simp add: newest_def)
  qed
qed

text \<open>The scan of \<open>lookup\<close> computes \<open>newest\<close> of the prefix it still has to look at.\<close>

lemma newest_Suc:
  "2 \<le> n \<Longrightarrow> last (1 # filter P [2..<Suc n]) = (if P n then n else last (1 # filter P [2..<n]))"
  by simp

section \<open>Lookup\<close>

text \<open>Two states of a volume that differ in what \<open>lookup\<close> has cached only.\<close>

definition agrees :: "('f \<Rightarrow> int \<Rightarrow> bool) \<Rightarrow> 'f diffDisk \<Rightarrow> 'f diffDisk \<Rightarrow> bool" where
  "agrees al d d' \<longleftrightarrow>
     (\<exists>L. d' = d\<lparr>location := L\<rparr> \<and> length L = length (location d) \<and>
        (\<forall>t<length L. location d ! t \<noteq> 0 \<longrightarrow> L ! t = location d ! t)) \<and>
     (\<forall>s. 0 \<le> s \<and> s < int (length (location d)) \<longrightarrow> sector_src al d' s = sector_src al d s)"

lemma agrees_refl [simp]: "agrees al d d"
  by (auto simp: agrees_def intro: exI [of _ "location d"])

lemma agrees_trans: "agrees al d d' \<Longrightarrow> agrees al d' d'' \<Longrightarrow> agrees al d d''"
  unfolding agrees_def by auto

lemma agrees_frame:
  "agrees al d d' \<Longrightarrow> files d' = files d \<and> sectorSize d' = sectorSize d \<and> SnapIndx d' = SnapIndx d \<and>
     UserCreatedSnap d' = UserCreatedSnap d \<and> length (location d') = length (location d)"
  by (auto simp: agrees_def)

lemma agrees_src:
  "agrees al d d' \<Longrightarrow> 0 \<le> s \<Longrightarrow> s < int (length (location d)) \<Longrightarrow> sector_src al d' s = sector_src al d s"
  by (simp add: agrees_def)

lemma agrees_vol_size: "agrees al d d' \<Longrightarrow> vol_size d' = vol_size d"
  by (simp add: agrees_frame vol_size_def)

lemma sector_in_range:
  "0 \<le> p \<Longrightarrow> p < vol_size d \<Longrightarrow> 0 \<le> p div 4096 \<and> p div 4096 < int (length (location d))"
  unfolding vol_size_def by linarith

lemma agrees_vol_byte:
  "agrees al d d' \<Longrightarrow> 0 \<le> p \<Longrightarrow> p < vol_size d \<Longrightarrow> vol_byte ct al d' p = vol_byte ct al d p"
  using sector_in_range [of p d] by (simp add: vol_byte_def agrees_frame agrees_src)

lemma wf_disk_file:
  assumes "wf_disk av d" "1 \<le> i" "i < length (files d)"
  obtains f where "files d ! i = Some f" "av f (vol_size d)"
  using assms by (cases "files d ! i") (force simp: wf_disk_def wf_shape_def)+

lemma sector_src_bounds:
  assumes "wf_shape d" "0 \<le> s" "s < int (length (location d))"
  shows "1 \<le> sector_src al d s \<and> sector_src al d s < length (files d)"
proof -
  have "location d ! nat s < length (files d)"
    using assms by (simp add: wf_shape_def nat_less_iff)
  moreover have "1 \<le> newest al (files d) s \<and> newest al (files d) s < length (files d)"
    using assms(1) by (intro newest_bounds) (simp add: wf_shape_def)
  ultimately show ?thesis using assms(1) by (auto simp: sector_src_def wf_shape_def)
qed

context block_file
begin

lemma scan_newest:
  assumes "wf_disk (avail w) d" "0 \<le> s" "s < int (length (location d))" "1 \<le> i" "i < length (files d)"
  shows "lookup_scan F d s w i =
    Inr (Some (last (1 # filter (\<lambda>i. alloc w (the (files d ! i)) s) [2..<Suc i])))"
  using assms(4,5)
proof (induction i)
  case 0 then show ?case by simp
next
  case (Suc i)
  show ?case
  proof (cases "i = 0")
    case True then show ?thesis by simp
  next
    case False
    obtain f where f: "files d ! Suc i = Some f" and av: "avail w f (vol_size d)"
      using wf_disk_file [OF assms(1), of "Suc i"] Suc.prems by blast
    have ss: "sectorSize d = 4096" using assms(1) by (simp add: wf_disk_def wf_shape_def)
    have "s * 4096 + 4096 \<le> vol_size d" using assms(3) by (simp add: vol_size_def)
    with fiemap_ok [OF av assms(2)] obtain es where
      "fFiemap F f (s * 4096) 4096 1 w = (es, None)" "es \<noteq> [] \<longleftrightarrow> alloc w f s" by blast
    then show ?thesis using Suc False f ss newest_Suc [of "Suc i" "\<lambda>i. alloc w (the (files d ! i)) s"] by auto
  qed
qed

lemma lookup_ok:
  assumes wf: "wf_disk (avail w) d" and s: "0 \<le> s" "s < int (length (location d))"
  shows "\<exists>d'. lookup F s d w = (Inr (sector_src (alloc w) d s), d') \<and> agrees (alloc w) d d' \<and> wf_disk (avail w) d'"
proof (cases "length (files d) = 2 \<or> location d ! nat s \<noteq> 0")
  case True
  then have "lookup F s d w = (Inr (sector_src (alloc w) d s), d)"
    using s by (auto simp: lookup_def sector_src_def Let_def)
  then show ?thesis using wf by (intro exI [of _ d]) simp
next
  case False
  let ?t = "newest (alloc w) (files d) s"
  have len: "2 < length (files d)" "length (files d) \<le> 65536"
    using wf False by (auto simp: wf_disk_def wf_shape_def)
  have t: "1 \<le> ?t" "?t < length (files d)" using newest_bounds [of "files d"] len by simp_all
  have sc: "lookup_scan F d s w (length (files d) - 1) = Inr (Some ?t)"
  proof -
    have l: "Suc (length (files d) - 1) = length (files d)" using len by simp
    show ?thesis
      using scan_newest [OF wf s, of "length (files d) - 1"] len unfolding l newest_def by simp
  qed
  let ?d = "d\<lparr>location := (location d)[nat s := ?t]\<rparr>"
  have "lookup F s d w = (Inr (sector_src (alloc w) d s), ?d)"
    using False s len t sc by (simp add: lookup_def sector_src_def u16_int Let_def)
  moreover have "agrees (alloc w) d ?d"
    using False t s by (auto simp: agrees_def sector_src_def nth_list_update nat_eq_iff2 intro!: exI [of _ "(location d)[nat s := ?t]"])
  moreover have "wf_disk (avail w) ?d"
    using wf t by (auto simp: wf_disk_def wf_shape_def vol_size_def dest!: set_update_subset_insert [THEN subsetD])
  ultimately show ?thesis by blast
qed


section \<open>Reads\<close>

text \<open>A run of sectors that live in the same file is read in one call.\<close>

lemma read_run_ok:
  fixes j rs :: nat
  assumes wf: "wf_disk (avail w) d" and off: "off = 4096 * s0" "0 \<le> s0" and rs: "1 \<le> rs"
    and fit: "s0 + int (j + rs) \<le> int (length (location d))"
    and src: "\<And>s. s0 + int j \<le> s \<Longrightarrow> s < s0 + int (j + rs) \<Longrightarrow> sector_src (alloc w) d s = t"
  shows "read_run F t buf off (int j) (int rs) d w =
    ((int (rs * 4096), None),
     splice (j * 4096) (bytes_at (vol_byte (content w) (alloc w) d) (off + int (j * 4096)) (rs * 4096)) buf)"
proof -
  have ss: "sectorSize d = 4096" using wf by (simp add: wf_disk_def wf_shape_def)
  have "sector_src (alloc w) d (s0 + int j) = t" using src rs by simp
  moreover have "wf_shape d" using wf by (simp add: wf_disk_def)
  ultimately have t: "1 \<le> t" "t < length (files d)"
    using sector_src_bounds [of d "s0 + int j" "alloc w"] fit off rs by auto
  then obtain f where f: "files d ! t = Some f" and av: "avail w f (vol_size d)"
    using wf_disk_file [OF wf] by blast
  have rd: "fReadAt F f (rs * 4096) (off + int (j * 4096)) w =
      (map (\<lambda>k. content w f (off + int (j * 4096) + int k)) [0..<rs * 4096], None)"
    by (rule read_ok [OF av]) (use off fit in \<open>simp_all add: vol_size_def\<close>)
  have "content w f (off + int (j * 4096) + int k) = vol_byte (content w) (alloc w) d (off + int (j * 4096) + int k)"
    if "k < rs * 4096" for k
  proof -
    have "(off + int (j * 4096) + int k) div 4096 = s0 + int j + int k div 4096"
      using off by (simp add: algebra_simps)
    moreover have "int k div 4096 < int rs" using that by linarith
    ultimately have "sector_src (alloc w) d ((off + int (j * 4096) + int k) div 4096) = t"
      by (intro src) auto
    then show ?thesis by (simp add: vol_byte_def f)
  qed
  then have "map (\<lambda>k. content w f (off + int (j * 4096) + int k)) [0..<rs * 4096] =
      bytes_at (vol_byte (content w) (alloc w) d) (off + int (j * 4096)) (rs * 4096)"
    by (simp add: bytes_at_def)
  moreover have "nat (int j * 4096) = j * 4096" "nat (int rs * 4096) = rs * 4096"
    by (simp_all add: nat_mult_distrib)
  ultimately show ?thesis
    using t f rd by (simp add: read_run_def read_file_def ss Let_def)
qed

text \<open>The same with the bytes named by an earlier state of the volume.\<close>

lemma read_run_agrees:
  fixes j rs :: nat
  assumes wf: "wf_disk (avail w) d" and ag: "agrees (alloc w) d0 d" and off: "off = 4096 * s0" "0 \<le> s0" and rs: "1 \<le> rs"
    and fit: "s0 + int (j + rs) \<le> int (length (location d0))"
    and src: "\<And>s. s0 + int j \<le> s \<Longrightarrow> s < s0 + int (j + rs) \<Longrightarrow> sector_src (alloc w) d0 s = t"
  shows "read_run F t buf off (int j) (int rs) d w =
    ((int (rs * 4096), None),
     splice (j * 4096) (bytes_at (vol_byte (content w) (alloc w) d0) (off + int (j * 4096)) (rs * 4096)) buf)"
proof -
  have len: "length (location d) = length (location d0)" using agrees_frame [OF ag] by simp
  have src': "sector_src (alloc w) d s = t" if "s0 + int j \<le> s" "s < s0 + int (j + rs)" for s
  proof -
    have "0 \<le> s" "s < int (length (location d0))" using that off(2) fit by linarith+
    then show ?thesis using agrees_src [OF ag] src [OF that] by simp
  qed
  have "bytes_at (vol_byte (content w) (alloc w) d) (off + int (j * 4096)) (rs * 4096) =
      bytes_at (vol_byte (content w) (alloc w) d0) (off + int (j * 4096)) (rs * 4096)"
  proof (rule bytes_at_cong, rule agrees_vol_byte [OF ag])
    fix p assume p: "off + int (j * 4096) \<le> p" "p < off + int (j * 4096) + int (rs * 4096)"
    show "0 \<le> p" using p(1) off by simp
    show "p < vol_size d0" using p(2) off fit by (simp add: vol_size_def)
  qed
  then show ?thesis using read_run_ok [OF wf off rs _ src', where buf = buf] fit len by simp
qed

lemma fullReadAt_loop_ok:
  assumes "wf_disk (avail w) d" "agrees (alloc w) d0 d" "off = 4096 * s0" "0 \<le> s0"
    "1 \<le> rs" "length buf = (j + rs + n) * 4096"
    "s0 + int (j + rs + n) \<le> int (length (location d0))"
    "\<And>s. s0 + int j \<le> s \<Longrightarrow> s < s0 + int (j + rs) \<Longrightarrow> sector_src (alloc w) d0 s = t"
    "filled (vol_byte (content w) (alloc w) d0) off (j * 4096) buf"
  shows "\<exists>d'. fullReadAt_loop F off w n (int (j + rs)) (int rs) t (int (j * 4096)) buf d =
      ((int (length buf), None), bytes_at (vol_byte (content w) (alloc w) d0) off (length buf), d') \<and>
      agrees (alloc w) d0 d' \<and> wf_disk (avail w) d'"
  using assms
proof (induction n arbitrary: j rs t buf d)
  case 0
  let ?V = "vol_byte (content w) (alloc w) d0"
  let ?buf = "splice (j * 4096) (bytes_at ?V (off + int (j * 4096)) (rs * 4096)) buf"
  have fit: "s0 + int (j + rs) \<le> int (length (location d0))" using "0.prems"(7) by simp
  have rr: "read_run F t buf off (int j) (int rs) d w = ((int (rs * 4096), None), ?buf)"
    by (rule read_run_agrees [OF "0.prems"(1-5) fit "0.prems"(8)])
  have lb: "length ?buf = length buf" "j * 4096 + rs * 4096 = length buf" using "0.prems"(6) by simp_all
  have "?buf = bytes_at ?V off (length buf)"
    using filled_full [of ?V off ?buf] filled_splice [OF "0.prems"(9), of "rs * 4096"] lb by simp
  with rr show ?case using "0.prems"(1,2,5,6) by (intro exI [of _ d]) simp
next
  case (Suc n)
  let ?V = "vol_byte (content w) (alloc w) d0"
  have ss: "sectorSize d = 4096" using Suc.prems(1) by (simp add: wf_disk_def wf_shape_def)
  have div: "off sdiv sectorSize d + int (j + rs) = s0 + int (j + rs)"
    using Suc.prems(3,4) by (simp add: ss sdiv_nonneg)
  have rng: "0 \<le> s0 + int (j + rs)" "s0 + int (j + rs) < int (length (location d0))"
    using Suc.prems(4,7) by simp_all
  obtain d' where lk: "lookup F (s0 + int (j + rs)) d w = (Inr (sector_src (alloc w) d (s0 + int (j + rs))), d')"
    and ag: "agrees (alloc w) d d'" and wf': "wf_disk (avail w) d'"
    using lookup_ok [OF Suc.prems(1), of "s0 + int (j + rs)"] rng agrees_frame [OF Suc.prems(2)] by auto
  have ag0: "agrees (alloc w) d0 d'" using Suc.prems(2) ag by (rule agrees_trans)
  let ?u = "sector_src (alloc w) d0 (s0 + int (j + rs))"
  have new: "sector_src (alloc w) d (s0 + int (j + rs)) = ?u"
    by (rule agrees_src [OF Suc.prems(2) rng])
  show ?case
  proof (cases "?u = t")
    case True
    have "\<exists>d''. fullReadAt_loop F off w n (int (j + Suc rs)) (int (Suc rs)) t (int (j * 4096)) buf d' =
      ((int (length buf), None), bytes_at ?V off (length buf), d'') \<and>
      agrees (alloc w) d0 d'' \<and> wf_disk (avail w) d''"
    proof (rule Suc.IH [OF wf' ag0 Suc.prems(3,4)])
      fix s assume "s0 + int j \<le> s" "s < s0 + int (j + Suc rs)"
      then show "sector_src (alloc w) d0 s = t"
        using Suc.prems(8) [of s] True by (cases "s = s0 + int (j + rs)") auto
    qed (use Suc.prems(6,7,9) in simp_all)
    then show ?thesis using lk True new div by (simp add: ac_simps)
  next
    case False
    let ?buf = "splice (j * 4096) (bytes_at ?V (off + int (j * 4096)) (rs * 4096)) buf"
    have rr: "read_run F t buf off (int j) (int rs) d' w = ((int (rs * 4096), None), ?buf)"
      by (rule read_run_agrees [OF wf' ag0 Suc.prems(3,4,5) _ Suc.prems(8)]) (use Suc.prems(7) in simp)
    have lb: "length ?buf = length buf" using Suc.prems(6) by simp
    have "\<exists>d''. fullReadAt_loop F off w n (int ((j + rs) + 1)) (int 1) ?u (int ((j + rs) * 4096)) ?buf d' =
      ((int (length ?buf), None), bytes_at ?V off (length ?buf), d'') \<and>
      agrees (alloc w) d0 d'' \<and> wf_disk (avail w) d''"
    proof (rule Suc.IH [OF wf' ag0 Suc.prems(3,4)])
      fix s assume "s0 + int (j + rs) \<le> s" "s < s0 + int (j + rs + 1)"
      then have "s = s0 + int (j + rs)" by simp
      then show "sector_src (alloc w) d0 s = ?u" by simp
    next
      show "filled ?V off ((j + rs) * 4096) ?buf"
        using filled_splice [OF Suc.prems(9), of "rs * 4096"] Suc.prems(6) by (simp add: algebra_simps)
    qed (use Suc.prems(6,7) lb in simp_all)
    then show ?thesis using lk False new div rr lb by (simp add: ac_simps)
  qed
qed

lemma fullReadAt_ok:
  assumes wf: "wf_disk (avail w) d" and s0: "0 \<le> s0" and buf: "length buf = m * 4096"
    and fit: "s0 + int m \<le> int (length (location d))"
  shows "\<exists>d'. fullReadAt F buf (4096 * s0) d w =
      ((int (length buf), None), bytes_at (vol_byte (content w) (alloc w) d) (4096 * s0) (length buf), d') \<and>
      agrees (alloc w) d d' \<and> wf_disk (avail w) d'"
proof (cases "m = 0")
  case True then show ?thesis using wf s0 buf
    by (intro exI [of _ d]) (simp add: fullReadAt_def wf_disk_def wf_shape_def bytes_at_def go_simps)
next
  case False
  then obtain n where m: "m = Suc n" by (cases m) auto
  have ss: "sectorSize d = 4096" using wf by (simp add: wf_disk_def wf_shape_def)
  have rng: "s0 < int (length (location d))" using fit m by simp
  obtain d' where lk: "lookup F s0 d w = (Inr (sector_src (alloc w) d s0), d')"
    and ag: "agrees (alloc w) d d'" and wf': "wf_disk (avail w) d'"
    using lookup_ok [OF wf s0 rng] by blast
  have "\<exists>d''. fullReadAt_loop F (4096 * s0) w n (int (0 + 1)) (int 1) (sector_src (alloc w) d s0) (int (0 * 4096)) buf d' =
      ((int (length buf), None), bytes_at (vol_byte (content w) (alloc w) d) (4096 * s0) (length buf), d'') \<and>
      agrees (alloc w) d d'' \<and> wf_disk (avail w) d''"
  proof (rule fullReadAt_loop_ok [OF wf' ag refl s0])
    fix s assume "s0 + int 0 \<le> s" "s < s0 + int (0 + 1)"
    then have "s = s0" by simp
    then show "sector_src (alloc w) d s = sector_src (alloc w) d s0" by simp
  qed (use buf m fit in simp_all)
  moreover have "buf \<noteq> []" "nat (int (length buf) div 4096 - 1) = n" using buf m by auto
  ultimately show ?thesis
    using lk s0 buf by (simp add: fullReadAt_def ss go_simps)
qed

lemma fullReadAt_agrees:
  assumes wf: "wf_disk (avail w) d" and ag: "agrees (alloc w) d0 d" and s0: "0 \<le> s0" and buf: "length buf = m * 4096"
    and fit: "s0 + int m \<le> int (length (location d0))"
  shows "\<exists>d'. fullReadAt F buf (4096 * s0) d w =
      ((int (length buf), None), bytes_at (vol_byte (content w) (alloc w) d0) (4096 * s0) (length buf), d') \<and>
      agrees (alloc w) d0 d' \<and> wf_disk (avail w) d'"
proof -
  have "s0 + int m \<le> int (length (location d))" using fit agrees_frame [OF ag] by simp
  then obtain d' where "fullReadAt F buf (4096 * s0) d w =
      ((int (length buf), None), bytes_at (vol_byte (content w) (alloc w) d) (4096 * s0) (length buf), d')"
      "agrees (alloc w) d d'" "wf_disk (avail w) d'"
    using fullReadAt_ok [OF wf s0 buf] by blast
  moreover have "bytes_at (vol_byte (content w) (alloc w) d) (4096 * s0) (length buf) =
      bytes_at (vol_byte (content w) (alloc w) d0) (4096 * s0) (length buf)"
    by (rule bytes_at_cong, rule agrees_vol_byte [OF ag]) (use s0 fit buf in \<open>auto simp: vol_size_def\<close>)
  ultimately show ?thesis using agrees_trans [OF ag] by auto
qed

lemma ReadAt_single:
  assumes wf: "wf_disk (avail w) d" and q: "0 \<le> q" "q < int (length (location d))" and r: "r < 4096"
    and n: "0 < length buf" "length buf \<le> 4096 - r" "length buf < 4096"
  shows "\<exists>d'. ReadAt F buf (4096 * q + int r) d w =
      ((int (length buf), None), bytes_at (vol_byte (content w) (alloc w) d) (4096 * q + int r) (length buf), d') \<and>
      agrees (alloc w) d d' \<and> wf_disk (avail w) d'"
proof -
  let ?V = "vol_byte (content w) (alloc w) d" and ?rb = "replicate (nat (sectorSize d)) 0 :: byte list"
  have ss: "sectorSize d = 4096" using wf by (simp add: wf_disk_def wf_shape_def)
  have so: "(4096 * q + int r) smod 4096 = int r" using q(1) r by (simp add: go_simps)
  obtain d1 where f1: "fullReadAt F ?rb (4096 * q) d w = ((4096, None), bytes_at ?V (4096 * q) 4096, d1)"
    and ag1: "agrees (alloc w) d d1" and wf1: "wf_disk (avail w) d1"
    using fullReadAt_ok [OF wf q(1), of ?rb 1] q(2) ss by auto
  let ?b1 = "splice 0 (drop r (bytes_at ?V (4096 * q) 4096)) buf"
  have "?b1 = bytes_at ?V (4096 * q + int r) (length buf)"
    using filled_first [where V = ?V and q = q and r = r and buf = buf] filled_full [of ?V "4096 * q + int r" ?b1] n by (simp add: min_def)
  moreover have cut: "int (length buf) \<le> 4096 - int r" "buf \<noteq> []" using n r by auto
  moreover have "(int (length buf) + (4096 * q + int r)) smod 4096 \<noteq> 0 \<or> r \<noteq> 0"
  proof (cases "r = 0")
    case True
    then have "(int (length buf) + (4096 * q + int r)) smod 4096 = int (length buf)"
      using q(1) n by (simp add: smod_nonneg mod_pos_pos_trivial)
    then show ?thesis using n by simp
  qed simp
  ultimately show ?thesis
    using so f1 ag1 wf1 by (intro exI [of _ d1]) (auto simp: ReadAt_def ss Let_def)
qed

text \<open>A request over several sectors is a sector, a run of whole sectors and a sector.\<close>

lemma ReadAt_multi:
  assumes wf: "wf_disk (avail w) d" and q: "0 \<le> q" and r: "r < 4096" and e: "e < 4096"
    and n: "length buf = (4096 - r) + k * 4096 + e" "0 < k * 4096 + e" "0 < r + e"
    and fit: "q + 1 + int k + (if e = 0 then 0 else 1) \<le> int (length (location d))"
  shows "\<exists>d'. ReadAt F buf (4096 * q + int r) d w =
      ((int (length buf), None), bytes_at (vol_byte (content w) (alloc w) d) (4096 * q + int r) (length buf), d') \<and>
      agrees (alloc w) d d' \<and> wf_disk (avail w) d'"
proof -
  let ?V = "vol_byte (content w) (alloc w) d" and ?rb = "replicate (nat (sectorSize d)) 0 :: byte list"
  let ?n = "length buf" and ?off = "4096 * q + int r"
  have ss: "sectorSize d = 4096" using wf by (simp add: wf_disk_def wf_shape_def)
  note sm = request_smod [OF q r e n(1)] and sl = request_slices [OF r n(1)]
  obtain d1 where f1: "fullReadAt F ?rb (4096 * q) d w = ((4096, None), bytes_at ?V (4096 * q) 4096, d1)"
    and ag1: "agrees (alloc w) d d1" and wf1: "wf_disk (avail w) d1"
    using fullReadAt_ok [OF wf q, of ?rb 1] fit ss by (auto split: if_splits)
  let ?b1 = "splice 0 (drop r (bytes_at ?V (4096 * q) 4096)) buf"
  let ?mid = "take (k * 4096) (drop (4096 - r) ?b1)"
  have b1: "filled ?V ?off (4096 - r) ?b1" "length ?b1 = ?n"
    using filled_first [where V = ?V and q = q and r = r and buf = buf] n(1) by simp_all
  have lm: "length ?mid = k * 4096" using n(1) b1(2) by simp
  obtain d2 where f2: "fullReadAt F ?mid (4096 * (q + 1)) d1 w =
      ((int (k * 4096), None), bytes_at ?V (4096 * (q + 1)) (k * 4096), d2)"
    and ag2: "agrees (alloc w) d d2" and wf2: "wf_disk (avail w) d2"
    using fullReadAt_agrees [OF wf1 ag1 _ lm, of "q + 1"] q fit lm by (auto split: if_splits)
  let ?b2 = "splice (4096 - r) (bytes_at ?V (4096 * (q + 1)) (k * 4096)) ?b1"
  have "?off + int (4096 - r) = 4096 * (q + 1)" using r by simp
  then have b2: "filled ?V ?off (4096 - r + k * 4096) ?b2" "length ?b2 = ?n"
    using filled_splice [of ?V ?off "4096 - r" ?b1 "k * 4096"] b1 n(1) by simp_all
  have pre: "ReadAt F buf ?off d w =
      (if e > 0 then
         (case fullReadAt F (bytes_at ?V (4096 * q) 4096) (4096 * (q + 1 + int k)) d2 w of
            ((_, Some e), _, d3) \<Rightarrow> ((0, Some e), ?b2, d3)
          | ((_, None), rb2, d3) \<Rightarrow> ((int ?n, None), splice (?n - e) (take e rb2) ?b2, d3))
       else ((int ?n, None), ?b2, d2))"
  proof -
    have "\<not> int ?n \<le> 4096 - int r" "buf \<noteq> []" using n r by auto
    moreover have "go_slice ?b1 (4096 - int r) (int ?n - int e) = Some ?mid" by (rule sl(1) [OF b1(2)])
    ultimately show ?thesis using f1 f2 n(3) by (auto simp: ReadAt_def ss Let_def sm)
  qed
  show ?thesis
  proof (cases "e = 0")
    case True
    then show ?thesis using pre filled_full [of ?V ?off ?b2] b2 n(1) ag2 wf2 by (intro exI [of _ d2]) simp
  next
    case False
    then obtain d3 where f3: "fullReadAt F (bytes_at ?V (4096 * q) 4096) (4096 * (q + 1 + int k)) d2 w =
        ((4096, None), bytes_at ?V (4096 * (q + 1 + int k)) 4096, d3)"
      and ag3: "agrees (alloc w) d d3" and wf3: "wf_disk (avail w) d3"
      using fullReadAt_agrees [OF wf2 ag2, of "q + 1 + int k" "bytes_at ?V (4096 * q) 4096" 1] q fit by auto
    let ?b3 = "splice (?n - e) (take e (bytes_at ?V (4096 * (q + 1 + int k)) 4096)) ?b2"
    have ne: "4096 - r + k * 4096 = ?n - e" "?n - e + e = ?n" using n(1) by simp_all
    have "?off + int (?n - e) = 4096 * (q + 1 + int k)" using n(1) r by simp
    then have tk: "take e (bytes_at ?V (4096 * (q + 1 + int k)) 4096) = bytes_at ?V (?off + int (?n - e)) e"
      using e by (simp only: take_bytes_at min_def less_imp_le if_True)
    have f3': "filled ?V ?off (?n - e + e) ?b3"
      unfolding tk by (rule filled_splice [OF b2(1) [unfolded ne(1)]]) (use b2(2) ne(2) in simp)
    have l3: "length ?b3 = ?n" unfolding tk using b2(2) ne(2) by (subst length_splice) simp_all
    have "?b3 = bytes_at ?V ?off ?n" using filled_full [of ?V ?off ?b3] f3' unfolding l3 ne(2) .
    then show ?thesis using pre False f3 ag3 wf3 by (intro exI [of _ d3]) simp
  qed
qed

lemma ReadAt_ok:
  assumes wf: "wf_disk (avail w) d" and off: "0 \<le> off" and fit: "off + int (length buf) \<le> vol_size d"
  shows "\<exists>d'. ReadAt F buf off d w =
      ((int (length buf), None), bytes_at (vol_byte (content w) (alloc w) d) off (length buf), d') \<and>
      agrees (alloc w) d d' \<and> wf_disk (avail w) d'"
proof (cases "buf = []")
  case True then show ?thesis using wf by (intro exI [of _ d]) (simp add: ReadAt_def bytes_at_def)
next
  case False
  then have n: "0 < length buf" by simp
  have ss: "sectorSize d = 4096" using wf by (simp add: wf_disk_def wf_shape_def)
  show ?thesis
  proof (rule request_split [OF off n fit [unfolded vol_size_def]])
    fix q m assume "off = 4096 * q" "0 \<le> q" "length buf = m * 4096" "q + int m \<le> int (length (location d))"
    then show ?thesis using fullReadAt_ok [OF wf, of q buf m] False by (simp add: ReadAt_def ss go_simps)
  next
    fix q r assume "off = 4096 * q + int r" "0 \<le> q" "q < int (length (location d))" "r < 4096"
      "length buf \<le> 4096 - r" "length buf < 4096"
    then show ?thesis using ReadAt_single [OF wf _ _ _ n] by simp
  next
    fix q r k e assume o: "off = 4096 * q + int r" and a: "0 \<le> q" "r < 4096" "e < 4096"
      "length buf = 4096 - r + k * 4096 + e" "0 < k * 4096 + e" "0 < r + e"
      "q + 1 + int k + (if e = 0 then 0 else 1) \<le> int (length (location d))"
    show ?thesis unfolding o by (rule ReadAt_multi [OF wf a])
  qed
qed

end

end
