(* ===== verification/DiffDiskWrite.thy ===== *)
theory DiffDiskWrite
  imports DiffDiskCorrect
begin

text \<open>
  Writes.  A write of the volume is the overwrite of its array of bytes, and every request it sends
  to the goroutine that punches holes is safe: the hole lies in a file in which no sector of the hole
  is live.  Safety is kept by every later operation, so it does not matter when the hole is punched.
\<close>

section \<open>Safe holes\<close>

text \<open>
  A hole is safe when all its sectors are known to live in files newer than the one it is punched in.
\<close>

definition hole_safe :: "'f diffDisk \<Rightarrow> 'f hole \<Rightarrow> bool" where
  "hole_safe d h \<longleftrightarrow>
     (\<exists>i s m. 1 \<le> i \<and> i < length (files d) \<and> hole_f h = files d ! i \<and>
        hole_offset h = s * 4096 \<and> hole_len h = m * 4096 \<and> 0 \<le> s \<and> 1 \<le> m \<and> s + m \<le> int (length (location d)) \<and>
        (\<forall>t. s \<le> t \<and> t < s + m \<longrightarrow> i < location d ! nat t))"

text \<open>What lookups and writes do to \<open>location\<close>: entries only move to newer files.\<close>

definition advances :: "'f diffDisk \<Rightarrow> 'f diffDisk \<Rightarrow> bool" where
  "advances d d' \<longleftrightarrow>
     files d' = files d \<and> sectorSize d' = sectorSize d \<and> SnapIndx d' = SnapIndx d \<and>
     UserCreatedSnap d' = UserCreatedSnap d \<and> length (location d') = length (location d) \<and>
     (\<forall>t<length (location d). location d ! t \<le> location d' ! t)"

lemma advances_refl [simp]: "advances d d"
  by (simp add: advances_def)

lemma advances_trans: "advances d d' \<Longrightarrow> advances d' d'' \<Longrightarrow> advances d d''"
  by (auto simp: advances_def intro: order_trans)

lemma agrees_advances: "agrees al d d' \<Longrightarrow> advances d d'"
  by (auto simp: agrees_def advances_def)

lemma hole_safe_advances: "hole_safe d h \<Longrightarrow> advances d d' \<Longrightarrow> hole_safe d' h"
proof -
  assume "hole_safe d h" and ad: "advances d d'"
  then obtain i s m where h: "1 \<le> i" "i < length (files d)" "hole_f h = files d ! i"
      "hole_offset h = s * 4096" "hole_len h = m * 4096" "0 \<le> s" "1 \<le> m" "s + m \<le> int (length (location d))"
    and lt: "\<And>t. s \<le> t \<Longrightarrow> t < s + m \<Longrightarrow> i < location d ! nat t"
    unfolding hole_safe_def by blast
  have "i < location d' ! nat t" if "s \<le> t" "t < s + m" for t
    using lt [OF that] ad h that by (force simp: advances_def nat_less_iff intro: less_le_trans)
  with h ad show ?thesis unfolding hole_safe_def advances_def by metis
qed

lemma vol_size_advances: "advances d d' \<Longrightarrow> vol_size d' = vol_size d"
  by (simp add: advances_def vol_size_def)

section \<open>The bookkeeping of a write\<close>

text \<open>A run is safe when the blocks it has gathered have already moved to the head.\<close>

definition run_safe :: "'f diffDisk \<Rightarrow> 'f run \<Rightarrow> bool" where
  "run_safe d r \<longleftrightarrow> run_file r = None \<or>
     (1 \<le> run_fileIndx r \<and> run_fileIndx r < length (files d) - 1 \<and> run_file r = files d ! run_fileIndx r \<and>
      0 \<le> run_lOffset r \<and> 1 \<le> run_length r \<and> run_lOffset r + run_length r \<le> int (length (location d)) \<and>
      (\<forall>t. run_lOffset r \<le> t \<and> t < run_lOffset r + run_length r \<longrightarrow> location d ! nat t = length (files d) - 1))"

definition write_inv :: "'f diffDisk \<Rightarrow> int \<Rightarrow> int \<Rightarrow> 'f diffDisk \<times> 'f run \<times> 'f hole list \<Rightarrow> bool" where
  "write_inv d0 s0 s = (\<lambda>(d, r, ch).
     advances d0 d \<and> wf_shape d \<and> run_safe d r \<and> (\<forall>h\<in>set ch. hole_safe d h) \<and>
     (\<forall>t. 0 \<le> t \<and> t < int (length (location d0)) \<longrightarrow>
        location d ! nat t = (if s0 \<le> t \<and> t < s then length (files d0) - 1 else location d0 ! nat t)))"

lemma run_safe_hole:
  assumes "run_safe d r" "run_file r \<noteq> None" "1 \<le> i" "i < length (files d) - 1" "f = files d ! i"
  shows "hole_safe d \<lparr>hole_f = f, hole_offset = run_lOffset r * 4096, hole_len = run_length r * 4096\<rparr>"
proof -
  have "0 \<le> run_lOffset r \<and> 1 \<le> run_length r \<and> run_lOffset r + run_length r \<le> int (length (location d)) \<and>
      (\<forall>t. run_lOffset r \<le> t \<and> t < run_lOffset r + run_length r \<longrightarrow> i < location d ! nat t)"
    using assms by (auto simp: run_safe_def)
  then show ?thesis using assms(3-5)
    by (auto simp: hole_safe_def intro!: exI [of _ i] exI [of _ "run_lOffset r"] exI [of _ "run_length r"])
qed

text \<open>Flushing a run towards any older file than the head keeps the pending holes safe.\<close>

lemma flush_run_safe:
  assumes "run_safe d r" "\<forall>h\<in>set ch. hole_safe d h" "sectorSize d = 4096" "1 \<le> i" "i < length (files d) - 1"
    "f = files d ! i"
  obtains u ch' where "flush_run punch f r d ch = (d\<lparr>UsedBlocks := u\<rparr>, ch')" "\<forall>h\<in>set ch'. hole_safe d h"
proof (cases "run_file r \<noteq> None \<and> int (run_fileIndx r) > SnapIndx d \<and> punch")
  case True
  then show ?thesis using that assms run_safe_hole [OF assms(1) _ assms(4-6)]
    by (simp add: flush_run_def sendToCreateHole_def)
next
  case False
  then have "flush_run punch f r d ch = (d, ch)" unfolding flush_run_def by (rule if_not_P)
  then show ?thesis using that [of "UsedBlocks d" ch] assms(2) by simp
qed

lemma hole_safe_frame [simp]:
  "hole_safe (d\<lparr>UsedBlocks := u\<rparr>) h = hole_safe d h"
  by (simp_all add: hole_safe_def)

lemma vol_byte_frame [simp]: "vol_byte ct al (d\<lparr>UsedBlocks := u\<rparr>) p = vol_byte ct al d p"
  by (simp add: vol_byte_def sector_src_def cong: if_cong)

text \<open>One sector: it moves to the head, whatever is counted, and the run goes on or starts afresh.\<close>

definition moves :: "int \<Rightarrow> 'f diffDisk \<Rightarrow> 'f diffDisk \<Rightarrow> bool" where
  "moves s d d' \<longleftrightarrow>
     location d' = (location d)[nat s := length (files d) - 1] \<and> files d' = files d \<and>
     sectorSize d' = sectorSize d \<and> SnapIndx d' = SnapIndx d \<and> UserCreatedSnap d' = UserCreatedSnap d"

lemma location_moved:
  assumes "write_inv d0 s0 s (d, r, ch)" "s0 \<le> s" "0 \<le> s" "s < int (length (location d))"
    "moves s d d'"
  shows "advances d d'" "wf_shape d'"
    "0 \<le> t \<Longrightarrow> t < int (length (location d0)) \<Longrightarrow>
       location d' ! nat t = (if s0 \<le> t \<and> t < s + 1 then length (files d0) - 1 else location d0 ! nat t)"
proof -
  have wf: "wf_shape d" and ad: "advances d0 d" using assms(1) by (auto simp: write_inv_def)
  have hi: "x \<le> length (files d) - 1" if "x \<in> set (location d)" for x
    using wf that by (force simp: wf_shape_def)
  then show "advances d d'"
    using assms(5) by (auto simp: moves_def advances_def nth_list_update_if)
  have "set (location d') \<subseteq> insert (length (files d) - 1) (set (location d))"
    using assms(5) by (simp add: moves_def set_update_subset_insert)
  then show "wf_shape d'" using wf assms(5) by (auto simp: moves_def wf_shape_def)
  show "location d' ! nat t = (if s0 \<le> t \<and> t < s + 1 then length (files d0) - 1 else location d0 ! nat t)"
    if "0 \<le> t" "t < int (length (location d0))"
  proof (cases "t = s")
    case True then show ?thesis using assms ad by (simp add: moves_def advances_def)
  next
    case False
    then have "location d' ! nat t = location d ! nat t" using assms(3,5) that by (simp add: moves_def)
    also have "\<dots> = (if s0 \<le> t \<and> t < s then length (files d0) - 1 else location d0 ! nat t)"
      using assms(1) that by (simp add: write_inv_def)
    finally show ?thesis using False by auto
  qed
qed

lemma write_inv_next:
  assumes "write_inv d0 s0 s (d, r, ch)" "s0 \<le> s" "0 \<le> s" "s < int (length (location d))"
    "moves s d d'"
    "\<forall>h\<in>set ch'. hole_safe d h" "run_safe d' r'"
  shows "write_inv d0 s0 (s + 1) (d', r', ch')"
proof -
  note m = location_moved [OF assms(1-5)]
  have "advances d0 d'" using assms(1) m(1) by (auto simp: write_inv_def intro: advances_trans)
  moreover have "\<forall>h\<in>set ch'. hole_safe d' h" using assms(6) m(1) hole_safe_advances by blast
  ultimately show ?thesis using assms(7) m(2,3) by (simp add: write_inv_def)
qed

lemma run_safe_moved:
  assumes "run_safe d r" "0 \<le> s" "s < int (length (location d))"
    "moves s d d'"
  shows "run_safe d' r"
  using assms by (auto simp: moves_def run_safe_def nth_list_update)

lemma run_safe_longer:
  assumes "run_safe d r" "0 \<le> s" "s < int (length (location d))" "s = run_lOffset r + run_length r"
    "moves s d d'"
  shows "run_safe d' (r\<lparr>run_length := run_length r + 1\<rparr>)"
proof (cases "run_file r = None")
  case False
  have "location d' ! nat t = length (files d) - 1" if "run_lOffset r \<le> t" "t < run_lOffset r + (run_length r + 1)" for t
    using assms that False by (cases "t = s") (auto simp: moves_def run_safe_def nth_list_update)
  then show ?thesis using assms False by (auto simp: moves_def run_safe_def)
qed (simp add: run_safe_def)

lemma run_safe_new:
  assumes "0 \<le> s" "s < int (length (location d))" "1 \<le> v" "v < length (files d) - 1"
    "moves s d d'"
  shows "run_safe d' \<lparr>run_file = files d ! v, run_fileIndx = v, run_length = 1, run_lOffset = s\<rparr>"
proof -
  have "location d' ! nat t = length (files d) - 1" if "s \<le> t" "t < s + 1" for t
  proof -
    have "t = s" using that by simp
    then show ?thesis using assms by (simp add: moves_def)
  qed
  then show ?thesis using assms by (auto simp: moves_def run_safe_def)
qed

lemma fullWriteAt_step_inv:
  assumes inv: "write_inv d0 s0 s (d, r, ch)" and s: "s0 \<le> s" "0 \<le> s" "s < int (length (location d))"
    and tg: "target = length (files d) - 1"
  shows "write_inv d0 s0 (s + 1) (fullWriteAt_step punch target s (d, r, ch))"
proof -
  let ?v = "location d ! nat s"
  have wf: "wf_shape d" and rs: "run_safe d r" and hs: "\<forall>h\<in>set ch. hole_safe d h"
    using inv by (auto simp: write_inv_def)
  have ss: "sectorSize d = 4096" and "target < 65536" using wf tg by (auto simp: wf_shape_def)
  then have u: "u16 (int target) = target" by (simp add: u16_int)
  have vl: "?v < length (files d)" using wf s by (auto simp: wf_shape_def nat_less_iff)
  note nxt = write_inv_next [OF inv s]
  note moved = run_safe_moved [OF rs s(2,3)]
  consider "?v = 0" | "?v = target" "?v \<noteq> 0" | "?v \<noteq> 0" "?v \<noteq> target" "?v = run_fileIndx r" "s = run_lOffset r + run_length r"
    | "?v \<noteq> 0" "?v \<noteq> target" "?v \<noteq> run_fileIndx r \<or> s \<noteq> run_lOffset r + run_length r" by blast
  then show ?thesis
  proof cases
    case 1 then show ?thesis
      by (simp add: fullWriteAt_step_def u) (rule nxt [OF _ hs moved], simp_all add: tg moves_def)
  next
    case 2 then show ?thesis
      by (simp add: fullWriteAt_step_def u) (rule nxt [OF _ hs moved], simp_all add: tg moves_def)
  next
    case 3
    then have same: "(?v = run_fileIndx r \<longrightarrow> s \<noteq> run_lOffset r + run_length r) = False" by simp
    show ?thesis using 3(1,2)
      by (simp add: fullWriteAt_step_def u Let_def same del: not_imp)
        (rule nxt [OF _ hs run_safe_longer [OF rs s(2,3) 3(4)]], simp_all add: tg moves_def)
  next
    case 4
    have v: "1 \<le> ?v" "?v < length (files d) - 1" using 4 vl tg by auto
    obtain b ch' where fl: "flush_run punch (files d ! ?v) r d ch = (d\<lparr>UsedBlocks := b\<rparr>, ch')"
      and hs': "\<forall>h\<in>set ch'. hole_safe d h"
      using flush_run_safe [OF rs hs ss v refl] by metis
    have other: "(?v = run_fileIndx r \<longrightarrow> s \<noteq> run_lOffset r + run_length r) = True" using 4(3) by blast
    show ?thesis using 4(1,2)
      by (simp add: fullWriteAt_step_def u Let_def fl other del: not_imp)
        (rule nxt [OF _ hs' run_safe_new [OF s(2,3) v]], simp_all add: tg moves_def)
  qed
qed

lemma fullWriteAt_loop_inv:
  assumes "write_inv d0 s0 s st" "s0 \<le> s" "0 \<le> s" "s + int n \<le> int (length (location d0))"
    "target = length (files d0) - 1"
  shows "\<exists>st'. fullWriteAt_loop punch target n s st = (None, st') \<and> write_inv d0 s0 (s + int n) st'"
  using assms
proof (induction n arbitrary: s st)
  case 0 then show ?case by simp
next
  case (Suc n)
  obtain d r ch where st: "st = (d, r, ch)" by (cases st) auto
  have ad: "advances d0 d" and wf: "wf_shape d" using Suc.prems(1) st by (auto simp: write_inv_def)
  have len: "s < int (length (location d))" "length (location d) = length (location d0)" "files d = files d0"
    using Suc.prems(4) ad by (auto simp: advances_def)
  moreover have "location d ! nat s < length (files d)" "nat s < length (location d)"
    using wf len Suc.prems(3) by (auto simp: wf_shape_def nat_less_iff)
  moreover have "write_inv d0 s0 (s + 1) (fullWriteAt_step punch target s st)"
    using fullWriteAt_step_inv Suc.prems len unfolding st by metis
  from Suc.IH [OF this _ _ _ Suc.prems(5)] Suc.prems(2-4) obtain st' where
    "fullWriteAt_loop punch target n (s + 1) (fullWriteAt_step punch target s st) = (None, st')"
    "write_inv d0 s0 (s + 1 + int n) st'" by fastforce
  ultimately show ?case using Suc.prems(3) by (simp add: st add.assoc)
qed

section \<open>A write is an overwrite\<close>

definition all_safe :: "('w, 'f) vol \<Rightarrow> bool" where
  "all_safe = (\<lambda>(d, w, ch). \<forall>h\<in>set ch. hole_safe d h)"

definition wrote ::
  "('w \<Rightarrow> 'f \<Rightarrow> int \<Rightarrow> byte) \<Rightarrow> ('w \<Rightarrow> 'f \<Rightarrow> int \<Rightarrow> bool) \<Rightarrow> ('w \<Rightarrow> 'f \<Rightarrow> int \<Rightarrow> bool) \<Rightarrow>
   ('w, 'f) vol \<Rightarrow> int \<Rightarrow> byte list \<Rightarrow> ('w, 'f) vol \<Rightarrow> bool" where
  "wrote ct al av v off buf v' =
     (case v of (d, w, ch) \<Rightarrow> case v' of (d', w', ch') \<Rightarrow>
        wf_disk (av w') d' \<and> all_safe v' \<and> advances d d' \<and>
        (\<forall>p. 0 \<le> p \<and> p < vol_size d \<longrightarrow>
           vol_byte (ct w') (al w') d' p = overwrite (vol_byte (ct w) (al w) d) off buf p))"

text \<open>
  The count a write returns is the length of the request except for a part of one sector, where it is
  the sector's.
\<close>

definition write_count :: "int \<Rightarrow> nat \<Rightarrow> int" where
  "write_count off n = (if 0 < n \<and> off mod 4096 + int n \<le> 4096 then 4096 else int n)"

lemma overwrite_overwrite:
  "overwrite (overwrite V off xs) (off + int (length xs)) ys = overwrite V off (xs @ ys)"
  by (auto simp: overwrite_def fun_eq_iff nth_append nat_diff_distrib' nat_less_iff intro!: arg_cong [of _ _ "nth ys"])

lemma overwrite_base: "V p = V' p \<Longrightarrow> overwrite V off bs p = overwrite V' off bs p"
  by (simp add: overwrite_def)

lemma wrote_wf:
  "wrote ct al av (d, w, ch) off buf (d', w', ch') \<Longrightarrow>
     wf_disk (av w') d' \<and> all_safe (d', w', ch') \<and> length (location d') = length (location d)"
  by (simp add: wrote_def advances_def)

lemma wrote_Nil: "wf_disk (av w) d \<Longrightarrow> all_safe (d, w, ch) \<Longrightarrow> wrote ct al av (d, w, ch) off [] (d, w, ch)"
  by (auto simp: wrote_def overwrite_def)

lemma wrote_append:
  assumes "wrote ct al av v off xs v1" "wrote ct al av v1 (off + int (length xs)) ys v2"
  shows "wrote ct al av v off (xs @ ys) v2"
proof -
  obtain d w ch d1 w1 ch1 d2 w2 ch2 where v: "v = (d, w, ch)" "v1 = (d1, w1, ch1)" "v2 = (d2, w2, ch2)"
    by (metis prod_cases3)
  have "vol_size d1 = vol_size d" using assms(1) v by (auto simp: wrote_def dest: vol_size_advances)
  moreover have "advances d d2" using assms v by (auto simp: wrote_def intro: advances_trans)
  ultimately show ?thesis using assms v
    by (auto simp: wrote_def overwrite_overwrite [symmetric]) (auto simp: overwrite_def)
qed

lemma newest_cong: "(\<And>f. al f s = al' f s) \<Longrightarrow> newest al fs s = newest al' fs s"
  by (simp add: newest_def)

context block_file
begin

lemma bytes_after_write:
  assumes wf: "wf_disk (avail w) d" and s0: "0 \<le> s0" and buf: "length buf = m * 4096"
    and fit: "s0 + int m \<le> int (length (location d))"
    and hd: "files d ! (length (files d) - 1) = Some f" and av: "avail w f (vol_size d)"
    and inv: "write_inv d s0 (s0 + int m) (d', r, ch)" and p: "0 \<le> p" "p < vol_size d"
    and w': "w' = snd (fWriteAt F f buf (4096 * s0) w)"
  shows "vol_byte (content w') (alloc w') d' p = overwrite (vol_byte (content w) (alloc w) d) (4096 * s0) buf p"
proof -
  have bound: "4096 * s0 + int (length buf) \<le> vol_size d" using buf fit by (simp add: vol_size_def)
  have dv: "4096 dvd 4096 * s0" "4096 dvd length buf" using buf by simp_all
  note cont = write_content [OF av _ bound dv, folded w'] and al = write_alloc [OF av _ bound dv, folded w']
  let ?s = "p div 4096"
  have s: "0 \<le> ?s" "?s < int (length (location d))" using sector_in_range p by blast+
  have fs: "files d' = files d" using inv by (simp add: write_inv_def advances_def)
  have loc: "location d' ! nat ?s = (if s0 \<le> ?s \<and> ?s < s0 + int m then length (files d) - 1 else location d ! nat ?s)"
    using inv s by (simp add: write_inv_def)
  have in_rng: "4096 * s0 \<le> p \<and> p < 4096 * s0 + int (length buf) \<longleftrightarrow> s0 \<le> ?s \<and> ?s < s0 + int m"
    using buf by auto
  show ?thesis
  proof (cases "s0 \<le> ?s \<and> ?s < s0 + int m")
    case True
    have "2 \<le> length (files d)" using wf by (simp add: wf_disk_def wf_shape_def)
    then have "sector_src (alloc w') d' ?s = length (files d) - 1" using loc True fs by (auto simp: sector_src_def)
    then show ?thesis using True in_rng s0 hd by (simp add: vol_byte_def fs cont overwrite_def)
  next
    case False
    have "alloc w' g ?s = alloc w g ?s" for g using False in_rng s0 buf by (subst al) auto
    then have "sector_src (alloc w') d' ?s = sector_src (alloc w) d ?s"
      using loc False fs newest_cong [of "alloc w'" ?s "alloc w"] by (simp add: sector_src_def)
    then show ?thesis using False in_rng s0 by (auto simp: vol_byte_def fs cont overwrite_def)
  qed
qed

lemma fullWriteAt_ok:
  assumes wf: "wf_disk (avail w) d" and s0: "0 \<le> s0" and buf: "length buf = m * 4096"
    and fit: "s0 + int m \<le> int (length (location d))" and safe: "all_safe (d, w, ch)"
  shows "\<exists>v'. fullWriteAt F punch buf (4096 * s0) (d, w, ch) = ((int (length buf), None), v') \<and>
      wrote content alloc avail (d, w, ch) (4096 * s0) buf v'"
proof -
  have sh: "wf_shape d" using wf by (simp add: wf_disk_def)
  then have ss: "sectorSize d = 4096" and l2: "2 \<le> length (files d)" by (auto simp: wf_shape_def)
  let ?t = "length (files d) - 1"
  obtain f where f: "files d ! ?t = Some f" and av: "avail w f (vol_size d)"
    by (rule wf_disk_file [OF wf, of ?t]) (use l2 in auto)
  obtain c err w' where wr: "fWriteAt F f buf (4096 * s0) w = ((c, err), w')" by (metis prod.collapse)
  have bound: "4096 * s0 + int (length buf) \<le> vol_size d" using buf fit by (simp add: vol_size_def)
  have c: "c = length buf" "err = None" using write_ok [OF av _ bound] s0 buf wr by simp_all
  have "write_inv d s0 s0 (d, run0, ch)"
    using sh safe by (auto simp: write_inv_def run_safe_def run0_def all_safe_def)
  from fullWriteAt_loop_inv [OF this order_refl s0 fit refl] obtain d' r ch' where
    lp: "fullWriteAt_loop punch ?t m s0 (d, run0, ch) = (None, d', r, ch')" and
    inv: "write_inv d s0 (s0 + int m) (d', r, ch')" by (metis prod_cases3)
  have iv: "advances d d'" "wf_shape d'" "run_safe d' r" "\<forall>h\<in>set ch'. hole_safe d' h"
    using inv by (auto simp: write_inv_def)
  obtain u ch'' where fl: "flush_run punch (run_file r) r d' ch' = (d'\<lparr>UsedBlocks := u\<rparr>, ch'')"
      and hs: "\<forall>h\<in>set ch''. hole_safe d' h"
  proof (cases "run_file r = None")
    case True then show ?thesis using that [of "UsedBlocks d'" ch'] iv(4) by (simp add: flush_run_def)
  next
    case False
    then have r: "1 \<le> run_fileIndx r" "run_fileIndx r < length (files d') - 1" "run_file r = files d' ! run_fileIndx r"
      using iv(3) by (auto simp: run_safe_def)
    have "sectorSize d' = 4096" using iv(2) by (simp add: wf_shape_def)
    then show ?thesis using flush_run_safe [OF iv(3,4) _ r] that by metis
  qed
  have "fullWriteAt F punch buf (4096 * s0) (d, w, ch) = ((int (length buf), None), d'\<lparr>UsedBlocks := u\<rparr>, w', ch'')"
    using s0 f wr c lp fl buf by (simp add: fullWriteAt_def ss go_simps)
  moreover have "advances d (d'\<lparr>UsedBlocks := u\<rparr>)" "wf_disk (avail w') (d'\<lparr>UsedBlocks := u\<rparr>)"
    using iv wf write_avail [OF av _ bound] s0 wr
    by (auto simp: advances_def wf_disk_def wf_shape_def vol_size_def)
  moreover have "vol_byte (content w') (alloc w') (d'\<lparr>UsedBlocks := u\<rparr>) p =
      overwrite (vol_byte (content w) (alloc w) d) (4096 * s0) buf p" if "0 \<le> p" "p < vol_size d" for p
    using bytes_after_write [OF wf s0 buf fit f av inv that, of w'] wr by simp
  ultimately show ?thesis using hs by (auto simp: wrote_def all_safe_def)
qed

text \<open>A partial sector: read it, change it in memory and write it back; the count is that of the sector.\<close>

lemma overwrite_within:
  assumes "r + length buf \<le> n"
  shows "overwrite V off (splice r buf (bytes_at V off n)) p = overwrite V (off + int r) buf p"
proof (cases "off \<le> p \<and> p < off + int n")
  case True
  then have "nat (p - off) < n" "V (off + int (nat (p - off))) = V p" by auto
  then show ?thesis using True assms
    by (auto simp: overwrite_def nth_splice nat_less_iff le_nat_iff intro!: arg_cong [of _ _ "nth buf"])
qed (use assms in \<open>auto simp: overwrite_def\<close>)

lemma readModifyWrite_ok:
  assumes wf: "wf_disk (avail w) d" and q: "0 \<le> q" "q < int (length (location d))" and r: "r < 4096"
    and n: "0 < length buf" "length buf \<le> 4096 - r" and safe: "all_safe (d, w, ch)"
  shows "\<exists>v'. readModifyWrite F punch buf (4096 * q + int r) (d, w, ch) = ((4096, None), v') \<and>
      wrote content alloc avail (d, w, ch) (4096 * q + int r) buf v'"
proof -
  let ?V = "vol_byte (content w) (alloc w) d" and ?rb = "replicate (nat (sectorSize d)) 0 :: byte list"
  have ss: "sectorSize d = 4096" using wf by (simp add: wf_disk_def wf_shape_def)
  obtain d1 where f1: "fullReadAt F ?rb (4096 * q) d w = ((4096, None), bytes_at ?V (4096 * q) 4096, d1)"
    and ag: "agrees (alloc w) d d1" and wf1: "wf_disk (avail w) d1"
    using fullReadAt_ok [OF wf q(1), of ?rb 1] q(2) ss by auto
  have ad: "advances d d1" using ag by (rule agrees_advances)
  have safe1: "all_safe (d1, w, ch)" using safe ad hole_safe_advances by (auto simp: all_safe_def)
  let ?b = "splice r buf (bytes_at ?V (4096 * q) 4096)"
  have lb: "length ?b = 1 * 4096" using r n by simp
  have "q + int 1 \<le> int (length (location d1))" using q(2) ad by (simp add: advances_def)
  from fullWriteAt_ok [OF wf1 q(1) lb this safe1, of punch] obtain v' where
    wr: "fullWriteAt F punch ?b (4096 * q) (d1, w, ch) = ((4096, None), v')"
    and w: "wrote content alloc avail (d1, w, ch) (4096 * q) ?b v'" using lb by auto
  have "wrote content alloc avail (d, w, ch) (4096 * q + int r) buf v'"
  proof -
    have "vol_byte (content w) (alloc w) d1 p = ?V p" if "0 \<le> p" "p < vol_size d" for p
      by (rule agrees_vol_byte [OF ag that])
    then have "overwrite (vol_byte (content w) (alloc w) d1) (4096 * q) ?b p = overwrite ?V (4096 * q + int r) buf p"
      if "0 \<le> p" "p < vol_size d" for p
      using overwrite_base [of "vol_byte (content w) (alloc w) d1" p ?V "4096 * q" ?b]
        overwrite_within [of r buf 4096 ?V "4096 * q" p] r n that by simp
    then show ?thesis using w ad agrees_vol_size [OF ag] by (auto simp: wrote_def intro: advances_trans)
  qed
  moreover have "readModifyWrite F punch buf (4096 * q + int r) (d, w, ch) = ((4096, None), v')"
    using n f1 wr q(1) r by (simp add: readModifyWrite_def ss go_simps Let_def mult.commute [of q])
  ultimately show ?thesis by blast
qed

lemma WriteAt_multi:
  assumes wf: "wf_disk (avail w) d" and q: "0 \<le> q" and r: "r < 4096" and e: "e < 4096"
    and n: "length buf = (4096 - r) + k * 4096 + e" "0 < k * 4096 + e" "0 < r + e"
    and fit: "q + 1 + int k + (if e = 0 then 0 else 1) \<le> int (length (location d))"
    and safe: "all_safe (d, w, ch)"
  shows "\<exists>v'. WriteAt F punch buf (4096 * q + int r) (d, w, ch) = ((int (length buf), None), v') \<and>
      wrote content alloc avail (d, w, ch) (4096 * q + int r) buf v'"
proof -
  let ?n = "length buf" and ?off = "4096 * q + int r" and ?v = "(d, w, ch)"
  have ss: "sectorSize d = 4096" using wf by (simp add: wf_disk_def wf_shape_def)
  note sm = request_smod [OF q r e n(1)] and sl = request_slices [OF r n(1) refl]
  let ?pre = "take (4096 - r) buf" and ?mid = "take (k * 4096) (drop (4096 - r) buf)" and ?post = "drop (?n - e) buf"
  have q1: "q < int (length (location d))" using fit by (auto split: if_splits)
  have lp: "0 < length ?pre" "length ?pre \<le> 4096 - r" "length ?pre = 4096 - r" using r n(1) by auto
  obtain d1 w1 ch1 where f1: "readModifyWrite F punch ?pre ?off ?v = ((4096, None), d1, w1, ch1)"
    and wr1: "wrote content alloc avail ?v ?off ?pre (d1, w1, ch1)"
    using readModifyWrite_ok [OF wf q q1 r lp(1,2) safe, of punch] by (metis prod_cases3)
  note wf1 = wrote_wf [OF wr1]
  have lm: "length ?mid = k * 4096" using n(1) by simp
  have "q + 1 + int k \<le> int (length (location d1))" using fit wf1 by (auto split: if_splits)
  then obtain d2 w2 ch2 where f2: "fullWriteAt F punch ?mid (4096 * (q + 1)) (d1, w1, ch1) = ((int (length ?mid), None), d2, w2, ch2)"
    and wr2: "wrote content alloc avail (d1, w1, ch1) (4096 * (q + 1)) ?mid (d2, w2, ch2)"
    using fullWriteAt_ok [of w1 d1 "q + 1" ?mid k ch1 punch] wf1 q lm by (metis add_nonneg_nonneg prod_cases3 zero_le_one)
  note wf2 = wrote_wf [OF wr2]
  have le: "length ?post = e" using n(1) by simp
  obtain c v3 where f3: "readModifyWrite F punch ?post (4096 * (q + 1 + int k)) (d2, w2, ch2) = ((c, None), v3)"
    and wr3: "wrote content alloc avail (d2, w2, ch2) (4096 * (q + 1 + int k)) ?post v3"
  proof (cases "e = 0")
    case True
    then show ?thesis using that le wf2 wrote_Nil [of avail w2 d2 ch2] by (simp add: readModifyWrite_def)
  next
    case False
    then have "q + 1 + int k < int (length (location d2))" using fit wf1 wf2 by simp
    moreover have "0 < length ?post" "length ?post \<le> 4096 - 0" "0 \<le> q + 1 + int k" using le e False q by simp_all
    ultimately show ?thesis
      using readModifyWrite_ok [of w2 d2 "q + 1 + int k" 0 ?post ch2 punch] wf2 that by fastforce
  qed
  have o1: "?off + int (length ?pre) = 4096 * (q + 1)"
    and o2: "4096 * (q + 1) + int (length ?mid) = 4096 * (q + 1 + int k)" using lp(3) lm r by simp_all
  have "wrote content alloc avail ?v ?off (?pre @ ?mid @ ?post) v3"
    by (rule wrote_append [OF wr1], unfold o1, rule wrote_append [OF wr2], unfold o2, rule wr3)
  moreover have "?pre @ ?mid @ ?post = buf"
    using n(1) append_take_drop_id [of "k * 4096" "drop (4096 - r) buf"] by (simp add: add.commute)
  moreover have "WriteAt F punch buf ?off ?v = ((int ?n, None), v3)"
  proof -
    have "\<not> int ?n \<le> 4096 - int r" "buf \<noteq> []" using n r by auto
    then show ?thesis using f1 f2 f3 n(3) sl by (auto simp: WriteAt_def ss Let_def sm)
  qed
  ultimately show ?thesis by auto
qed

text \<open>Every write inside the volume succeeds and is an overwrite of its bytes.\<close>

lemma WriteAt_ok:
  assumes wf: "wf_disk (avail w) d" and off: "0 \<le> off" and fit: "off + int (length buf) \<le> vol_size d"
    and safe: "all_safe (d, w, ch)"
  shows "\<exists>v'. WriteAt F punch buf off (d, w, ch) = ((write_count off (length buf), None), v') \<and>
      wrote content alloc avail (d, w, ch) off buf v'"
proof (cases "buf = []")
  case True then show ?thesis using wf safe wrote_Nil [of avail w d ch] by (simp add: WriteAt_def write_count_def)
next
  case False
  then have n: "0 < length buf" by simp
  have ss: "sectorSize d = 4096" using wf by (simp add: wf_disk_def wf_shape_def)
  show ?thesis
  proof (rule request_split [OF off n fit [unfolded vol_size_def]])
    fix q m assume a: "off = 4096 * q" "0 \<le> q" "length buf = m * 4096" "q + int m \<le> int (length (location d))"
    then have "write_count off (length buf) = int (length buf)" using n by (auto simp: write_count_def)
    then show ?thesis using fullWriteAt_ok [OF wf a(2-4) safe, of punch] False a by (simp add: WriteAt_def ss go_simps)
  next
    fix q r assume o: "off = 4096 * q + int r" and a: "0 \<le> q" "q < int (length (location d))" "r < 4096"
      and m: "length buf \<le> 4096 - r" "length buf < 4096"
    have "off mod 4096 = int r" using o a(3) by simp
    then have c: "write_count off (length buf) = 4096" using n m a(3) by (simp add: write_count_def)
    have "(int (length buf) + (4096 * q + int r)) smod 4096 \<noteq> 0 \<or> (4096 * q + int r) smod 4096 \<noteq> 0"
    proof (cases "r = 0")
      case True
      then have "(int (length buf) + (4096 * q + int r)) smod 4096 = int (length buf)"
        using a(1) m by (simp add: smod_nonneg mod_pos_pos_trivial)
      then show ?thesis using n by simp
    qed (use a in \<open>simp add: go_simps\<close>)
    moreover have "(4096 * q + int r) smod 4096 = int r" "int (length buf) \<le> 4096 - int r"
      using a m by (auto simp: go_simps)
    ultimately have "WriteAt F punch buf off (d, w, ch) = readModifyWrite F punch buf off (d, w, ch)"
      unfolding o using False by (auto simp: WriteAt_def ss Let_def)
    then show ?thesis using readModifyWrite_ok [OF wf a n m(1) safe, of punch] c o by simp
  next
    fix q r k e assume o: "off = 4096 * q + int r" and a: "0 \<le> q" "r < 4096" "e < 4096"
      "length buf = 4096 - r + k * 4096 + e" "0 < k * 4096 + e" "0 < r + e"
      "q + 1 + int k + (if e = 0 then 0 else 1) \<le> int (length (location d))"
    have "off mod 4096 = int r" using o a(2) by simp
    then have "write_count off (length buf) = int (length buf)" using a(2,4,5) by (auto simp: write_count_def)
    then show ?thesis unfolding o using WriteAt_multi [OF wf a safe, of punch] by simp
  qed
qed

end

end
