(* ===== verification/Preload.thy ===== *)
theory Preload
  imports DiffDisk
begin

text \<open>
  The rest of the replica's data plane: the goroutine that punches holes and its channel, the extent
  generator (\<open>replica/extents.go\<close>) and \<open>preload\<close> (\<open>replica/backup.go\<close>), which builds the map from
  sectors to files when a replica is opened.
\<close>

section \<open>The goroutine that punches holes\<close>

text \<open>
  \<open>HoleChannelOps\<close> of \<open>types/types.go\<close>; \<open>NoDrain\<close> is the variable's zero value.  The state of the
  goroutine is the flag and the channel.
\<close>

datatype holeChannelOps = NoDrain | DrainStart | DrainDone

definition hole0 :: "'f hole" where
  "hole0 = \<lparr>hole_f = None, hole_offset = 0, hole_len = 0\<rparr>"

text \<open>\<open>holeDrainer\<close> up to the point where it waits for \<open>DrainDone\<close>.\<close>

definition holeDrainer :: "holeChannelOps \<times> 'f hole list \<Rightarrow> holeChannelOps \<times> 'f hole list" where
  "holeDrainer st = (case st of (_, ch) \<Rightarrow> (DrainStart, ch @ [hole0]))"

fun drainHoleCreatorChan :: "'f hole list \<Rightarrow> 'f hole list" where
  "drainHoleCreatorChan [] = []"
| "drainHoleCreatorChan (h # ch) = drainHoleCreatorChan ch"

text \<open>The \<open>retry\<close> loop of \<open>CreateHoles\<close>, with the number of attempts left.\<close>

fun punch_retry :: "('w, 'f) file_ops \<Rightarrow> 'f \<Rightarrow> int \<Rightarrow> int \<Rightarrow> nat \<Rightarrow> 'w \<Rightarrow> error option \<times> 'w" where
  "punch_retry F f offset len 0 w = (Some (Fatal ''Error Creating holes''), w)"
| "punch_retry F f offset len (Suc n) w =
     (case fPunch F f offset len w of
        (None, w') \<Rightarrow> (None, w')
      | (Some e, w') \<Rightarrow> punch_retry F f offset len n w')"

text \<open>One turn of the loop of \<open>CreateHoles\<close>; with an empty channel it waits.\<close>

definition CreateHoles ::
  "('w, 'f) file_ops \<Rightarrow> holeChannelOps \<times> 'f hole list \<Rightarrow> 'w \<Rightarrow>
   error option \<times> (holeChannelOps \<times> 'f hole list) \<times> 'w" where
  "CreateHoles F st w =
     (case st of
        (ops, []) \<Rightarrow> (None, st, w)
      | (ops, hole # ch) \<Rightarrow>
          if ops = DrainStart then (None, (DrainDone, drainHoleCreatorChan ch), w)
          else if hole_f hole = None \<and> hole_offset hole = 0 \<and> hole_len hole = 0 then (None, (ops, ch), w)
          else case hole_f hole of
            None \<Rightarrow> (Some (Panic ''nil file''), (ops, ch), w)
          | Some f \<Rightarrow>
              (case punch_retry F f (hole_offset hole) (hole_len hole) 5 w of
                 (err, w') \<Rightarrow> (err, (ops, ch), w')))"

definition shouldCreateHoles :: "bool \<Rightarrow> bool" where
  "shouldCreateHoles ShouldPunchHoles = (if ShouldPunchHoles then True else False)"

section \<open>Extents\<close>

text \<open>
  \<open>findExtents\<close>: the sectors that the generator sends, and its error.  The sectors of one extent; the
  extents of one call, with the next \<open>start\<close> and whether the last extent of the file was seen; the
  loop, whose number of turns is bounded by fuel (\<open>None\<close> when it is spent).
\<close>

definition extent_sectors :: "int \<Rightarrow> extent \<Rightarrow> int list" where
  "extent_sectors ss e =
     map (\<lambda>k. (Logical e + int k * ss) sdiv ss) [0..<nat ((Length e + ss - 1) div ss)]"

fun emit_extents :: "int \<Rightarrow> int \<Rightarrow> extent list \<Rightarrow> int list \<times> int \<times> bool" where
  "emit_extents ss start [] = ([], start, False)"
| "emit_extents ss start (e # es) =
     (if LastFlag e then (extent_sectors ss e, Logical e + Length e, True)
      else (case emit_extents ss (Logical e + Length e) es of
              (sectors, start', fin) \<Rightarrow> (extent_sectors ss e @ sectors, start', fin)))"

fun findExtents_loop ::
  "('w, 'f) file_ops \<Rightarrow> 'f \<Rightarrow> int \<Rightarrow> int \<Rightarrow> 'w \<Rightarrow> nat \<Rightarrow> int \<Rightarrow> (int list \<times> error option) option" where
  "findExtents_loop F f ss endp w 0 start = None"
| "findExtents_loop F f ss endp w (Suc n) start =
     (case fFiemap F f start (u64 (endp - start)) 1024 w of
        (_, Some e) \<Rightarrow> Some ([], Some e)
      | (es, None) \<Rightarrow>
          if es = [] then Some ([], None)
          else (case emit_extents ss start es of
                  (sectors, start', fin) \<Rightarrow>
                    if fin then Some (sectors, None)
                    else map_option (\<lambda>(rest, e). (sectors @ rest, e)) (findExtents_loop F f ss endp w n start')))"

definition findExtents ::
  "('w, 'f) file_ops \<Rightarrow> 'f diffDisk \<Rightarrow> 'f \<Rightarrow> 'w \<Rightarrow> nat \<Rightarrow> (int list \<times> error option) option" where
  "findExtents F d f w fuel =
     (if fFd F f = 0 then Some ([], None)
      else findExtents_loop F f (sectorSize d) (int (length (location d)) * sectorSize d) w fuel 0)"

section \<open>Preload\<close>

text \<open>
  The loop variables \<open>file\<close>, \<open>fileIndx\<close>, \<open>length\<close> and \<open>lOffset\<close> are a \<open>run\<close>; \<open>usi\<close> is
  \<open>userCreatedSnapIndx\<close>, \<open>punch\<close> is \<open>shouldCreateHoles()\<close>.
\<close>

definition preload_flush :: "bool \<Rightarrow> nat \<Rightarrow> 'f run \<Rightarrow> 'f diffDisk \<Rightarrow> 'f hole list \<Rightarrow> 'f diffDisk \<times> 'f hole list" where
  "preload_flush punch usi r d ch =
     (if run_file r \<noteq> None \<and> run_fileIndx r > usi \<and> punch then
        (d\<lparr>UsedBlocks := UsedBlocks d - run_length r\<rparr>,
         sendToCreateHole (run_file r) (run_lOffset r * sectorSize d) (run_length r * sectorSize d) ch)
      else (d, ch))"

definition preload_step ::
  "bool \<Rightarrow> nat \<Rightarrow> nat \<Rightarrow> int \<Rightarrow> 'f diffDisk \<times> 'f run \<times> 'f hole list \<Rightarrow> 'f diffDisk \<times> 'f run \<times> 'f hole list" where
  "preload_step punch usi i offset st =
     (case st of (d, r, ch) \<Rightarrow>
      let val = location d ! nat offset in
      let (d1, r1, ch1) =
        (if val \<noteq> 0 then
           (if files d ! val \<noteq> run_file r \<or> offset \<noteq> run_lOffset r + run_length r then
              (case preload_flush punch usi r d ch of (d', ch') \<Rightarrow>
                (d', \<lparr>run_file = files d ! val, run_fileIndx = val, run_length = 1, run_lOffset = offset\<rparr>, ch'))
            else (d, r\<lparr>run_length := run_length r + 1\<rparr>, ch))
         else (d\<lparr>UsedLogicalBlocks := UsedLogicalBlocks d + 1\<rparr>, r, ch))
      in (d1\<lparr>location := (location d1)[nat offset := u16 (int i)], UsedBlocks := UsedBlocks d1 + 1\<rparr>, r1, ch1))"

fun preload_sectors ::
  "bool \<Rightarrow> nat \<Rightarrow> nat \<Rightarrow> int list \<Rightarrow> 'f diffDisk \<times> 'f run \<times> 'f hole list \<Rightarrow>
   error option \<times> 'f diffDisk \<times> 'f run \<times> 'f hole list" where
  "preload_sectors punch usi i [] st = (None, st)"
| "preload_sectors punch usi i (offset # os) st =
     (case st of (d, r, ch) \<Rightarrow>
      if 0 \<le> offset \<and> nat offset < length (location d) \<and> location d ! nat offset < length (files d)
      then preload_sectors punch usi i os (preload_step punch usi i offset st)
      else (Some (Panic ''index out of range''), st))"

text \<open>The loop over the files; \<open>length\<close> and \<open>lOffset\<close> keep their values from one file to the next.\<close>

fun preload_files ::
  "('w, 'f) file_ops \<Rightarrow> bool \<Rightarrow> 'w \<Rightarrow> nat \<Rightarrow> nat \<Rightarrow> nat \<Rightarrow> 'f option list \<Rightarrow> 'f diffDisk \<times> 'f run \<times> 'f hole list \<Rightarrow>
   (error option \<times> 'f diffDisk \<times> 'f hole list) option" where
  "preload_files F punch w fuel i usi [] st = (case st of (d, r, ch) \<Rightarrow> Some (None, d, ch))"
| "preload_files F punch w fuel i usi (fo # fs) st =
     (case st of (d, r, ch) \<Rightarrow>
      if length (UserCreatedSnap d) \<le> i then Some (Some (Panic ''index out of range''), d, ch)
      else let usi' = (if UserCreatedSnap d ! i then u16 (int i) else usi) in
        (case fo of
           None \<Rightarrow> Some (Some (Panic ''nil file''), d, ch)
         | Some f \<Rightarrow>
             (case findExtents F d f w fuel of
                None \<Rightarrow> None
              | Some (sectors, gerr) \<Rightarrow>
                  (case preload_sectors punch usi' i sectors st of
                     (Some e, d', r', ch') \<Rightarrow> Some (Some e, d', ch')
                   | (None, d', r', ch') \<Rightarrow>
                       (case preload_flush punch usi' r' d' ch' of (d'', ch'') \<Rightarrow>
                          (case gerr of
                             Some e \<Rightarrow> Some (Some e, d'', ch'')
                           | None \<Rightarrow>
                               preload_files F punch w fuel (i + 1) usi' fs
                                 (d'', r'\<lparr>run_file := None, run_fileIndx := 0\<rparr>, ch'')))))))"

definition preload ::
  "('w, 'f) file_ops \<Rightarrow> bool \<Rightarrow> nat \<Rightarrow> ('w, 'f) vol \<Rightarrow> (error option \<times> ('w, 'f) vol) option" where
  "preload F punch fuel v =
     (case v of (d, w, ch) \<Rightarrow>
      map_option (\<lambda>(e, d', ch'). (e, d', w, ch')) (preload_files F punch w fuel 1 0 (tl (files d)) (d, run0, ch)))"

end
