(* ===== verification/VolumeTrace.thy ===== *)
theory VolumeTrace
  imports DiffDiskWrite Preload
begin

text \<open>
  Reads, writes and the goroutine that punches holes, interleaved in any order, against the array of
  bytes they implement.
\<close>

section \<open>Requests and outcomes\<close>

datatype request = ReqRead nat int | ReqWrite "byte list" int | ReqPunch

datatype outcome = GotRead int "error option" "byte list" | GotWrite int "error option" | GotPunch "error option"

type_synonym ('w, 'f) io_state = "holeChannelOps \<times> ('w, 'f) vol"

fun io_step :: "('w, 'f) file_ops \<Rightarrow> bool \<Rightarrow> request \<Rightarrow> ('w, 'f) io_state \<Rightarrow> outcome \<times> ('w, 'f) io_state" where
  "io_step F punch (ReqRead n off) (ops, d, w, ch) =
     (case ReadAt F (replicate n 0) off d w of ((c, err), buf, d') \<Rightarrow> (GotRead c err buf, ops, d', w, ch))"
| "io_step F punch (ReqWrite bs off) (ops, d, w, ch) =
     (case WriteAt F punch bs off (d, w, ch) of ((c, err), v') \<Rightarrow> (GotWrite c err, ops, v'))"
| "io_step F punch ReqPunch (ops, d, w, ch) =
     (case CreateHoles F (ops, ch) w of (err, (ops', ch'), w') \<Rightarrow> (GotPunch err, ops', d, w', ch'))"

fun io_run :: "('w, 'f) file_ops \<Rightarrow> bool \<Rightarrow> request list \<Rightarrow> ('w, 'f) io_state \<Rightarrow> outcome list \<times> ('w, 'f) io_state" where
  "io_run F punch [] s = ([], s)"
| "io_run F punch (r # rs) s =
     (case io_step F punch r s of (out, s') \<Rightarrow> case io_run F punch rs s' of (outs, s'') \<Rightarrow> (out # outs, s''))"

text \<open>The array of bytes: what a client may expect.\<close>

fun spec_step :: "request \<Rightarrow> (int \<Rightarrow> byte) \<Rightarrow> outcome \<times> (int \<Rightarrow> byte)" where
  "spec_step (ReqRead n off) V = (GotRead (int n) None (bytes_at V off n), V)"
| "spec_step (ReqWrite bs off) V = (GotWrite (write_count off (length bs)) None, overwrite V off bs)"
| "spec_step ReqPunch V = (GotPunch None, V)"

fun spec_run :: "request list \<Rightarrow> (int \<Rightarrow> byte) \<Rightarrow> outcome list \<times> (int \<Rightarrow> byte)" where
  "spec_run [] V = ([], V)"
| "spec_run (r # rs) V =
     (case spec_step r V of (out, V') \<Rightarrow> case spec_run rs V' of (outs, V'') \<Rightarrow> (out # outs, V''))"

fun req_in :: "int \<Rightarrow> request \<Rightarrow> bool" where
  "req_in sz (ReqRead n off) \<longleftrightarrow> 0 \<le> off \<and> off + int n \<le> sz"
| "req_in sz (ReqWrite bs off) \<longleftrightarrow> 0 \<le> off \<and> off + int (length bs) \<le> sz"
| "req_in sz ReqPunch \<longleftrightarrow> True"

section \<open>Punching a safe hole\<close>

text \<open>What \<open>fallocate\<close> promises for a hole of whole sectors: nothing changes outside of it.\<close>

locale punch_file = block_file F content alloc avail
  for F :: "('w, 'f) file_ops" and content alloc avail +
  assumes punch_ok:
    "\<And>w f n off len. avail w f n \<Longrightarrow> 0 \<le> off \<Longrightarrow> 0 < len \<Longrightarrow> off + len \<le> n \<Longrightarrow>
       fst (fPunch F f off len w) = None"
  and punch_content:
    "\<And>w f off len g p. g \<noteq> f \<or> \<not> (off \<le> p \<and> p < off + len) \<Longrightarrow>
       content (snd (fPunch F f off len w)) g p = content w g p"
  and punch_alloc:
    "\<And>w f off len g s. g \<noteq> f \<or> \<not> (off \<le> s * 4096 \<and> s * 4096 < off + len) \<Longrightarrow> 4096 dvd off \<Longrightarrow> 4096 dvd len \<Longrightarrow>
       alloc (snd (fPunch F f off len w)) g s = alloc w g s"
  and punch_avail:
    "\<And>w f off len g n. avail w g n \<Longrightarrow> avail (snd (fPunch F f off len w)) g n"
begin

lemma punch_safe_byte:
  assumes wf: "wf_disk (avail w) d" and safe: "hole_safe d h" and f: "hole_f h = Some f"
    and p: "0 \<le> p" "p < vol_size d" and w': "w' = snd (fPunch F f (hole_offset h) (hole_len h) w)"
  shows "vol_byte (content w') (alloc w') d p = vol_byte (content w) (alloc w) d p"
proof -
  let ?s = "p div 4096"
  have s: "0 \<le> ?s" "?s < int (length (location d))" using sector_in_range p by blast+
  have sh: "wf_shape d" using wf by (simp add: wf_disk_def)
  obtain i a m where h: "1 \<le> i" "i < length (files d)" "Some f = files d ! i"
      "hole_offset h = a * 4096" "hole_len h = m * 4096" "0 \<le> a" "1 \<le> m" "a + m \<le> int (length (location d))"
    and lt: "\<And>t. a \<le> t \<Longrightarrow> t < a + m \<Longrightarrow> i < location d ! nat t"
    using safe f unfolding hole_safe_def by metis
  show ?thesis
  proof (cases "a \<le> ?s \<and> ?s < a + m")
    case True
    have lb: "sector_src al d ?s < length (files d) \<and> 1 \<le> sector_src al d ?s" for al
      using sector_src_bounds [OF sh s] by blast
    have "location d ! nat ?s < length (files d)" using sh s by (auto simp: wf_shape_def nat_less_iff)
    then have "length (files d) \<noteq> 2" "location d ! nat ?s \<noteq> 0" using lt [of ?s] True h(1) by auto
    then have src: "sector_src al d ?s = location d ! nat ?s" for al by (simp add: sector_src_def)
    then have "sector_src (alloc w) d ?s \<noteq> i" using lt [of ?s] True by simp
    then have "files d ! sector_src (alloc w) d ?s \<noteq> Some f"
      using lb h sh by (metis nth_eq_iff_index_eq wf_shape_def)
    moreover obtain g where "files d ! sector_src (alloc w) d ?s = Some g"
      using wf_disk_file [OF wf] lb by metis
    ultimately show ?thesis using src w' by (simp add: vol_byte_def punch_content)
  next
    case False
    then have o: "\<not> (hole_offset h \<le> ?s * 4096 \<and> ?s * 4096 < hole_offset h + hole_len h)"
      "\<not> (hole_offset h \<le> p \<and> p < hole_offset h + hole_len h)" using h(4,5) by auto
    have "alloc w' g ?s = alloc w g ?s" for g unfolding w' by (rule punch_alloc) (use o h(4,5) in auto)
    then have "sector_src (alloc w') d ?s = sector_src (alloc w) d ?s"
      using newest_cong [of "alloc w'" ?s "alloc w"] by (simp add: sector_src_def)
    then show ?thesis using o(2) w' by (simp add: vol_byte_def punch_content)
  qed
qed

lemma CreateHoles_ok:
  assumes wf: "wf_disk (avail w) d" and safe: "all_safe (d, w, ch)"
  shows "\<exists>ops' ch' w'. CreateHoles F (ops, ch) w = (None, (ops', ch'), w') \<and> wf_disk (avail w') d \<and>
    all_safe (d, w', ch') \<and>
    (\<forall>p. 0 \<le> p \<and> p < vol_size d \<longrightarrow> vol_byte (content w') (alloc w') d p = vol_byte (content w) (alloc w) d p)"
proof (cases ch)
  case Nil then show ?thesis using wf safe by (simp add: CreateHoles_def)
next
  case (Cons h hs)
  have hs: "hole_safe d h" "\<forall>x\<in>set hs. hole_safe d x" using safe Cons by (auto simp: all_safe_def)
  obtain i s m where h: "1 \<le> i" "i < length (files d)" "hole_f h = files d ! i" "hole_offset h = s * 4096"
      "hole_len h = m * 4096" "0 \<le> s" "1 \<le> m" "s + m \<le> int (length (location d))"
    using hs(1) unfolding hole_safe_def by metis
  obtain f where f: "hole_f h = Some f" and av: "avail w f (vol_size d)" using wf_disk_file [OF wf h(1,2)] h(3) by metis
  let ?p = "fPunch F f (hole_offset h) (hole_len h) w"
  have ok: "fst ?p = None" by (rule punch_ok [OF av]) (use h in \<open>auto simp: vol_size_def\<close>)
  then obtain w' where "?p = (None, w')" by (metis prod.collapse)
  then have pr: "punch_retry F f (hole_offset h) (hole_len h) 5 w = (None, snd ?p)" by (simp add: numeral_eq_Suc)
  have "wf_disk (avail (snd ?p)) d" using wf by (simp add: wf_disk_def punch_avail)
  moreover have "drainHoleCreatorChan xs = []" for xs :: "'f hole list" by (induction xs) auto
  ultimately show ?thesis
    using Cons f pr hs wf punch_safe_byte [OF wf hs(1) f _ _ refl]
    by (cases "ops = DrainStart") (auto simp: CreateHoles_def all_safe_def)
qed

text \<open>The simulation relation, and one step.\<close>

definition io_rel :: "int \<Rightarrow> ('w, 'f) io_state \<Rightarrow> (int \<Rightarrow> byte) \<Rightarrow> bool" where
  "io_rel sz = (\<lambda>(ops, d, w, ch) V.
     wf_disk (avail w) d \<and> all_safe (d, w, ch) \<and> vol_size d = sz \<and>
     (\<forall>p. 0 \<le> p \<and> p < sz \<longrightarrow> vol_byte (content w) (alloc w) d p = V p))"

lemma io_step_sim:
  assumes rel: "io_rel sz s V" and rq: "req_in sz r"
  shows "\<exists>s'. io_step F punch r s = (fst (spec_step r V), s') \<and> io_rel sz s' (snd (spec_step r V))"
proof -
  obtain ops d w ch where s: "s = (ops, d, w, ch)" by (cases s) auto
  have r: "wf_disk (avail w) d" "all_safe (d, w, ch)" "vol_size d = sz"
      "\<And>p. 0 \<le> p \<Longrightarrow> p < sz \<Longrightarrow> vol_byte (content w) (alloc w) d p = V p"
    using rel by (auto simp: io_rel_def s)
  show ?thesis
  proof (cases r)
    case (ReqRead n off)
    obtain d' where rd: "ReadAt F (replicate n 0) off d w =
        ((int n, None), bytes_at (vol_byte (content w) (alloc w) d) off n, d')"
      and ag: "agrees (alloc w) d d'" and wf': "wf_disk (avail w) d'"
      using ReadAt_ok [OF r(1), of off "replicate n 0"] rq r(3) ReqRead by auto
    have "bytes_at (vol_byte (content w) (alloc w) d) off n = bytes_at V off n"
      by (rule bytes_at_cong, rule r(4)) (use rq ReqRead in auto)
    moreover have "all_safe (d', w, ch)"
      using r(2) hole_safe_advances agrees_advances [OF ag] by (auto simp: all_safe_def)
    ultimately show ?thesis
      using rd wf' r(3,4) agrees_vol_byte [OF ag] agrees_vol_size [OF ag] by (simp add: ReqRead s io_rel_def)
  next
    case (ReqWrite bs off)
    obtain d' w' ch' where wr: "WriteAt F punch bs off (d, w, ch) = ((write_count off (length bs), None), d', w', ch')"
      and w: "wrote content alloc avail (d, w, ch) off bs (d', w', ch')"
      using WriteAt_ok [OF r(1) _ _ r(2), of off bs punch] rq r(3) ReqWrite by (metis prod_cases3 req_in.simps(2))
    then show ?thesis
      using r(3,4) vol_size_advances overwrite_base [of "vol_byte (content w) (alloc w) d" _ V]
      by (auto simp: ReqWrite s io_rel_def wrote_def)
  next
    case ReqPunch
    then show ?thesis using CreateHoles_ok [OF r(1,2), of ops] r(3,4) by (auto simp: s io_rel_def)
  qed
qed

lemma io_run_sim:
  "io_rel sz s V \<Longrightarrow> \<forall>r\<in>set rs. req_in sz r \<Longrightarrow>
    \<exists>s'. io_run F punch rs s = (fst (spec_run rs V), s') \<and> io_rel sz s' (snd (spec_run rs V))"
proof (induction rs arbitrary: s V)
  case (Cons r rs)
  then obtain s1 where s1: "io_step F punch r s = (fst (spec_step r V), s1)" "io_rel sz s1 (snd (spec_step r V))"
    using io_step_sim by (metis list.set_intros(1))
  with Cons obtain s2 where "io_run F punch rs s1 = (fst (spec_run rs (snd (spec_step r V))), s2)"
    "io_rel sz s2 (snd (spec_run rs (snd (spec_step r V))))" by (meson list.set_intros(2))
  with s1 show ?case by (auto split: prod.splits)
qed simp

end

end
