(* ===== verification/SparseFile.thy ===== *)
theory SparseFile
  imports VolumeTrace
begin

text \<open>
  Sparse files as a value: the bytes, the sectors that have an extent, the length.  They satisfy the
  laws that the data plane relies on, which shows that the laws can hold.
\<close>

record sfile =
  sdata :: "int \<Rightarrow> byte"
  salloc :: "int \<Rightarrow> bool"
  slen :: int

type_synonym sworld = "nat \<Rightarrow> sfile"

definition sp_content :: "sworld \<Rightarrow> nat \<Rightarrow> int \<Rightarrow> byte" where
  "sp_content w f p = sdata (w f) p"

definition sp_alloc :: "sworld \<Rightarrow> nat \<Rightarrow> int \<Rightarrow> bool" where
  "sp_alloc w f s \<longleftrightarrow> 0 \<le> s \<and> s < slen (w f) div 4096 \<and> salloc (w f) s"

definition sp_avail :: "sworld \<Rightarrow> nat \<Rightarrow> int \<Rightarrow> bool" where
  "sp_avail w f n \<longleftrightarrow> n \<le> slen (w f)"

text \<open>One extent for each sector.\<close>

fun mark_last :: "extent list \<Rightarrow> extent list" where
  "mark_last [] = []"
| "mark_last [e] = [e\<lparr>LastFlag := True\<rparr>]"
| "mark_last (e # e' # es) = e # mark_last (e' # es)"

definition sp_sectors :: "sworld \<Rightarrow> nat \<Rightarrow> int list" where
  "sp_sectors w f = filter (salloc (w f)) (map int [0..<nat (slen (w f) div 4096)])"

definition sp_emap :: "sworld \<Rightarrow> nat \<Rightarrow> extent list" where
  "sp_emap w f = mark_last (map (\<lambda>s. \<lparr>Logical = s * 4096, Length = 4096, LastFlag = False\<rparr>) (sp_sectors w f))"

definition sp_ops :: "(sworld, nat) file_ops" where
  "sp_ops = \<lparr>
     fFd = (\<lambda>f. f + 3),
     fReadAt = (\<lambda>f n off w.
       let m = min n (nat (slen (w f) - off)) in
       (map (\<lambda>i. sdata (w f) (off + int i)) [0..<m], if m < n then Some EOF else None)),
     fWriteAt = (\<lambda>f bs off w.
       ((length bs, None),
        w(f := (w f)\<lparr>sdata := overwrite (sdata (w f)) off bs,
                    salloc := (\<lambda>s. salloc (w f) s \<or> (s * 4096 < off + int (length bs) \<and> off < s * 4096 + 4096)),
                    slen := max (slen (w f)) (off + int (length bs))\<rparr>))),
     fClose = (\<lambda>f w. (None, w)),
     fFsync = (\<lambda>f w. (None, w)),
     fPunch = (\<lambda>f off n w.
       (None,
        w(f := (w f)\<lparr>sdata := (\<lambda>p. if off \<le> p \<and> p < off + n then 0 else sdata (w f) p),
                    salloc := (\<lambda>s. salloc (w f) s \<and> \<not> (off \<le> s * 4096 \<and> s * 4096 + 4096 \<le> off + n))\<rparr>))),
     fFiemap = (\<lambda>f start n count w.
       (take count (filter (\<lambda>e. start < Logical e + Length e \<and> Logical e < start + n) (sp_emap w f)), None))\<rparr>"

lemma set_mark_last: "(\<exists>e\<in>set (mark_last es). P (Logical e) (Length e)) \<longleftrightarrow> (\<exists>e\<in>set es. P (Logical e) (Length e))"
  by (induction es rule: mark_last.induct) auto

lemma set_sp_sectors: "s \<in> set (sp_sectors w f) \<longleftrightarrow> sp_alloc w f s"
proof -
  have "s \<in> int ` {0..<nat k} \<longleftrightarrow> 0 \<le> s \<and> s < k" for k
    by (auto simp: image_iff nat_less_iff intro: bexI [of _ "nat s"])
  then show ?thesis by (auto simp: sp_sectors_def sp_alloc_def)
qed

lemma sp_fiemap:
  assumes "0 \<le> s" "s * 4096 + 4096 \<le> slen (w f)"
  shows "filter (\<lambda>e. s * 4096 < Logical e + Length e \<and> Logical e < s * 4096 + 4096) (sp_emap w f) \<noteq> [] \<longleftrightarrow> sp_alloc w f s"
proof -
  have "filter (\<lambda>e. s * 4096 < Logical e + Length e \<and> Logical e < s * 4096 + 4096) (sp_emap w f) \<noteq> [] \<longleftrightarrow>
      (\<exists>e\<in>set (sp_emap w f). s * 4096 < Logical e + Length e \<and> Logical e < s * 4096 + 4096)"
    by (auto simp: filter_empty_conv)
  also have "\<dots> \<longleftrightarrow> (\<exists>t\<in>set (sp_sectors w f). s * 4096 < t * 4096 + 4096 \<and> t * 4096 < s * 4096 + 4096)"
    unfolding sp_emap_def set_mark_last [where P = "\<lambda>l n. s * 4096 < l + n \<and> l < s * 4096 + 4096"] by simp
  also have "\<dots> \<longleftrightarrow> (\<exists>t\<in>set (sp_sectors w f). t = s)" by (intro bex_cong refl) auto
  finally show ?thesis by (simp add: set_sp_sectors)
qed

interpretation sp: block_file sp_ops sp_content sp_alloc sp_avail
proof (unfold_locales, goal_cases)
  case (1 w f n off len)
  then have "min len (nat (slen (w f) - off)) = len" by (simp add: sp_avail_def)
  then show ?case by (simp add: sp_ops_def sp_content_def)
next
  case (4 w f n off bs g s)
  then have "max (slen (w f)) (off + int (length bs)) = slen (w f)" by (simp add: sp_avail_def)
  moreover obtain a m where "off = 4096 * a" "length bs = 4096 * m" using 4 by (auto elim!: dvdE)
  then have "s * 4096 < off + int (length bs) \<and> off < s * 4096 + 4096 \<longleftrightarrow> off \<le> s * 4096 \<and> s * 4096 < off + int (length bs)" by auto
  moreover have "0 \<le> s \<and> s < slen (w f) div 4096" if "off \<le> s * 4096" "s * 4096 < off + int (length bs)"
  proof -
    have "0 \<le> s" "s < a + int m" using that 4 \<open>off = 4096 * a\<close> \<open>length bs = 4096 * m\<close> by linarith+
    moreover have "4096 * (a + int m) \<le> slen (w f)"
      using 4 \<open>off = 4096 * a\<close> \<open>length bs = 4096 * m\<close> by (simp add: sp_avail_def)
    moreover then have "a + int m \<le> slen (w f) div 4096" using zdiv_mono1 [of "4096 * (a + int m)" "slen (w f)" 4096] by simp
    ultimately show ?thesis by simp
  qed
  ultimately show ?case by (auto simp: sp_ops_def sp_alloc_def)
next
  case (6 w f n s)
  then show ?case using sp_fiemap [of s w f] by (auto simp: sp_ops_def sp_avail_def)
qed (auto simp: sp_ops_def sp_content_def sp_avail_def overwrite_def)

interpretation spp: punch_file sp_ops sp_content sp_alloc sp_avail
proof (unfold_locales, goal_cases)
  case (3 w f off len g s)
  then obtain a m where "off = 4096 * a" "len = 4096 * m" by (auto elim!: dvdE)
  then have "s * 4096 + 4096 \<le> off + len" if "s * 4096 < off + len" using that
  proof -
    have "s < a + m" using that \<open>off = 4096 * a\<close> \<open>len = 4096 * m\<close> by linarith
    then show ?thesis using \<open>off = 4096 * a\<close> \<open>len = 4096 * m\<close> by linarith
  qed
  then show ?case using 3 by (auto simp: sp_ops_def sp_alloc_def)
qed (auto simp: sp_ops_def sp_content_def sp_avail_def)

end
