(* ===== verification/Types.thy ===== *)
theory Types
  imports Prelude
begin

text \<open>
  The plain data of \<open>types/types.go\<close> that replicas and the controller exchange.
\<close>

record volUsage =
  vuRevisionCounter :: int
  vuUsedLogicalBlocks :: int
  vuUsedBlocks :: int
  vuSectorSize :: int

record diskInfo =
  diName :: string
  diParent :: string
  diChildren :: "string list"
  diRemoved :: bool
  diUserCreated :: bool
  diCreated :: string
  diSize :: string
  diRevisionCounter :: int

text \<open>\<open>ReplicaInfo\<close>, the answer of a replica to \<open>GetReplica\<close>.\<close>

record replicaInfo =
  riDirty :: bool
  riRebuilding :: bool
  riHead :: string
  riParent :: string
  riSize :: string
  riSectorSize :: int
  riState :: string
  riChain :: "string list"
  riDisks :: "(string \<times> diskInfo) list"
  riRemainSnapshots :: int
  riReplicaMode :: string
  riRevisionCounter :: string
  riUsedLogicalBlocks :: string
  riUsedBlocks :: string
  riCloneStatus :: string
  riCheckpoint :: string

record replicaEntry =
  Address :: string
  Mode :: mode

record regReplica =
  rrAddress :: string
  rrUUID :: string
  rrUpTime :: int
  RevCount :: int
  RepType :: string
  RepState :: string

text \<open>\<open>PrepareRemoveAction\<close> of \<open>replica/replica.go\<close>, a step of the removal of a snapshot.\<close>

datatype removeAction = OpCoalesce | OpRemove | OpReplace | OpOther string

record prepareRemoveAction =
  paAction :: removeAction
  paSource :: string
  paTarget :: string

end
