(* ===== verification/FileSystem.thy ===== *)
theory FileSystem
  imports SparseFile Types
begin

text \<open>
  The directory of a replica as the replica's code sees it through \<open>os\<close>, \<open>syscall\<close> and
  \<open>encoding/json\<close>: names that refer to inodes (a hard link is a second name), the data of the inodes as
  sparse files, and for a file that \<open>encodeToFile\<close> has written, the value it encodes.  An inode whose
  text is not the encoding of a value has \<open>None\<close>; a decoder reports an error for it.

  Every system call may fail: the call with number \<open>tick\<close> fails with the error that \<open>faults\<close> has for
  that number and then has no effect.  A crash is a schedule in which every call fails from some number on.
\<close>

section \<open>Metadata\<close>

text \<open>\<open>disk\<close>, \<open>BackingFile\<close> and \<open>Info\<close> of \<open>replica/replica.go\<close>; a file of the volume is its inode.\<close>

record disk =
  dName :: string
  dParent :: string
  dRemoved :: bool
  dUserCreated :: bool
  dCreated :: string
  dRevisionCounter :: int

record backingFile =
  bfSize :: int
  bfSectorSize :: int
  bfName :: string
  bfDisk :: nat

record info =
  iSize :: int
  iHead :: string
  iDirty :: bool
  iRebuilding :: bool
  iParent :: string
  iSectorSize :: int
  iBackingFileName :: string
  iCloneStatus :: string
  iCheckpoint :: string
  iBackingFile :: "backingFile option"
  iRevisionCounter :: int
  iUUID :: string

definition disk0 :: disk where
  "disk0 = \<lparr>dName = [], dParent = [], dRemoved = False, dUserCreated = False, dCreated = [], dRevisionCounter = 0\<rparr>"

definition info0 :: info where
  "info0 = \<lparr>iSize = 0, iHead = [], iDirty = False, iRebuilding = False, iParent = [], iSectorSize = 0,
     iBackingFileName = [], iCloneStatus = [], iCheckpoint = [], iBackingFile = None, iRevisionCounter = 0, iUUID = []\<rparr>"

datatype meta = MInfo info | MDisk disk

section \<open>The file system\<close>

record fs =
  dirents :: "string \<rightharpoonup> nat"
  ino_data :: sworld
  ino_meta :: "nat \<Rightarrow> meta option"
  next_ino :: nat
  have_dir :: bool
  tick :: nat
  faults :: "nat \<Rightarrow> error option"

definition empty_file :: sfile where
  "empty_file = \<lparr>sdata = (\<lambda>_. 0), salloc = (\<lambda>_. False), slen = 0\<rparr>"

definition sys :: "(fs \<Rightarrow> 'a result \<times> fs) \<Rightarrow> fs \<Rightarrow> 'a result \<times> fs" where
  "sys f w =
     (case faults w (tick w) of
        Some e \<Rightarrow> (Inl e, w\<lparr>tick := tick w + 1\<rparr>)
      | None \<Rightarrow> f (w\<lparr>tick := tick w + 1\<rparr>))"

definition os_Mkdir :: "fs \<Rightarrow> unit result \<times> fs" where
  "os_Mkdir = sys (\<lambda>w. if have_dir w then (Inl (Err ''file exists''), w) else (Inr (), w\<lparr>have_dir := True, dirents := Map.empty\<rparr>))"

definition os_Stat :: "string \<Rightarrow> fs \<Rightarrow> nat result \<times> fs" where
  "os_Stat name = sys (\<lambda>w. case dirents w name of None \<Rightarrow> (Inl ErrNotExist, w) | Some i \<Rightarrow> (Inr i, w))"

definition os_Remove :: "string \<Rightarrow> fs \<Rightarrow> unit result \<times> fs" where
  "os_Remove name = sys (\<lambda>w. case dirents w name of
      None \<Rightarrow> (Inl ErrNotExist, w)
    | Some i \<Rightarrow> (Inr (), w\<lparr>dirents := (dirents w)(name := None)\<rparr>))"

definition os_RemoveAll :: "fs \<Rightarrow> unit result \<times> fs" where
  "os_RemoveAll = sys (\<lambda>w. (Inr (), w\<lparr>dirents := Map.empty, have_dir := False\<rparr>))"

definition os_Link :: "string \<Rightarrow> string \<Rightarrow> fs \<Rightarrow> unit result \<times> fs" where
  "os_Link old new = sys (\<lambda>w. case dirents w old of
      None \<Rightarrow> (Inl ErrNotExist, w)
    | Some i \<Rightarrow>
        if dirents w new \<noteq> None then (Inl (Err ''file exists''), w)
        else (Inr (), w\<lparr>dirents := (dirents w)(new \<mapsto> i)\<rparr>))"

definition os_Rename :: "string \<Rightarrow> string \<Rightarrow> fs \<Rightarrow> unit result \<times> fs" where
  "os_Rename old new = sys (\<lambda>w. case dirents w old of
      None \<Rightarrow> (Inl ErrNotExist, w)
    | Some i \<Rightarrow> (Inr (), w\<lparr>dirents := (dirents w)(old := None, new \<mapsto> i)\<rparr>))"

text \<open>\<open>open\<close> with the flags \<open>O_CREATE\<close> and \<open>O_TRUNC\<close>; the handle is the inode.\<close>

definition os_Open :: "bool \<Rightarrow> bool \<Rightarrow> string \<Rightarrow> fs \<Rightarrow> nat result \<times> fs" where
  "os_Open creat trunc name = sys (\<lambda>w. case dirents w name of
      Some i \<Rightarrow>
        (Inr i, if trunc then w\<lparr>ino_data := (ino_data w)(i := empty_file), ino_meta := (ino_meta w)(i := None)\<rparr> else w)
    | None \<Rightarrow>
        if creat \<and> have_dir w then
          (Inr (next_ino w),
           w\<lparr>dirents := (dirents w)(name \<mapsto> next_ino w), next_ino := next_ino w + 1,
             ino_data := (ino_data w)(next_ino w := empty_file), ino_meta := (ino_meta w)(next_ino w := None)\<rparr>)
        else (Inl ErrNotExist, w))"

text \<open>\<open>json.NewEncoder(f).Encode\<close>, \<open>json.NewDecoder(f).Decode\<close>, \<open>Close\<close>.\<close>

definition json_Encode :: "nat \<Rightarrow> meta \<Rightarrow> fs \<Rightarrow> unit result \<times> fs" where
  "json_Encode i m = sys (\<lambda>w. (Inr (), w\<lparr>ino_meta := (ino_meta w)(i \<mapsto> m)\<rparr>))"

definition json_Decode :: "nat \<Rightarrow> fs \<Rightarrow> meta result \<times> fs" where
  "json_Decode i = sys (\<lambda>w. case ino_meta w i of None \<Rightarrow> (Inl (Err ''invalid character''), w) | Some m \<Rightarrow> (Inr m, w))"

definition os_Close :: "fs \<Rightarrow> unit result \<times> fs" where
  "os_Close = sys (\<lambda>w. (Inr (), w))"

definition os_ReadDir :: "fs \<Rightarrow> (string \<rightharpoonup> nat) result \<times> fs" where
  "os_ReadDir = sys (\<lambda>w. if have_dir w then (Inr (dirents w), w) else (Inl ErrNotExist, w))"

definition resize_file :: "int \<Rightarrow> sfile \<Rightarrow> sfile" where
  "resize_file n f =
     \<lparr>sdata = (\<lambda>p. if p < slen f \<and> p < n then sdata f p else 0),
      salloc = (\<lambda>s. salloc f s \<and> s * 4096 < n), slen = n\<rparr>"

definition os_Truncate :: "string \<Rightarrow> int \<Rightarrow> fs \<Rightarrow> unit result \<times> fs" where
  "os_Truncate name n = sys (\<lambda>w. case dirents w name of
      None \<Rightarrow> (Inl ErrNotExist, w)
    | Some i \<Rightarrow>
        if n < 0 then (Inl (Err ''invalid argument''), w)
        else (Inr (), w\<lparr>ino_data := (ino_data w)(i := resize_file n (ino_data w i))\<rparr>))"

text \<open>\<open>util.SyncDir\<close>: open, sync and close the directory.\<close>

definition fs_SyncDir :: "fs \<Rightarrow> unit result \<times> fs" where
  "fs_SyncDir w =
     (case sys (\<lambda>w. if have_dir w then (Inr (), w) else (Inl ErrNotExist, w)) w of
        (Inl e, w1) \<Rightarrow> (Inl e, w1)
      | (Inr (), w1) \<Rightarrow>
          (case sys (\<lambda>w. (Inr (), w)) w1 of (r2, w2) \<Rightarrow>
           case os_Close w2 of (r3, w3) \<Rightarrow> (case r2 of Inl e \<Rightarrow> (Inl e, w3) | Inr () \<Rightarrow> (r3, w3))))"

text \<open>\<open>util.GetFileActualSize\<close>: the space of the allocated sectors, or \<open>-1\<close>.\<close>

definition GetFileActualSize :: "string \<Rightarrow> fs \<Rightarrow> int \<times> fs" where
  "GetFileActualSize name w =
     (case os_Stat name w of
        (Inl e, w1) \<Rightarrow> (-1, w1)
      | (Inr i, w1) \<Rightarrow> (4096 * int (length (sp_sectors (ino_data w1) i)), w1))"

end
