(* ===== verification/Strconv.thy ===== *)
theory Strconv
  imports Prelude
begin

text \<open>
  Go's decimal conversions of 64-bit integers, as the sources use them: \<open>strconv.ParseInt(s, 10, 64)\<close>
  and \<open>strconv.FormatInt(i, 10)\<close>, with the round trip between the two.
\<close>

definition digit_val :: "char \<Rightarrow> int option" where
  "digit_val c = (let n = of_char c :: int in if 48 \<le> n \<and> n \<le> 57 then Some (n - 48) else None)"

definition digit_char :: "nat \<Rightarrow> char" where
  "digit_char n = char_of (int n + 48)"

fun parse_digits :: "string \<Rightarrow> int \<Rightarrow> int option" where
  "parse_digits [] acc = Some acc"
| "parse_digits (c # cs) acc =
     (case digit_val c of None \<Rightarrow> None | Some v \<Rightarrow> parse_digits cs (acc * 10 + v))"

definition ParseInt :: "string \<Rightarrow> int result" where
  "ParseInt s =
     (let neg = (s \<noteq> [] \<and> hd s = CHR ''-'');
          ds = (if s \<noteq> [] \<and> (hd s = CHR ''-'' \<or> hd s = CHR ''+'') then tl s else s)
      in if ds = [] then Inl (Err ''invalid syntax'')
         else case parse_digits ds 0 of
           None \<Rightarrow> Inl (Err ''invalid syntax'')
         | Some n \<Rightarrow>
             let v = (if neg then - n else n)
             in if - (2 ^ 63) \<le> v \<and> v < 2 ^ 63 then Inr v else Inl (Err ''value out of range''))"

text \<open>The value that \<open>ParseInt\<close> returns where its error is ignored: out of range, the nearest value; else zero.\<close>

fun parse_sat :: "string \<Rightarrow> int \<Rightarrow> int" where
  "parse_sat [] acc = acc"
| "parse_sat (c # cs) acc =
     (case digit_val c of
        None \<Rightarrow> 0
      | Some v \<Rightarrow> let n = acc * 10 + v in if 2 ^ 64 \<le> n then 2 ^ 64 - 1 else parse_sat cs n)"

definition ParseInt_value :: "string \<Rightarrow> int" where
  "ParseInt_value s =
     (let neg = (s \<noteq> [] \<and> hd s = CHR ''-'');
          ds = (if s \<noteq> [] \<and> (hd s = CHR ''-'' \<or> hd s = CHR ''+'') then tl s else s);
          n = parse_sat ds 0
      in if neg then max (- (2 ^ 63)) (- n) else min (2 ^ 63 - 1) n)"

fun format_nat :: "nat \<Rightarrow> string" where
  "format_nat n = (if n < 10 then [digit_char n] else format_nat (n div 10) @ [digit_char (n mod 10)])"

declare format_nat.simps [simp del]

definition FormatInt :: "int \<Rightarrow> string" where
  "FormatInt i = (if i < 0 then CHR ''-'' # format_nat (nat (- i)) else format_nat (nat i))"

section \<open>Round trip\<close>

lemma digit_val_char [simp]: "n < 10 \<Longrightarrow> digit_val (digit_char n) = Some (int n)"
  by (simp add: digit_val_def digit_char_def of_char_of)

lemma parse_digits_append:
  "parse_digits (xs @ ys) acc = (case parse_digits xs acc of None \<Rightarrow> None | Some a \<Rightarrow> parse_digits ys a)"
  by (induction xs arbitrary: acc) (auto split: option.splits)

lemma parse_format_nat: "parse_digits (format_nat n) 0 = Some (int n)"
proof (induction n rule: format_nat.induct)
  case (1 n)
  show ?case
  proof (cases "n < 10")
    case False
    then have "parse_digits (format_nat (n div 10)) 0 = Some (int (n div 10))" using 1 by simp
    then show ?thesis using False by (simp add: format_nat.simps [of n] parse_digits_append zdiv_int zmod_int)
  qed (simp add: format_nat.simps [of n])
qed

lemma format_nat_digit: "c \<in> set (format_nat n) \<Longrightarrow> digit_val c \<noteq> None"
proof (induction n rule: format_nat.induct)
  case (1 n) then show ?case by (auto simp: format_nat.simps [of n] split: if_splits)
qed

lemma format_nat_not_Nil [simp]: "format_nat n \<noteq> []"
  by (simp add: format_nat.simps [of n])

lemma format_nat_hd: "hd (format_nat n) \<noteq> CHR ''-''" "hd (format_nat n) \<noteq> CHR ''+''"
proof -
  have "digit_val (hd (format_nat n)) \<noteq> None" by (rule format_nat_digit [of _ n]) simp
  then show "hd (format_nat n) \<noteq> CHR ''-''" "hd (format_nat n) \<noteq> CHR ''+''"
    by (auto simp: digit_val_def split: if_splits)
qed

lemma ParseInt_FormatInt: "- (2 ^ 63) \<le> i \<Longrightarrow> i < 2 ^ 63 \<Longrightarrow> ParseInt (FormatInt i) = Inr i"
  by (simp add: ParseInt_def FormatInt_def parse_format_nat format_nat_hd)

lemma digit_val_nonneg: "digit_val c = Some v \<Longrightarrow> 0 \<le> v"
  by (auto simp: digit_val_def Let_def split: if_splits)

lemma parse_digits_ge: "parse_digits ds a = Some n \<Longrightarrow> 0 \<le> a \<Longrightarrow> a \<le> n"
proof (induction ds arbitrary: a)
  case (Cons c cs)
  obtain v where v: "digit_val c = Some v" "parse_digits cs (a * 10 + v) = Some n" using Cons.prems(1) by (auto split: option.splits)
  have "0 \<le> v" by (rule digit_val_nonneg [OF v(1)])
  then show ?case using Cons.IH [OF v(2)] Cons.prems(2) by linarith
qed simp

lemma parse_sat_digits: "parse_digits ds a = Some n \<Longrightarrow> 0 \<le> a \<Longrightarrow> n < 2 ^ 64 \<Longrightarrow> parse_sat ds a = n"
proof (induction ds arbitrary: a)
  case (Cons c cs)
  obtain v where v: "digit_val c = Some v" "parse_digits cs (a * 10 + v) = Some n" using Cons.prems(1) by (auto split: option.splits)
  have "0 \<le> a * 10 + v" using digit_val_nonneg [OF v(1)] Cons.prems(2) by simp
  then show ?case using Cons.IH [OF v(2)] v parse_digits_ge [OF v(2)] Cons.prems(3) by simp
qed simp

lemma ParseInt_value_Inr: "ParseInt s = Inr v \<Longrightarrow> ParseInt_value s = v"
  using parse_sat_digits [of _ 0]
  by (auto simp: ParseInt_def ParseInt_value_def Let_def split: if_splits option.splits)

lemma FormatInt_chars: "c \<in> set (FormatInt i) \<Longrightarrow> c = CHR ''-'' \<or> digit_val c \<noteq> None"
  by (auto simp: FormatInt_def dest: format_nat_digit split: if_splits)

lemma length_format_nat: "n < 10 ^ Suc k \<Longrightarrow> length (format_nat n) \<le> Suc k"
proof (induction k arbitrary: n)
  case 0 then show ?case by (simp add: format_nat.simps [of n])
next
  case (Suc k)
  have "n div 10 < 10 ^ Suc k" using Suc.prems by (simp add: less_mult_imp_div_less)
  then show ?case using Suc.IH by (subst format_nat.simps) simp
qed

end
