(* ===== verification/ReplicaState.thy ===== *)
theory ReplicaState
  imports FileSystem Strconv
begin

text \<open>
  The state of \<open>Replica\<close> (\<open>replica/replica.go\<close>), the way its operations are composed, and the revision
  counter (\<open>replica/revision_counter.go\<close>).

  The maps \<open>diskData\<close> and \<open>activeDiskData\<close> share their \<open>*disk\<close> objects, and some operations change an
  object that is reached through both.  So the objects live in a store, \<open>rHeap\<close>, and the maps hold
  addresses.
\<close>

section \<open>State\<close>

record replica =
  rVolume :: "nat diffDisk"
  rChan :: "nat hole list"
  rDrainOps :: holeChannelOps
  rReplicaType :: string
  rInfo :: info
  rHeap :: "nat \<Rightarrow> disk"
  rNew :: nat
  diskData :: "(string \<times> nat) list"
  diskChildrenMap :: "(string \<times> string list) list"
  activeDiskData :: "nat option list"
  readOnly :: bool
  rMode :: mode
  revisionCache :: int
  revisionFile :: "nat option"
  rCloneStatus :: string

text \<open>
  What the code takes from libraries, from the process's environment and from the clock: direct I/O on
  open files and their extents (\<open>sparse-tools\<close>, \<open>go-fibmap\<close>), the length of an encoded value, the
  variables \<open>types.MaxChainLength\<close> and \<open>types.ShouldPunchHoles\<close>, a bound on the calls that read the
  extents of a file, the parser of sizes.
\<close>

record renv =
  reF :: "(fs, nat) file_ops"
  reMetaSize :: "meta \<Rightarrow> int"
  reMaxChainLength :: int
  rePunch :: bool
  reFuel :: nat
  reRAMInBytes :: "string \<Rightarrow> int result"

type_synonym 'a rop = "replica \<times> fs \<Rightarrow> 'a result \<times> replica \<times> fs"

section \<open>Composition\<close>

text \<open>Statements in sequence, with an early return on an error.\<close>

definition retR :: "'a \<Rightarrow> 'a rop" where
  "retR x = (\<lambda>s. (Inr x, s))"

definition failR :: "error \<Rightarrow> 'a rop" where
  "failR e = (\<lambda>s. (Inl e, s))"

definition bindR :: "'a rop \<Rightarrow> ('a \<Rightarrow> 'b rop) \<Rightarrow> 'b rop" where
  "bindR m f = (\<lambda>s. case m s of (Inl e, s') \<Rightarrow> (Inl e, s') | (Inr x, s') \<Rightarrow> f x s')"

definition thenR :: "'a rop \<Rightarrow> 'b rop \<Rightarrow> 'b rop" where
  "thenR m n = bindR m (\<lambda>_. n)"

definition withR :: "(replica \<Rightarrow> 'a rop) \<Rightarrow> 'a rop" where
  "withR f = (\<lambda>s. f (fst s) s)"

definition modR :: "(replica \<Rightarrow> replica) \<Rightarrow> unit rop" where
  "modR f = (\<lambda>(r, w). (Inr (), f r, w))"

definition fsR :: "(fs \<Rightarrow> 'a result \<times> fs) \<Rightarrow> 'a rop" where
  "fsR f = (\<lambda>(r, w). case f w of (x, w') \<Rightarrow> (x, r, w'))"

text \<open>An error that the code tests itself; the end of the process, a panic and no answer are not values it sees.\<close>

definition attemptR :: "'a rop \<Rightarrow> 'a result rop" where
  "attemptR m = (\<lambda>s. case m s of
      (Inl (Fatal x), s') \<Rightarrow> (Inl (Fatal x), s')
    | (Inl (Panic x), s') \<Rightarrow> (Inl (Panic x), s')
    | (Inl Diverge, s') \<Rightarrow> (Inl Diverge, s')
    | (x, s') \<Rightarrow> (Inr x, s'))"

text \<open>A deferred call: it runs on a return, on an error and on a panic, and its own errors are only logged.\<close>

definition deferR :: "'a rop \<Rightarrow> ('a result \<Rightarrow> unit rop) \<Rightarrow> 'a rop" where
  "deferR m d = (\<lambda>s. case m s of
      (Inl (Fatal x), s') \<Rightarrow> (Inl (Fatal x), s')
    | (Inl Diverge, s') \<Rightarrow> (Inl Diverge, s')
    | (x, s') \<Rightarrow> (x, snd (d x s')))"

definition guardR :: "bool \<Rightarrow> error \<Rightarrow> unit rop" where
  "guardR b e = (if b then retR () else failR e)"

text \<open>\<open>logrus.Fatalf\<close> on an error.\<close>

definition fatalR :: "'a rop \<Rightarrow> string \<Rightarrow> 'a rop" where
  "fatalR m msg = (\<lambda>s. case m s of
      (Inl (Panic x), s') \<Rightarrow> (Inl (Panic x), s')
    | (Inl Diverge, s') \<Rightarrow> (Inl Diverge, s')
    | (Inl e, s') \<Rightarrow> (Inl (Fatal msg), s')
    | (Inr x, s') \<Rightarrow> (Inr x, s'))"

lemmas rop_defs = retR_def failR_def bindR_def thenR_def withR_def modR_def fsR_def attemptR_def deferR_def guardR_def fatalR_def

text \<open>The address of the disk object with a name; a missing one is the nil pointer, whose use is a panic.\<close>

definition ptr_of :: "string \<Rightarrow> (nat \<Rightarrow> 'a rop) \<Rightarrow> 'a rop" where
  "ptr_of name f = withR (\<lambda>r. case map_of (diskData r) name of None \<Rightarrow> failR (Panic ''nil disk'') | Some p \<Rightarrow> f p)"

definition set_disk :: "nat \<Rightarrow> (disk \<Rightarrow> disk) \<Rightarrow> unit rop" where
  "set_disk p f = modR (\<lambda>r. r\<lparr>rHeap := (rHeap r)(p := f (rHeap r p))\<rparr>)"

text \<open>A call on an open file of the volume.\<close>

definition closeF :: "renv \<Rightarrow> nat \<Rightarrow> unit rop" where
  "closeF E f = fsR (\<lambda>w. case fClose (reF E) f w of (None, w') \<Rightarrow> (Inr (), w') | (Some e, w') \<Rightarrow> (Inl e, w'))"

section \<open>The revision counter\<close>

definition byte_of_char :: "char \<Rightarrow> byte" where
  "byte_of_char c = word_of_nat (of_char c)"

definition char_of_byte :: "byte \<Rightarrow> char" where
  "char_of_byte b = char_of (unat b)"

text \<open>\<open>strings.Trim(s, NUL)\<close>.\<close>

definition trim_nul :: "string \<Rightarrow> string" where
  "trim_nul s = rev (dropWhile (\<lambda>c. c = CHR 0x00) (rev (dropWhile (\<lambda>c. c = CHR 0x00) s)))"

definition revisionCounterFile :: string where
  "revisionCounterFile = ''revision.counter''"

definition revisionBlockSize :: nat where
  "revisionBlockSize = 4096"

definition readRevisionCounter :: "renv \<Rightarrow> int rop" where
  "readRevisionCounter E =
     (\<lambda>(r, w). case revisionFile r of
        None \<Rightarrow> (Inl (Err ''BUG: revision file wasn't initialized''), r, w)
      | Some f \<Rightarrow>
          (case fReadAt (reF E) f revisionBlockSize 0 w of (bs, err) \<Rightarrow>
           let buf = splice 0 bs (replicate revisionBlockSize 0) in
           if err \<noteq> None \<and> err \<noteq> Some EOF then (Inl (Err ''fail to read from revision counter file''), r, w)
           else (case ParseInt (trim_nul (map char_of_byte buf)) of
                   Inl e \<Rightarrow> (Inl (Err ''fail to parse revision counter file''), r, w)
                 | Inr counter \<Rightarrow> (Inr counter, r, w))))"

definition revision_block :: "int \<Rightarrow> byte list" where
  "revision_block counter = splice 0 (map byte_of_char (FormatInt counter)) (replicate revisionBlockSize 0)"

definition writeRevisionCounter :: "renv \<Rightarrow> int \<Rightarrow> unit rop" where
  "writeRevisionCounter E counter =
     (\<lambda>(r, w). case revisionFile r of
        None \<Rightarrow> (Inl (Err ''BUG: revision file wasn't initialized''), r, w)
      | Some f \<Rightarrow>
          (case fWriteAt (reF E) f (revision_block counter) 0 w of
             ((_, Some e), w') \<Rightarrow> (Inl (Err ''fail to write to revision counter file''), r, w')
           | ((_, None), w') \<Rightarrow> (Inr (), r, w')))"

definition openRevisionFile :: "bool \<Rightarrow> unit rop" where
  "openRevisionFile isCreate =
     bindR (attemptR (fsR (os_Open isCreate False revisionCounterFile)))
       (\<lambda>res. case res of
          Inl e \<Rightarrow> thenR (modR (\<lambda>r. r\<lparr>revisionFile := None\<rparr>)) (failR e)
        | Inr f \<Rightarrow> modR (\<lambda>r. r\<lparr>revisionFile := Some f\<rparr>))"

definition initRevisionCounter :: "renv \<Rightarrow> unit rop" where
  "initRevisionCounter E =
     thenR
       (bindR (attemptR (fsR (os_Stat revisionCounterFile)))
          (\<lambda>res. case res of
             Inl e \<Rightarrow>
               if e \<noteq> ErrNotExist then failR e
               else thenR (openRevisionFile True) (writeRevisionCounter E 1)
           | Inr _ \<Rightarrow> openRevisionFile False))
       (bindR (readRevisionCounter E) (\<lambda>counter. modR (\<lambda>r. r\<lparr>revisionCache := counter\<rparr>)))"

text \<open>\<open>GetRevisionCounter\<close> has no error: \<open>-1\<close> stands for one.\<close>

definition GetRevisionCounter :: "renv \<Rightarrow> int rop" where
  "GetRevisionCounter E =
     bindR (attemptR (readRevisionCounter E))
       (\<lambda>res. case res of
          Inl e \<Rightarrow> retR (-1)
        | Inr counter \<Rightarrow> thenR (modR (\<lambda>r. r\<lparr>revisionCache := counter\<rparr>)) (retR counter))"

definition SetRevisionCounterCloneReplica :: "renv \<Rightarrow> int \<Rightarrow> unit rop" where
  "SetRevisionCounterCloneReplica E counter =
     thenR (writeRevisionCounter E counter) (modR (\<lambda>r. r\<lparr>revisionCache := counter\<rparr>))"

definition SetRevisionCounter :: "renv \<Rightarrow> int \<Rightarrow> unit rop" where
  "SetRevisionCounter E counter =
     withR (\<lambda>r. thenR (guardR (rMode r = RW) (Err ''setting revisioncounter in this mode is invalid''))
       (thenR (writeRevisionCounter E counter) (modR (\<lambda>r. r\<lparr>revisionCache := counter\<rparr>))))"

definition increaseRevisionCounter :: "renv \<Rightarrow> unit rop" where
  "increaseRevisionCounter E =
     withR (\<lambda>r. thenR (writeRevisionCounter E (i64 (revisionCache r + 1)))
       (modR (\<lambda>r. r\<lparr>revisionCache := i64 (revisionCache r + 1)\<rparr>)))"

end
