(* ===== verification/Replica.thy ===== *)
theory Replica
  imports ReplicaState "HOL-Library.AList"
begin

text \<open>
  \<open>replica/replica.go\<close>: the chain of snapshots of a replica, on disk and in memory.  Each operation holds
  the replica's lock from beginning to end, so it is one step.  The replica's directory is the file
  system, so a name stands for its path.
\<close>

section \<open>Names\<close>

definition metadataSuffix :: string where
  "metadataSuffix = ''.meta''"

definition volumeMetaData :: string where
  "volumeMetaData = ''volume.meta''"

definition headPrefix :: string where
  "headPrefix = ''volume-head-''"

definition diskPrefix :: string where
  "diskPrefix = ''volume-snap-''"

definition imgSuffix :: string where
  "imgSuffix = ''.img''"

definition maximumChainLength :: int where
  "maximumChainLength = 1024"

definition GenerateSnapshotDiskName :: "string \<Rightarrow> string" where
  "GenerateSnapshotDiskName name = diskPrefix @ name @ imgSuffix"

definition GetSnapshotNameFromDiskName :: "string \<Rightarrow> string result" where
  "GetSnapshotNameFromDiskName diskName =
     (if \<not> has_prefix diskPrefix diskName \<or> \<not> has_suffix imgSuffix diskName then Inl (Err ''Invalid snapshot disk name'')
      else let result = drop (length diskPrefix) diskName
           in Inr (if has_suffix imgSuffix result then take (length result - length imgSuffix) result else result))"

definition IsHeadDisk :: "string \<Rightarrow> bool" where
  "IsHeadDisk diskName = (if has_prefix headPrefix diskName \<and> has_suffix imgSuffix diskName then True else False)"

text \<open>
  \<open>diskPattern.FindStringSubmatch\<close> for the pattern \<open>volume-head-(\d+).img\<close>, not anchored: at the leftmost
  place where it matches, as many digits as possible; the dot is any character but a newline.
\<close>

fun head_digits :: "nat \<Rightarrow> string \<Rightarrow> string option" where
  "head_digits 0 s = None"
| "head_digits (Suc k) s =
     (case drop (Suc k) s of
        c # t \<Rightarrow> if c \<noteq> CHR 0x0A \<and> take 3 t = ''img'' then Some (take (Suc k) s) else head_digits k s
      | [] \<Rightarrow> head_digits k s)"

fun find_head :: "string \<Rightarrow> string option" where
  "find_head [] = None"
| "find_head (c # s) =
     (case (if has_prefix headPrefix (c # s)
            then let rest = drop (length headPrefix) (c # s)
                 in head_digits (length (takeWhile (\<lambda>d. digit_val d \<noteq> None) rest)) rest
            else None) of
        Some ds \<Rightarrow> Some ds
      | None \<Rightarrow> find_head s)"

text \<open>\<open>strconv.Atoi\<close> of a string of digits with its error ignored: a value out of range is the largest one.\<close>

definition atoi :: "string \<Rightarrow> int" where
  "atoi ds = (case parse_digits ds 0 of Some n \<Rightarrow> min n (2 ^ 63 - 1) | None \<Rightarrow> 0)"

definition headName :: "int \<Rightarrow> string" where
  "headName n = headPrefix @ replicate (3 - length (FormatInt n)) CHR ''0'' @ FormatInt n @ imgSuffix"

definition nextFile :: "string \<Rightarrow> string result" where
  "nextFile parent =
     (if parent = [] then Inr (headName 0)
      else case find_head parent of
        None \<Rightarrow> Inl (Err ''Invalid name does not match pattern'')
      | Some ds \<Rightarrow> Inr (headName (i64 (atoi ds + 1))))"

section \<open>Files\<close>

definition encodeToFile :: "meta \<Rightarrow> string \<Rightarrow> unit rop" where
  "encodeToFile obj file =
     withR (\<lambda>r. if readOnly r then retR ()
       else bindR (fsR (os_Open True True (file @ ''.tmp''))) (\<lambda>f.
            thenR (attemptR (fsR (json_Encode f obj)))
           (thenR (fsR os_Close)
           (thenR (fsR (os_Rename (file @ ''.tmp'') file))
                  (fsR fs_SyncDir)))))"

text \<open>\<open>Info.BackingFile\<close> is not encoded.\<close>

definition enc_info :: "info \<Rightarrow> meta" where
  "enc_info i = MInfo (i\<lparr>iBackingFile := None\<rparr>)"

text \<open>\<open>unmarshalFile\<close>: open, decode, close.\<close>

definition unmarshalFile :: "string \<Rightarrow> fs \<Rightarrow> meta result \<times> fs" where
  "unmarshalFile file w =
     (case os_Open False False file w of
        (Inl e, w1) \<Rightarrow> (Inl e, w1)
      | (Inr f, w1) \<Rightarrow>
          (case json_Decode f w1 of
             (Inl e, w2) \<Rightarrow> (Inl e, snd (os_Close w2))
           | (Inr m, w2) \<Rightarrow> (case os_Close w2 of (Inl e, w3) \<Rightarrow> (Inl e, w3) | (Inr (), w3) \<Rightarrow> (Inr m, w3))))"

definition dec_info :: "string \<Rightarrow> backingFile option \<Rightarrow> fs \<Rightarrow> info result \<times> fs" where
  "dec_info file bf w =
     (case unmarshalFile file w of
        (Inl e, w1) \<Rightarrow> (Inl e, w1)
      | (Inr (MInfo i), w1) \<Rightarrow> (Inr (i\<lparr>iBackingFile := bf\<rparr>), w1)
      | (Inr (MDisk d), w1) \<Rightarrow> (Inl (Err ''json: cannot unmarshal''), w1))"

definition ReadInfo :: "fs \<Rightarrow> info result \<times> fs" where
  "ReadInfo w = dec_info volumeMetaData None w"

definition writeVolumeMetaData :: "bool \<Rightarrow> bool \<Rightarrow> unit rop" where
  "writeVolumeMetaData dirty rebuilding =
     withR (\<lambda>r. encodeToFile (enc_info ((rInfo r)\<lparr>iDirty := dirty, iRebuilding := rebuilding\<rparr>)) volumeMetaData)"

definition openFile :: "string \<Rightarrow> bool \<Rightarrow> nat rop" where
  "openFile name trunc = fsR (os_Open True trunc name)"

definition SyncDir :: "unit rop" where
  "SyncDir = fsR fs_SyncDir"

definition getDiskSize :: "string \<Rightarrow> int rop" where
  "getDiskSize name = fsR (\<lambda>w. case GetFileActualSize name w of (n, w') \<Rightarrow> (Inr n, w'))"

definition existsR :: "string \<Rightarrow> bool rop" where
  "existsR name = bindR (attemptR (fsR (os_Stat name))) (\<lambda>res. retR (case res of Inl e \<Rightarrow> False | Inr _ \<Rightarrow> True))"

definition removeR :: "string \<Rightarrow> unit rop" where
  "removeR name =
     bindR (attemptR (fsR (os_Remove name)))
       (\<lambda>res. case res of Inl e \<Rightarrow> (if e = ErrNotExist then retR () else failR e) | Inr _ \<Rightarrow> retR ())"

definition rmDisk :: "string \<Rightarrow> unit rop" where
  "rmDisk name = (if name = [] then retR () else thenR (removeR name) (thenR (removeR (name @ metadataSuffix)) SyncDir))"

definition linkDisk :: "string \<Rightarrow> string \<Rightarrow> unit rop" where
  "linkDisk oldname newname =
     (if oldname = [] then retR ()
      else bindR (existsR newname) (\<lambda>ex.
           thenR (guardR (\<not> ex) (Err ''Old file already exists''))
          (bindR (existsR (newname @ metadataSuffix)) (\<lambda>ex.
           thenR (guardR (\<not> ex) (Err ''Old file already exists''))
          (thenR (fsR (os_Link oldname newname))
          (thenR (fsR (os_Link (oldname @ metadataSuffix) (newname @ metadataSuffix))) SyncDir))))))"

definition hardlinkDisk :: "string \<Rightarrow> string \<Rightarrow> unit rop" where
  "hardlinkDisk target source =
     bindR (existsR source) (\<lambda>ex.
     thenR (guardR ex (Err ''Cannot find source of replacing''))
    (bindR (existsR target) (\<lambda>ex.
     thenR (if ex then bindR (attemptR (fsR (os_Remove target)))
                         (\<lambda>res. case res of Inl e \<Rightarrow> failR (Err ''Fail to remove'') | Inr _ \<Rightarrow> retR ())
            else retR ())
    (thenR (bindR (attemptR (fsR (os_Link source target)))
              (\<lambda>res. case res of Inl e \<Rightarrow> failR (Err ''Fail to link'') | Inr _ \<Rightarrow> retR ())) SyncDir))))"

section \<open>The maps of disks\<close>

definition children_of :: "string \<Rightarrow> replica \<Rightarrow> string list option" where
  "children_of name r = map_of (diskChildrenMap r) name"

definition addChildDisk :: "string \<Rightarrow> string \<Rightarrow> replica \<Rightarrow> replica" where
  "addChildDisk parent child r =
     (let children = (case children_of parent r of None \<Rightarrow> [] | Some cs \<Rightarrow> cs)
      in r\<lparr>diskChildrenMap := AList.update parent (List.insert child children) (diskChildrenMap r)\<rparr>)"

definition rmChildDisk :: "string \<Rightarrow> string \<Rightarrow> replica \<Rightarrow> replica" where
  "rmChildDisk parent child r =
     (case children_of parent r of
        None \<Rightarrow> r
      | Some children \<Rightarrow>
          if child \<notin> set children then r
          else let cs = removeAll child children
               in if cs = [] then r\<lparr>diskChildrenMap := AList.delete parent (diskChildrenMap r)\<rparr>
                  else r\<lparr>diskChildrenMap := AList.update parent cs (diskChildrenMap r)\<rparr>)"

definition updateChildDisk :: "string \<Rightarrow> string \<Rightarrow> unit rop" where
  "updateChildDisk oldName newName =
     ptr_of oldName (\<lambda>p. withR (\<lambda>r.
       let parent = dParent (rHeap r p)
       in modR (\<lambda>r. let r1 = rmChildDisk parent oldName r in if newName \<noteq> [] then addChildDisk parent newName r1 else r1)))"

definition updateParentDisk :: "string \<Rightarrow> string \<Rightarrow> unit rop" where
  "updateParentDisk name oldParent =
     ptr_of name (\<lambda>p.
       thenR (if oldParent \<noteq> [] then ptr_of oldParent (\<lambda>q. withR (\<lambda>r. set_disk p (\<lambda>d. d\<lparr>dParent := dParent (rHeap r q)\<rparr>)))
              else set_disk p (\<lambda>d. d\<lparr>dParent := []\<rparr>))
         (withR (\<lambda>r. encodeToFile (MDisk (rHeap r p)) (dName (rHeap r p) @ metadataSuffix))))"

definition updateParentRevisionCounter :: "string \<Rightarrow> unit rop" where
  "updateParentRevisionCounter name =
     ptr_of name (\<lambda>p. withR (\<lambda>r.
       let parentName = dParent (rHeap r p) in
       if parentName \<noteq> [] then
         ptr_of parentName (\<lambda>q.
         ptr_of (dName (rHeap r q)) (\<lambda>q'.
           thenR (set_disk q' (\<lambda>d. d\<lparr>dRevisionCounter := dRevisionCounter (rHeap r p)\<rparr>))
             (withR (\<lambda>r. encodeToFile (MDisk (rHeap r q)) (dName (rHeap r q) @ metadataSuffix)))))
       else retR ()))"

fun find_index :: "string \<Rightarrow> (nat \<Rightarrow> disk) \<Rightarrow> nat \<Rightarrow> nat option list \<Rightarrow> nat" where
  "find_index name h i [] = 0"
| "find_index name h i (p # ps) =
     (if i = 0 then find_index name h (i + 1) ps
      else case p of
        None \<Rightarrow> 0
      | Some a \<Rightarrow> if dName (h a) = name then i else find_index name h (i + 1) ps)"

definition findDisk :: "string \<Rightarrow> replica \<Rightarrow> nat" where
  "findDisk name r = find_index name (rHeap r) 0 (activeDiskData r)"

text \<open>
  \<open>Chain\<close> follows the parents from the head.  It visits a disk at most once unless the parents form a
  cycle, and then it does not return: one step more than there are disks is enough fuel.
\<close>

fun chain_loop :: "nat \<Rightarrow> replica \<Rightarrow> string \<Rightarrow> string list result" where
  "chain_loop n r [] = Inr []"
| "chain_loop 0 r (c # cs) = Inl Diverge"
| "chain_loop (Suc n) r (c # cs) =
     (case map_of (diskData r) (c # cs) of
        None \<Rightarrow> Inl (Err ''Failed to find metadata'')
      | Some p \<Rightarrow>
          (case chain_loop n r (dParent (rHeap r p)) of
             Inl e \<Rightarrow> Inl e
           | Inr rest \<Rightarrow> Inr ((c # cs) # rest)))"

definition Chain :: "replica \<Rightarrow> string list result" where
  "Chain r = chain_loop (Suc (length (diskData r))) r (iHead (rInfo r))"

definition DisplayChain :: "replica \<Rightarrow> string list result" where
  "DisplayChain r =
     (case chain_loop (Suc (length (diskData r))) r (iHead (rInfo r)) of
        Inl (Err e) \<Rightarrow> Inl (Err ''Failed to find metadata in DisplayChain'')
      | x \<Rightarrow> x)"

definition liftC :: "(replica \<Rightarrow> 'a result) \<Rightarrow> 'a rop" where
  "liftC f = (\<lambda>(r, w). (f r, r, w))"

section \<open>New disks\<close>

definition maxChainLen :: "renv \<Rightarrow> int" where
  "maxChainLen E = (if reMaxChainLength E \<noteq> 0 then reMaxChainLength E else maximumChainLength)"

text \<open>\<open>createNewHead\<close> returns a file, a disk and an error; the disk is the empty one when the error comes early.\<close>

definition createNewHead :: "renv \<Rightarrow> string \<Rightarrow> string \<Rightarrow> string \<Rightarrow> (error option \<times> nat \<times> disk) rop" where
  "createNewHead E oldHead parent created =
     bindR (attemptR
       (bindR (liftC (\<lambda>_. nextFile oldHead)) (\<lambda>newHeadName.
        bindR (existsR newHeadName) (\<lambda>ex.
        thenR (if ex then bindR (getDiskSize newHeadName) (\<lambda>n.
                 thenR (guardR (\<not> n > 0) (Err ''Can't remove head file as it contains some data''))
                   (bindR (attemptR (rmDisk newHeadName))
                      (\<lambda>res. case res of Inl e \<Rightarrow> failR (Err ''Failed to remove disk'') | Inr _ \<Rightarrow> retR ())))
               else retR ())
       (bindR (openFile newHeadName True) (\<lambda>f.
        thenR (withR (\<lambda>r. fsR (os_Truncate newHeadName (iSize (rInfo r)))))
       (bindR (GetRevisionCounter E) (\<lambda>rc.
        retR (f, \<lparr>dName = newHeadName, dParent = parent, dRemoved = False, dUserCreated = False, dCreated = created,
                  dRevisionCounter = rc\<rparr>)))))))))
       (\<lambda>res. case res of
          Inl e \<Rightarrow> retR (Some e, 0, disk0)
        | Inr (f, newDisk) \<Rightarrow>
            bindR (attemptR (encodeToFile (MDisk newDisk) (dName newDisk @ metadataSuffix)))
              (\<lambda>res. retR (case res of Inl e \<Rightarrow> Some e | Inr _ \<Rightarrow> None, f, newDisk)))"

text \<open>The part of \<open>createDisk\<close> that turns the old head into the snapshot.\<close>

definition snapshot_head :: "renv \<Rightarrow> string \<Rightarrow> string \<Rightarrow> string \<Rightarrow> bool \<Rightarrow> string \<Rightarrow> unit rop" where
  "snapshot_head E oldHead newSnapName newHead userCreated created =
     thenR (modR (addChildDisk newSnapName newHead))
    (ptr_of oldHead (\<lambda>p.
     thenR (modR (\<lambda>r. r\<lparr>diskData := AList.update newSnapName p (diskData r)\<rparr>))
    (thenR (set_disk p (\<lambda>d. d\<lparr>dName := newSnapName, dUserCreated := userCreated, dCreated := created\<rparr>))
    (bindR (GetRevisionCounter E) (\<lambda>rc.
     thenR (set_disk p (\<lambda>d. d\<lparr>dRevisionCounter := rc\<rparr>))
    (thenR (withR (\<lambda>r. encodeToFile (MDisk (rHeap r p)) (newSnapName @ metadataSuffix)))
    (thenR (modR (\<lambda>r. r\<lparr>rVolume := (rVolume r)\<lparr>UsedBlocks := UsedBlocks (rVolume r) + 1\<rparr>\<rparr>))
    (thenR (updateChildDisk oldHead newSnapName)
           (withR (\<lambda>r. if activeDiskData r = [] then failR (Panic ''index out of range'')
              else case last (activeDiskData r) of
                None \<Rightarrow> failR (Panic ''nil disk'')
              | Some q \<Rightarrow> set_disk q (\<lambda>d. d\<lparr>dName := newSnapName\<rparr>)))))))))))"

definition createDisk_body ::
  "renv \<Rightarrow> string \<Rightarrow> string \<Rightarrow> nat \<Rightarrow> disk \<Rightarrow> bool \<Rightarrow> string \<Rightarrow> unit rop" where
  "createDisk_body E oldHead newSnapName f newHeadDisk userCreated created =
     thenR (withR (\<lambda>r. linkDisk (iHead (rInfo r)) newSnapName))
    (withR (\<lambda>r. let pn = rNew r in
     thenR (modR (\<lambda>r. r\<lparr>rHeap := (rHeap r)(pn := newHeadDisk), rNew := pn + 1,
                        diskData := AList.update (dName newHeadDisk) pn (diskData r)\<rparr>))
    (thenR (if newSnapName \<noteq> [] then snapshot_head E oldHead newSnapName (dName newHeadDisk) userCreated created else retR ())
    (thenR (modR (\<lambda>r.
       let v = rVolume r; fs = files v @ [Some f] in
       r\<lparr>diskData := AList.delete oldHead (diskData r),
         rVolume := v\<lparr>files := fs, SnapIndx := (if userCreated then int (length fs) - 2 else SnapIndx v),
                      UserCreatedSnap := UserCreatedSnap v @ [userCreated]\<rparr>,
         activeDiskData := activeDiskData r @ [Some pn]\<rparr>))
    (withR (\<lambda>r. let i = (rInfo r)\<lparr>iHead := dName newHeadDisk, iDirty := True, iParent := newSnapName,
                                  iRevisionCounter := dRevisionCounter (rHeap r pn)\<rparr> in
     thenR (encodeToFile (enc_info i) volumeMetaData)
           (modR (\<lambda>r. r\<lparr>rInfo := i\<rparr>))))))))"

definition ignoreR :: "'a rop \<Rightarrow> unit rop" where
  "ignoreR m = bindR (attemptR m) (\<lambda>_. retR ())"

definition createDisk :: "renv \<Rightarrow> string \<Rightarrow> bool \<Rightarrow> string \<Rightarrow> unit rop" where
  "createDisk E name userCreated created =
     thenR SyncDir
    (withR (\<lambda>r.
     thenR (guardR (\<not> readOnly r) (Err ''Can not create disk on read-only replica''))
    (thenR (guardR (\<not> int (length (activeDiskData r)) + 1 > maxChainLen E) (Err ''Too many active disks''))
    (let oldHead = iHead (rInfo r);
         newSnapName = (if oldHead = [] then [] else GenerateSnapshotDiskName name) in
     bindR (createNewHead E oldHead newSnapName created) (\<lambda>(err, f, newHeadDisk).
       case err of
         Some e \<Rightarrow> thenR (ignoreR (rmDisk (dName newHeadDisk))) (failR e)
       | None \<Rightarrow>
           deferR (createDisk_body E oldHead newSnapName f newHeadDisk userCreated created)
             (\<lambda>res. case res of
                Inl _ \<Rightarrow> thenR (ignoreR (rmDisk (dName newHeadDisk)))
                          (thenR (ignoreR (rmDisk newSnapName)) (ignoreR (closeF E f)))
              | Inr _ \<Rightarrow> ignoreR (rmDisk oldHead)))))))"

section \<open>Opening a replica\<close>

definition readDiskData :: "renv \<Rightarrow> string \<Rightarrow> string rop" where
  "readDiskData E file =
     bindR (fsR (unmarshalFile file)) (\<lambda>m. case m of
       MInfo _ \<Rightarrow> failR (Err ''json: cannot unmarshal'')
     | MDisk d \<Rightarrow>
         let name = take (length file - length metadataSuffix) file in
         withR (\<lambda>r. let p = rNew r in
         thenR (modR (\<lambda>r. r\<lparr>rHeap := (rHeap r)(p := d\<lparr>dName := name\<rparr>), rNew := p + 1,
                            diskData := AList.update name p (diskData r)\<rparr>))
        (thenR (if dRevisionCounter d \<le> 1 then
                  bindR (GetRevisionCounter E) (\<lambda>rc.
                  thenR (set_disk p (\<lambda>d. d\<lparr>dRevisionCounter := rc\<rparr>))
                        (withR (\<lambda>r. encodeToFile (MDisk (rHeap r p)) (name @ metadataSuffix))))
                else retR ())
        (thenR (if dParent d \<noteq> [] then modR (addChildDisk (dParent d) name) else retR ())
               (retR (dParent d))))))"

text \<open>The blocks of a metadata file, by the length it had when the directory was read.\<close>

definition meta_blocks :: "renv \<Rightarrow> fs \<Rightarrow> nat \<Rightarrow> int" where
  "meta_blocks E w0 i =
     (let n = (case ino_meta w0 i of Some m \<Rightarrow> reMetaSize E m | None \<Rightarrow> 0)
      in if n smod 4096 = 0 then n sdiv 4096 else n sdiv 4096 + 1)"

definition add_blocks :: "int \<Rightarrow> unit rop" where
  "add_blocks n = modR (\<lambda>r. r\<lparr>rVolume := (rVolume r)\<lparr>UsedBlocks := UsedBlocks (rVolume r) + n\<rparr>\<rparr>)"

text \<open>The loop of \<open>readMetadata\<close> over the files, starting with \<open>volume.meta\<close>.\<close>

fun readMetadata_loop :: "renv \<Rightarrow> fs \<Rightarrow> nat \<Rightarrow> string \<Rightarrow> unit rop" where
  "readMetadata_loop E w0 0 file = failR Diverge"
| "readMetadata_loop E w0 (Suc n) file =
     (case dirents w0 file of
        None \<Rightarrow> retR ()
      | Some i \<Rightarrow>
          if file = volumeMetaData then
            bindR (withR (\<lambda>r. fsR (dec_info file (iBackingFile (rInfo r))))) (\<lambda>inf.
            thenR (modR (\<lambda>r. r\<lparr>rInfo := inf, rVolume := (rVolume r)\<lparr>sectorSize := 4096\<rparr>\<rparr>))
           (thenR (add_blocks (meta_blocks E w0 i))
           (thenR (guardR (iHead inf \<noteq> []) (Err ''r.info.Head is nil''))
                  (readMetadata_loop E w0 n (iHead inf @ metadataSuffix)))))
          else if has_suffix metadataSuffix file then
            bindR (readDiskData E file) (\<lambda>parent.
            thenR (add_blocks (meta_blocks E w0 i))
                  (if parent = [] then retR () else readMetadata_loop E w0 n (parent @ metadataSuffix)))
          else readMetadata_loop E w0 n file)"

definition readMetadata :: "renv \<Rightarrow> bool rop" where
  "readMetadata E =
     thenR (modR (\<lambda>r. r\<lparr>diskData := []\<rparr>))
    (bindR (attemptR (fsR os_ReadDir)) (\<lambda>res. case res of
       Inl e \<Rightarrow> if e = ErrNotExist then retR False else failR e
     | Inr fileMap \<Rightarrow>
         (\<lambda>s. thenR (readMetadata_loop E (snd s) (reFuel E) volumeMetaData)
                (thenR (add_blocks 1) (withR (\<lambda>r. retR (diskData r \<noteq> [])))) s)))"

fun open_files :: "nat \<Rightarrow> string list \<Rightarrow> unit rop" where
  "open_files k [] = retR ()"
| "open_files k (name # names) =
     bindR (openFile name False) (\<lambda>f.
     ptr_of name (\<lambda>p.
     thenR (modR (\<lambda>r. let v = rVolume r; u = dUserCreated (rHeap r p) in
        r\<lparr>rVolume := v\<lparr>files := files v @ [Some f], UserCreatedSnap := UserCreatedSnap v @ [u],
                       SnapIndx := (if u then int k else SnapIndx v)\<rparr>,
          activeDiskData := activeDiskData r @ [Some p]\<rparr>))
       (open_files (k + 1) names)))"

definition openLiveChain :: "renv \<Rightarrow> unit rop" where
  "openLiveChain E =
     bindR (liftC Chain) (\<lambda>chain.
     thenR (guardR (\<not> int (length chain) > maxChainLen E) (Err ''Live chain is too long''))
       (open_files 1 (rev chain)))"

definition insertBackingFile :: "unit rop" where
  "insertBackingFile =
     modR (\<lambda>r. case iBackingFile (rInfo r) of
        None \<Rightarrow> r
      | Some bf \<Rightarrow>
          let p = rNew r; v = rVolume r in
          r\<lparr>rHeap := (rHeap r)(p := disk0, p + 1 := disk0\<lparr>dName := bfName bf\<rparr>), rNew := p + 2,
            activeDiskData := [Some p, Some (p + 1)] @ tl (activeDiskData r),
            rVolume := v\<lparr>files := [None, Some (bfDisk bf)] @ tl (files v),
                         UserCreatedSnap := [False, False] @ tl (UserCreatedSnap v)\<rparr>,
            diskData := AList.update (bfName bf) (p + 1) (diskData r)\<rparr>)"

definition PreloadLunMap :: "renv \<Rightarrow> unit rop" where
  "PreloadLunMap E =
     (\<lambda>(r, w). case preload (reF E) (rePunch E) (reFuel E) (rVolume r, w, rChan r) of
        None \<Rightarrow> (Inl Diverge, r, w)
      | Some (Some e, d, w', ch) \<Rightarrow> (Inl e, r\<lparr>rVolume := d, rChan := ch\<rparr>, w')
      | Some (None, d, w', ch) \<Rightarrow> (Inr (), r\<lparr>rVolume := d, rChan := ch\<rparr>, w'))"

definition diffDisk0 :: "nat diffDisk" where
  "diffDisk0 = \<lparr>location = [], UsedLogicalBlocks = 0, UsedBlocks = 0, files = [], UserCreatedSnap = [], SnapIndx = 0,
     sectorSize = 4096\<rparr>"

text \<open>A new object; the channel of holes is a global variable and stays.\<close>

definition new_replica ::
  "int \<Rightarrow> int \<Rightarrow> backingFile option \<Rightarrow> nat hole list \<Rightarrow> holeChannelOps \<Rightarrow> replica" where
  "new_replica sz ss bf ch ops =
     \<lparr>rVolume = diffDisk0, rChan = ch, rDrainOps = ops, rReplicaType = [],
      rInfo = info0\<lparr>iSize := sz, iSectorSize := ss, iBackingFile := bf,
                    iBackingFileName := (case bf of None \<Rightarrow> [] | Some b \<Rightarrow> bfName b)\<rparr>,
      rHeap = (\<lambda>_. disk0), rNew = 0, diskData = [], diskChildrenMap = [], activeDiskData = [None], readOnly = False,
      rMode = INIT, revisionCache = 0, revisionFile = None, rCloneStatus = []\<rparr>"

text \<open>\<open>os.Mkdir\<close> where a directory that exists is no error.\<close>

definition mkdirR :: "unit rop" where
  "mkdirR =
     bindR (attemptR (fsR os_Mkdir))
       (\<lambda>res. case res of Inl e \<Rightarrow> (if e = Err ''file exists'' then retR () else failR e) | Inr _ \<Rightarrow> retR ())"

text \<open>The object that is built takes the place of the state's replica; \<open>Reload\<close> and \<open>New\<close> pick it up there.\<close>

definition construct ::
  "renv \<Rightarrow> bool \<Rightarrow> bool \<Rightarrow> int \<Rightarrow> int \<Rightarrow> string \<Rightarrow> backingFile option \<Rightarrow> string \<Rightarrow> string \<Rightarrow> unit rop" where
  "construct E preloading readonly sz ss head bf replicaType now =
     (if ss = 0 then failR (Panic ''integer divide by zero'')
      else thenR (guardR (sz smod ss = 0) (Err ''Size not a multiple of sector size''))
     (thenR mkdirR
     (thenR (modR (\<lambda>r. new_replica sz ss bf (rChan r) (rDrainOps r)))
     (thenR (initRevisionCounter E)
     (bindR (readMetadata E) (\<lambda>exs.
      withR (\<lambda>r. let n = iSize (rInfo r) sdiv sectorSize (rVolume r) + (if sz smod 4096 \<noteq> 0 then 1 else 0) in
      thenR (guardR (0 \<le> n) (Panic ''makeslice: len out of range''))
     (thenR (modR (\<lambda>r. r\<lparr>rVolume := (rVolume r)\<lparr>location := replicate (nat n) 0, files := [None], UserCreatedSnap := [False]\<rparr>\<rparr>))
     (thenR (guardR (\<not> (readOnly r \<and> \<not> exs)) ErrNotExist)
     (thenR (modR (\<lambda>r. if head \<noteq> [] then r\<lparr>rInfo := (rInfo r)\<lparr>iHead := head\<rparr>\<rparr> else r))
     (thenR (if exs then openLiveChain E else if sz \<le> 0 then failR ErrNotExist else createDisk E ''000'' False now)
     (thenR (withR (\<lambda>r. ptr_of (iHead (rInfo r)) (\<lambda>p. modR (\<lambda>r. r\<lparr>rInfo := (rInfo r)\<lparr>iParent := dParent (rHeap r p)\<rparr>\<rparr>))))
     (thenR insertBackingFile
     (thenR (modR (\<lambda>r. r\<lparr>rReplicaType := replicaType\<rparr>))
     (thenR (if preloading then
               bindR (attemptR (PreloadLunMap E))
                 (\<lambda>res. case res of Inl e \<Rightarrow> failR (Err ''failed to load Lun map'') | Inr _ \<Rightarrow> retR ())
             else retR ())
            (withR (\<lambda>r. writeVolumeMetaData True (iRebuilding (rInfo r)))))))))))))))))))"

definition New ::
  "renv \<Rightarrow> bool \<Rightarrow> int \<Rightarrow> int \<Rightarrow> backingFile option \<Rightarrow> string \<Rightarrow> string \<Rightarrow> unit rop" where
  "New E preloading sz ss bf replicaType now = construct E preloading False sz ss [] bf replicaType now"

definition NewReadOnly :: "renv \<Rightarrow> bool \<Rightarrow> string \<Rightarrow> backingFile option \<Rightarrow> string \<Rightarrow> unit rop" where
  "NewReadOnly E preloading head bf now = construct E preloading True 0 512 head bf [] now"

text \<open>\<open>Reload\<close> gives the new object; on an error the old one stays in use.\<close>

definition Reload :: "renv \<Rightarrow> bool \<Rightarrow> string \<Rightarrow> replica \<times> fs \<Rightarrow> replica result \<times> replica \<times> fs" where
  "Reload E preloading now = (\<lambda>(r, w).
     let i = rInfo r in
     case New E preloading (iSize i) (iSectorSize i) (iBackingFile i) (rReplicaType r) now (r, w) of
       (Inl e, r', w') \<Rightarrow> (Inl e, r\<lparr>rChan := rChan r', rDrainOps := rDrainOps r'\<rparr>, w')
     | (Inr (), r', w') \<Rightarrow>
         (Inr (r'\<lparr>rMode := rMode r, rInfo := (rInfo r')\<lparr>iDirty := iDirty i\<rparr>\<rparr>),
          r\<lparr>rChan := rChan r', rDrainOps := rDrainOps r'\<rparr>, w'))"

end
