(* ===== verification/ReplicaOps.thy ===== *)
theory ReplicaOps
  imports Replica
begin

text \<open>
  The operations of a replica that is open (\<open>replica/replica.go\<close>): the data path with its revision
  counter, snapshots and reverts, the removal of snapshots, and what is kept in \<open>volume.meta\<close>.
\<close>

section \<open>Data\<close>

definition r_Sync :: "renv \<Rightarrow> replica \<times> fs \<Rightarrow> (int \<times> error option) \<times> replica \<times> fs" where
  "r_Sync E = (\<lambda>(r, w).
     if readOnly r then ((-1, Some (Err ''Can not sync on read-only replica'')), r, w)
     else if rReplicaType r \<noteq> ''quorum'' then
       (case Sync (reF E) (rVolume r, w, rChan r) of ((n, err), d, w', ch) \<Rightarrow>
          ((if err \<noteq> None then n else 0, err),
           r\<lparr>rVolume := d, rChan := ch, rInfo := (rInfo r)\<lparr>iDirty := True\<rparr>\<rparr>, w'))
     else ((0, None), r, w))"

definition r_Unmap :: "renv \<Rightarrow> int \<Rightarrow> int \<Rightarrow> replica \<times> fs \<Rightarrow> (int \<times> error option) \<times> replica \<times> fs" where
  "r_Unmap E offset len = (\<lambda>(r, w).
     if readOnly r then ((-1, Some (Err ''Can not sync on read-only replica'')), r, w)
     else if rReplicaType r \<noteq> ''quorum'' then
       (case Unmap (reF E) offset len (rVolume r, w, rChan r) of ((n, err), d, w', ch) \<Rightarrow>
          ((if err \<noteq> None then n else 0, err),
           r\<lparr>rVolume := d, rChan := ch, rInfo := (rInfo r)\<lparr>iDirty := True\<rparr>\<rparr>, w'))
     else ((0, None), r, w))"

text \<open>
  \<open>WriteAt\<close>: the data, then the revision counter.  The local variable \<open>mode\<close> is only set for a replica
  that holds data.
\<close>

definition r_WriteAt :: "renv \<Rightarrow> byte list \<Rightarrow> int \<Rightarrow> replica \<times> fs \<Rightarrow> (int \<times> error option) \<times> replica \<times> fs" where
  "r_WriteAt E buf offset = (\<lambda>(r, w).
     if readOnly r then ((0, Some (Err ''Can not write on read-only replica'')), r, w)
     else
       let (c, err, md, r1, w1) =
         (if rReplicaType r \<noteq> ''quorum'' then
            (case WriteAt (reF E) (rePunch E) buf offset (rVolume r, w, rChan r) of ((c, err), d, w', ch) \<Rightarrow>
               (c, err, rMode r, r\<lparr>rVolume := d, rChan := ch, rInfo := (rInfo r)\<lparr>iDirty := True\<rparr>\<rparr>, w'))
          else (0, None, ModeStr [], r, w))
       in case err of
            Some e \<Rightarrow> ((c, Some e), r1, w1)
          | None \<Rightarrow>
              if md = RW then
                (case increaseRevisionCounter E (r1, w1) of
                   (Inl e, s) \<Rightarrow> ((c, Some e), s)
                 | (Inr (), s) \<Rightarrow> ((c, None), s))
              else if md \<noteq> WO then ((c, Some (Err ''write happening on invalid rep state'')), r1, w1)
              else ((c, None), r1, w1))"

definition r_ReadAt ::
  "renv \<Rightarrow> byte list \<Rightarrow> int \<Rightarrow> replica \<times> fs \<Rightarrow> ((int \<times> error option) \<times> byte list) \<times> replica \<times> fs" where
  "r_ReadAt E buf offset = (\<lambda>(r, w).
     case ReadAt (reF E) buf offset (rVolume r) w of ((c, err), buf', d) \<Rightarrow> (((c, err), buf'), r\<lparr>rVolume := d\<rparr>, w))"

section \<open>Snapshots\<close>

definition r_Snapshot :: "renv \<Rightarrow> string \<Rightarrow> bool \<Rightarrow> string \<Rightarrow> unit rop" where
  "r_Snapshot E name userCreated created = createDisk E name userCreated created"

definition revertDisk :: "renv \<Rightarrow> string \<Rightarrow> string \<Rightarrow> string \<Rightarrow> replica rop" where
  "revertDisk E parent created now =
     thenR (fsR (os_Stat parent))
    (withR (\<lambda>r. let oldHead = iHead (rInfo r) in
     bindR (createNewHead E oldHead parent created) (\<lambda>(err, f, newHeadDisk).
       case err of
         Some e \<Rightarrow> failR e
       | None \<Rightarrow>
           deferR
             (withR (\<lambda>r. let i = (rInfo r)\<lparr>iHead := dName newHeadDisk, iDirty := True, iParent := dParent newHeadDisk\<rparr> in
              thenR (bindR (attemptR (encodeToFile (enc_info i) volumeMetaData)) (\<lambda>res. case res of
                       Inl e \<Rightarrow> thenR (ignoreR (encodeToFile (enc_info (rInfo r)) volumeMetaData)) (failR e)
                     | Inr _ \<Rightarrow> retR ()))
             (thenR (rmDisk oldHead) (Reload E True now))))
             (\<lambda>_. ignoreR (closeF E f)))))"

definition r_Revert :: "renv \<Rightarrow> string \<Rightarrow> string \<Rightarrow> string \<Rightarrow> replica rop" where
  "r_Revert E name created now = revertDisk E name created now"

section \<open>Removal of a snapshot\<close>

text \<open>The drainer and the goroutine that answers it.\<close>

definition drainHoles :: "renv \<Rightarrow> unit rop" where
  "drainHoles E = (\<lambda>(r, w).
     case CreateHoles (reF E) (holeDrainer (rDrainOps r, rChan r)) w of (err, (ops, ch), w') \<Rightarrow>
       (case err of None \<Rightarrow> Inr () | Some e \<Rightarrow> Inl e, r\<lparr>rDrainOps := ops, rChan := ch\<rparr>, w'))"

definition removeIndexR :: "renv \<Rightarrow> nat \<Rightarrow> unit rop" where
  "removeIndexR E index = (\<lambda>(r, w).
     case RemoveIndex (reF E) index (rVolume r, w, rChan r) of (err, d, w', ch) \<Rightarrow>
       (case err of None \<Rightarrow> Inr () | Some e \<Rightarrow> Inl e, r\<lparr>rVolume := d, rChan := ch\<rparr>, w'))"

definition drop_disk :: "string \<Rightarrow> unit rop" where
  "drop_disk name = modR (\<lambda>r. r\<lparr>diskData := AList.delete name (diskData r)\<rparr>)"

definition removeDiskNode :: "renv \<Rightarrow> string \<Rightarrow> unit rop" where
  "removeDiskNode E name =
     withR (\<lambda>r.
       if map_of (diskData r) name = None then retR ()
       else case children_of name r of
         None \<Rightarrow> thenR (updateChildDisk name []) (drop_disk name)
       | Some children \<Rightarrow>
           if length children > 1 then failR (Err ''Cannot remove snapshot with children'')
           else
             let child = (if children = [] then [] else last children) in
             thenR (updateChildDisk name child)
            (thenR (fatalR (updateParentDisk child name) ''Failed to update parent disk'')
            (thenR (fatalR (updateParentRevisionCounter name) ''Failed to update parent's revision counter'')
            (thenR (drop_disk name)
            (withR (\<lambda>r. let index = findDisk name r in
               if index = 0 then retR ()
               else
                 thenR (fatalR (removeIndexR E index) ''Failed to remove index for disk'')
                (thenR (withR (\<lambda>r. if int (length (activeDiskData r)) - 2 = int index
                          then ptr_of (iHead (rInfo r)) (\<lambda>p. modR (\<lambda>r. r\<lparr>rInfo := (rInfo r)\<lparr>iParent := dParent (rHeap r p)\<rparr>\<rparr>))
                          else retR ()))
                       (modR (\<lambda>r. r\<lparr>activeDiskData := take index (activeDiskData r) @ drop (index + 1) (activeDiskData r)\<rparr>)))))))))"

definition RemoveDiffDisk :: "renv \<Rightarrow> string \<Rightarrow> unit rop" where
  "RemoveDiffDisk E name =
     withR (\<lambda>r.
       thenR (guardR (rMode r = RW) (Err ''Can not delete snapshot in this replica mode''))
      (thenR (guardR (name \<noteq> iHead (rInfo r)) (Err ''Can not delete the active differencing disk''))
      (thenR (guardR (iParent (rInfo r) \<noteq> name) (Err ''Can't delete latest snapshot''))
      (thenR (drainHoles E)
      (thenR (removeDiskNode E name) (rmDisk name))))))"

definition ReplaceDisk :: "renv \<Rightarrow> string \<Rightarrow> string \<Rightarrow> unit rop" where
  "ReplaceDisk E target source =
     withR (\<lambda>r.
       thenR (guardR (rMode r = RW) (Err ''Can not delete snapshot in this replica mode''))
      (thenR (guardR (target \<noteq> iHead (rInfo r)) (Err ''Can not replace the active differencing disk''))
      (thenR (drainHoles E)
      (thenR (hardlinkDisk target source)
      (thenR (removeDiskNode E source)
      (thenR (fatalR (rmDisk source) ''Failed to remove disk'')
      (thenR (add_blocks (-1))
      (withR (\<lambda>r. let index = findDisk target r in
         if index = 0 then retR ()
         else case files (rVolume r) ! index of
           None \<Rightarrow> failR (Panic ''nil file'')
         | Some f \<Rightarrow>
             thenR (fatalR (closeF E f) ''Failed to close old instance of target'')
            (bindR (fatalR (openFile target False) ''Failed to open new instance of target'') (\<lambda>newFile.
              modR (\<lambda>r. r\<lparr>rVolume := (rVolume r)\<lparr>files := (files (rVolume r))[index := Some newFile]\<rparr>\<rparr>)))))))))))) "

definition markDiskAsRemoved :: "string \<Rightarrow> unit rop" where
  "markDiskAsRemoved name =
     withR (\<lambda>r. case map_of (diskData r) name of
        None \<Rightarrow> failR (Err ''Cannot find disk'')
      | Some p \<Rightarrow>
          bindR (existsR name) (\<lambda>ex. thenR (guardR ex (Err ''Cannot find disk file''))
         (bindR (existsR (name @ metadataSuffix)) (\<lambda>ex. thenR (guardR ex (Err ''Cannot find disk metafile''))
         (thenR (set_disk p (\<lambda>d. d\<lparr>dRemoved := True\<rparr>))
                (withR (\<lambda>r. encodeToFile (MDisk (rHeap r p)) (name @ metadataSuffix))))))))"

fun processPrepareRemoveDisks :: "string list \<Rightarrow> replica \<Rightarrow> prepareRemoveAction list result" where
  "processPrepareRemoveDisks [] r = Inr []"
| "processPrepareRemoveDisks (d # ds) r =
     (case map_of (diskData r) d of
        None \<Rightarrow> Inl (Err ''Wrong disk doesn't exist'')
      | Some p \<Rightarrow>
          (case processPrepareRemoveDisks ds r of
             Inl e \<Rightarrow> Inl e
           | Inr acts \<Rightarrow>
               Inr (\<lparr>paAction = OpCoalesce, paSource = d, paTarget = dParent (rHeap r p)\<rparr> #
                    \<lparr>paAction = OpRemove, paSource = d, paTarget = []\<rparr> # acts)))"

definition PrepareRemoveDisk :: "string \<Rightarrow> prepareRemoveAction list rop" where
  "PrepareRemoveDisk name =
     withR (\<lambda>r.
       thenR (guardR (rMode r = RW) (Err ''Can not prepare remove disk in this replica mode''))
       (let d = (if map_of (diskData r) name \<noteq> None then name else GenerateSnapshotDiskName name) in
        case map_of (diskData r) d of
          None \<Rightarrow> retR []
        | Some p \<Rightarrow>
            thenR (guardR (d \<noteq> iHead (rInfo r)) (Err ''Can not delete the active differencing disk''))
           (thenR (guardR (iParent (rInfo r) \<noteq> d) (Err ''Can't delete latest snapshot''))
           (thenR (guardR (dParent (rHeap r p) \<noteq> []) (Err ''Can't delete base snapshot''))
           (thenR (bindR (attemptR (markDiskAsRemoved d))
                     (\<lambda>res. case res of Inl e \<Rightarrow> failR (Err ''Fail to mark disk as removed'') | Inr _ \<Rightarrow> retR ()))
           (withR (\<lambda>r.
             thenR (guardR (map_of (diskData r) (dParent (rHeap r p)) \<noteq> None) (Err ''Can not find snapshot's parent''))
                   (liftC (processPrepareRemoveDisks [d])))))))))"

section \<open>Metadata and life cycle\<close>

definition SetRebuilding :: "bool \<Rightarrow> unit rop" where
  "SetRebuilding rebuilding =
     thenR (writeVolumeMetaData True rebuilding) (modR (\<lambda>r. r\<lparr>rInfo := (rInfo r)\<lparr>iRebuilding := rebuilding\<rparr>\<rparr>))"

definition GetUsage :: "replica \<Rightarrow> volUsage" where
  "GetUsage r = \<lparr>vuRevisionCounter = revisionCache r, vuUsedLogicalBlocks = UsedLogicalBlocks (rVolume r),
     vuUsedBlocks = UsedBlocks (rVolume r), vuSectorSize = sectorSize (rVolume r)\<rparr>"

text \<open>
  The argument of \<open>Resize\<close> is a string or an \<open>int64\<close>.  The comparison of an \<open>int64\<close> in an interface with
  the constant 0, which is an \<open>int\<close>, is a comparison of different types: it finds them different.
\<close>

datatype resizeArg = ResizeString string | ResizeInt int

fun truncate_all :: "int \<Rightarrow> string list \<Rightarrow> unit rop" where
  "truncate_all n [] = retR ()"
| "truncate_all n (f # fs) = thenR (fsR (os_Truncate f n)) (truncate_all n fs)"

definition r_Resize :: "renv \<Rightarrow> resizeArg \<Rightarrow> unit rop" where
  "r_Resize E obj =
     bindR (liftC Chain) (\<lambda>chain.
     bindR (liftC (\<lambda>_. case obj of
        ResizeString s \<Rightarrow> if s \<noteq> [] then reRAMInBytes E s else Inr 0
      | ResizeInt n \<Rightarrow> Inr n)) (\<lambda>sizeInBytes.
     withR (\<lambda>r.
     thenR (guardR (\<not> iSize (rInfo r) > sizeInBytes) (Err ''Previous size is greater''))
    (thenR (truncate_all sizeInBytes chain)
    (thenR (modR (\<lambda>r. r\<lparr>rVolume := (rVolume r)\<lparr>location := location (rVolume r) @
                            replicate (nat ((sizeInBytes - iSize (rInfo r)) sdiv 4096)) 0\<rparr>,
                        rInfo := (rInfo r)\<lparr>iSize := sizeInBytes\<rparr>\<rparr>))
           (withR (\<lambda>r. encodeToFile (enc_info (rInfo r)) volumeMetaData)))))))"

definition UpdateCloneInfo :: "renv \<Rightarrow> string \<Rightarrow> string \<Rightarrow> unit rop" where
  "UpdateCloneInfo E snapName revCount =
     thenR (modR (\<lambda>r. r\<lparr>rInfo := (rInfo r)\<lparr>iParent := ''volume-snap-'' @ snapName @ ''.img''\<rparr>\<rparr>))
    (thenR (withR (\<lambda>r. encodeToFile (enc_info (rInfo r)) volumeMetaData))
    (case ParseInt revCount of
       Inl e \<Rightarrow> failR (Err ''Failed to parse revision count'')
     | Inr revisionCount \<Rightarrow>
         thenR (bindR (attemptR (SetRevisionCounterCloneReplica E revisionCount))
                  (\<lambda>res. case res of Inl e \<Rightarrow> failR (Err ''Failed to set revision counter'') | Inr _ \<Rightarrow> retR ()))
        (withR (\<lambda>r. ptr_of (iHead (rInfo r)) (\<lambda>p.
          thenR (set_disk p (\<lambda>d. d\<lparr>dParent := iParent (rInfo r), dRevisionCounter := revisionCount\<rparr>))
                (withR (\<lambda>r. encodeToFile (MDisk (rHeap r p)) (iHead (rInfo r) @ metadataSuffix))))))))"

fun close_files :: "renv \<Rightarrow> bool \<Rightarrow> nat \<Rightarrow> nat option list \<Rightarrow> unit rop" where
  "close_files E backing i [] = retR ()"
| "close_files E backing i (f # fs) =
     thenR (case f of
        None \<Rightarrow> retR ()
      | Some h \<Rightarrow> if backing \<and> i = 1 then retR () else ignoreR (closeF E h))
       (close_files E backing (i + 1) fs)"

definition r_Close :: "renv \<Rightarrow> unit rop" where
  "r_Close E =
     thenR (modR (\<lambda>r. r\<lparr>rMode := CLOSED\<rparr>))
    (withR (\<lambda>r. thenR (close_files E (iBackingFile (rInfo r) \<noteq> None) 0 (files (rVolume r)))
                       (writeVolumeMetaData False (iRebuilding (rInfo r)))))"

fun rm_disks :: "string \<Rightarrow> string list \<Rightarrow> unit rop" where
  "rm_disks backing [] = retR ()"
| "rm_disks backing (name # names) = thenR (if name \<noteq> backing then rmDisk name else retR ()) (rm_disks backing names)"

definition r_Delete :: "unit rop" where
  "r_Delete =
     withR (\<lambda>r. thenR (rm_disks (iBackingFileName (rInfo r)) (map fst (diskData r)))
       (thenR (fsR (os_Remove volumeMetaData)) (thenR (fsR (os_Remove revisionCounterFile)) SyncDir)))"

definition r_DeleteAll :: "unit rop" where
  "r_DeleteAll = fsR os_RemoveAll"

fun list_disks :: "(string \<times> nat) list \<Rightarrow> (string \<times> diskInfo) list rop" where
  "list_disks [] = retR []"
| "list_disks ((_, p) # ds) =
     withR (\<lambda>r. let d = rHeap r p in
       bindR (getDiskSize (dName d)) (\<lambda>n.
       bindR (list_disks ds) (\<lambda>rest.
         retR (AList.update (dName d)
           \<lparr>diName = dName d, diParent = dParent d,
            diChildren = (case children_of (dName d) r of None \<Rightarrow> [] | Some cs \<Rightarrow> cs),
            diRemoved = dRemoved d, diUserCreated = dUserCreated d, diCreated = dCreated d, diSize = FormatInt n,
            diRevisionCounter = dRevisionCounter d\<rparr> rest))))"

definition ListDisks :: "(string \<times> diskInfo) list rop" where
  "ListDisks = withR (\<lambda>r. list_disks (diskData r))"

definition GetRemainSnapshotCounts :: "renv \<Rightarrow> replica \<Rightarrow> int" where
  "GetRemainSnapshotCounts E r = maxChainLen E - int (length (activeDiskData r))"

definition r_GetCloneStatus :: "string rop" where
  "r_GetCloneStatus =
     bindR (attemptR (fsR (dec_info volumeMetaData None)))
       (\<lambda>res. retR (case res of Inl e \<Rightarrow> [] | Inr i \<Rightarrow> iCloneStatus i))"

definition SetCloneStatus :: "string \<Rightarrow> unit rop" where
  "SetCloneStatus status =
     thenR (modR (\<lambda>r. r\<lparr>rCloneStatus := status, rInfo := (rInfo r)\<lparr>iCloneStatus := status\<rparr>\<rparr>))
       (withR (\<lambda>r. encodeToFile (enc_info (rInfo r)) volumeMetaData))"

definition r_SetReplicaMode :: "string \<Rightarrow> unit rop" where
  "r_SetReplicaMode m =
     (if m = ''RW'' then modR (\<lambda>r. r\<lparr>rMode := RW\<rparr>)
      else if m = ''WO'' then modR (\<lambda>r. r\<lparr>rMode := WO\<rparr>)
      else failR (Err ''invalid mode string''))"

definition r_SetCheckpoint :: "string \<Rightarrow> unit rop" where
  "r_SetCheckpoint snapshotName =
     thenR (modR (\<lambda>r. r\<lparr>rInfo := (rInfo r)\<lparr>iCheckpoint := snapshotName\<rparr>\<rparr>))
       (withR (\<lambda>r. encodeToFile (enc_info (rInfo r)) volumeMetaData))"

text \<open>\<open>CreateTempReplica\<close> reads the stored information and the revision counter only.\<close>

definition CreateTempReplica :: "renv \<Rightarrow> unit rop" where
  "CreateTempReplica E =
     thenR mkdirR
    (thenR (modR (\<lambda>r. (new_replica 0 0 None (rChan r) (rDrainOps r))\<lparr>activeDiskData := [], rVolume := diffDisk0\<lparr>sectorSize := 0\<rparr>\<rparr>))
    (bindR (fsR ReadInfo) (\<lambda>i. thenR (modR (\<lambda>r. r\<lparr>rInfo := i\<rparr>)) (initRevisionCounter E))))"

text \<open>The children that are not in the chain, for parents with more than one child.\<close>

definition SliceContains :: "string list \<Rightarrow> string \<Rightarrow> bool" where
  "SliceContains chain item = list_ex (\<lambda>x. x = item) chain"

definition removeStaleFromChildrenMap :: "unit rop" where
  "removeStaleFromChildrenMap =
     bindR (liftC Chain) (\<lambda>chain. modR (\<lambda>r.
       fold (\<lambda>(parent, children) r.
               if length children \<le> 1 then r
               else fold (\<lambda>child r. if \<not> SliceContains chain child then rmChildDisk parent child r else r) children r)
            (diskChildrenMap r) r))"

end
