(* ===== verification/ReplicaServer.thy ===== *)
theory ReplicaServer
  imports ReplicaOps
begin

text \<open>
  \<open>replica/server.go\<close>: the server that owns at most one open replica.  Its methods hold the server's
  lock, so each is one step; \<open>UpdateLUNMap\<close> releases it while the extents are read and is three steps.
  The channel of holes, its drain flag and \<open>types.ShouldPunchHoles\<close> are global variables: the first two
  are kept in the open replica while there is one.
\<close>

section \<open>State\<close>

datatype state = Initial | Open | Closed | Dirty | Rebuilding | StError

record server =
  sR :: "replica option"
  sReplicaAddress :: string
  sServerType :: string
  sDefaultSectorSize :: int
  sBacking :: "backingFile option"
  sPreload :: bool
  sChan :: "nat hole list"
  sDrainOps :: holeChannelOps
  sShouldPunchHoles :: bool
  sActionChannel :: "string list"

text \<open>The probe of the file system's support for extents, the new identifier of a replica, the clock.\<close>

record senv =
  seR :: renv
  seProbe :: "nat \<Rightarrow> fs \<Rightarrow> error option"
  seUUID :: "string \<Rightarrow> string"
  seNow :: string

type_synonym 'a sop = "server \<times> fs \<Rightarrow> 'a result \<times> server \<times> fs"

definition renv_of :: "senv \<Rightarrow> server \<Rightarrow> renv" where
  "renv_of E s = (seR E)\<lparr>rePunch := sShouldPunchHoles s\<rparr>"

definition NewServer :: "string \<Rightarrow> int \<Rightarrow> string \<Rightarrow> server" where
  "NewServer address ss serverType =
     \<lparr>sR = None, sReplicaAddress = address, sServerType = serverType, sDefaultSectorSize = ss, sBacking = None,
      sPreload = True, sChan = [], sDrainOps = NoDrain, sShouldPunchHoles = False, sActionChannel = []\<rparr>"

text \<open>An operation of the open replica, after the test that there is one.\<close>

definition with_r :: "string \<Rightarrow> 'a rop \<Rightarrow> 'a sop" where
  "with_r msg m = (\<lambda>(s, w). case sR s of
      None \<Rightarrow> (Inl (Err msg), s, w)
    | Some r \<Rightarrow> (case m (r, w) of (x, r', w') \<Rightarrow> (x, s\<lparr>sR := Some r'\<rparr>, w')))"

text \<open>The open replica is dropped; the global variables stay.\<close>

definition drop_r :: "server \<Rightarrow> server" where
  "drop_r s = (case sR s of None \<Rightarrow> s | Some r \<Rightarrow> s\<lparr>sR := None, sChan := rChan r, sDrainOps := rDrainOps r\<rparr>)"

text \<open>\<open>New\<close> without an open replica.\<close>

definition run_new :: "unit rop \<Rightarrow> server \<times> fs \<Rightarrow> replica result \<times> server \<times> fs" where
  "run_new m = (\<lambda>(s, w).
     case m (new_replica 0 0 None (sChan s) (sDrainOps s), w) of
       (x, r, w') \<Rightarrow>
         (case x of Inl e \<Rightarrow> Inl e | Inr () \<Rightarrow> Inr r, s\<lparr>sChan := rChan r, sDrainOps := rDrainOps r\<rparr>, w'))"

section \<open>Life cycle\<close>

definition SetPreload :: "bool \<Rightarrow> server \<Rightarrow> server" where
  "SetPreload b s = s\<lparr>sPreload := b\<rparr>"

text \<open>The channel of actions has room for five; with a full one the caller waits.\<close>

definition s_Start :: "string \<Rightarrow> server \<Rightarrow> server option" where
  "s_Start action s = (if length (sActionChannel s) < 5 then Some (s\<lparr>sActionChannel := sActionChannel s @ [action]\<rparr>) else None)"

definition getSectorSize :: "server \<Rightarrow> int" where
  "getSectorSize s =
     (case sBacking s of Some b \<Rightarrow> if bfSectorSize b > 0 then bfSectorSize b else sDefaultSectorSize s
      | None \<Rightarrow> sDefaultSectorSize s)"

definition getSize :: "server \<Rightarrow> int \<Rightarrow> int" where
  "getSize s sz = (case sBacking s of Some b \<Rightarrow> if bfSize b > 0 then bfSize b else sz | None \<Rightarrow> sz)"

definition createTempFile :: "string \<Rightarrow> fs \<Rightarrow> nat result \<times> fs" where
  "createTempFile filePath w =
     (case os_Stat filePath w of
        (Inl e, w1) \<Rightarrow> if e = ErrNotExist then os_Open True True filePath w1 else (Inl e, w1)
      | (Inr _, w1) \<Rightarrow> os_Open False False filePath w1)"

definition isExtentSupported :: "senv \<Rightarrow> fs \<Rightarrow> unit result \<times> fs" where
  "isExtentSupported E w =
     (case createTempFile ''tmpFile.tmp'' w of
        (Inl e, w1) \<Rightarrow> (Inl e, w1)
      | (Inr f, w1) \<Rightarrow>
          let (res, w5) =
            (case sys (\<lambda>w. (Inr (), w)) w1 of
               (Inl e, w2) \<Rightarrow> (Inl e, w2)
             | (Inr (), w2) \<Rightarrow>
                 (case os_Stat ''tmpFile.tmp'' w2 of
                    (Inl e, w3) \<Rightarrow> (Inl e, w3)
                  | (Inr _, w3) \<Rightarrow> (case seProbe E f w3 of Some e \<Rightarrow> (Inl e, w3) | None \<Rightarrow> os_Close w3)))
          in (res, snd (os_Remove ''tmpFile.tmp'' w5)))"

definition Status :: "server \<times> fs \<Rightarrow> (state \<times> info) \<times> fs" where
  "Status = (\<lambda>(s, w). case sR s of
      None \<Rightarrow>
        (case ReadInfo w of
           (Inl e, w1) \<Rightarrow> (if e = ErrNotExist then (Initial, info0) else (StError, info0), w1)
         | (Inr i, w1) \<Rightarrow> ((Closed, i), w1))
    | Some r \<Rightarrow>
        let i = rInfo r in
        (if iRebuilding i then (Rebuilding, i) else if iDirty i then (Dirty, i) else (Open, i), w))"

definition PrevStatus :: "fs \<Rightarrow> (state \<times> info) \<times> fs" where
  "PrevStatus w =
     (case ReadInfo w of
        (Inl e, w1) \<Rightarrow> (if e = ErrNotExist then (Initial, info0) else (StError, info0), w1)
      | (Inr i, w1) \<Rightarrow> (if iRebuilding i then (Rebuilding, i) else if iDirty i then (Dirty, i) else (Closed, i), w1))"

definition initUUID :: "senv \<Rightarrow> server \<Rightarrow> fs \<Rightarrow> unit result \<times> fs" where
  "initUUID E s w =
     (case ReadInfo w of
        (Inl e, w1) \<Rightarrow> (Inl e, w1)
      | (Inr i, w1) \<Rightarrow>
          if iUUID i = [] then
            let i' = i\<lparr>iUUID := seUUID E (sReplicaAddress s)\<rparr>;
                r = (new_replica 0 0 None [] NoDrain)\<lparr>rInfo := i'\<rparr>
            in (Inr (), snd (snd (writeVolumeMetaData (iDirty i') (iRebuilding i') (r, w1))))
          else (Inr (), w1))"

definition s_Create :: "senv \<Rightarrow> int \<Rightarrow> unit sop" where
  "s_Create E sz = (\<lambda>(s, w).
     case isExtentSupported E w of
       (Inl e, w1) \<Rightarrow> (Inl e, s, w1)
     | (Inr (), w1) \<Rightarrow>
         (case Status (s, w1) of ((st, _), w2) \<Rightarrow>
          let (res, s3, w3) =
            (if st \<noteq> Initial then (Inr (), s, w2)
             else case run_new (thenR (New (renv_of E s) False (getSize s sz) (getSectorSize s) (sBacking s) (sServerType s) (seNow E))
                                      (r_Close (renv_of E s))) (s, w2) of
               (Inl e, s', w') \<Rightarrow> (Inl e, s', w')
             | (Inr _, s', w') \<Rightarrow> (Inr (), s', w'))
          in (res, s3, snd (initUUID E s3 w3))))"

definition s_Open :: "senv \<Rightarrow> unit sop" where
  "s_Open E = (\<lambda>(s, w).
     if sR s \<noteq> None then (Inl (Err ''Replica is already open''), s, w)
     else case Status (s, w) of ((_, i), w1) \<Rightarrow>
       (case run_new (New (renv_of E s) (sPreload s) (getSize s (iSize i)) (getSectorSize s) (sBacking s) (sServerType s) (seNow E)) (s, w1) of
          (Inl e, s2, w2) \<Rightarrow> (Inl e, s2, w2)
        | (Inr r, s2, w2) \<Rightarrow> (Inr (), s2\<lparr>sR := Some r\<rparr>, w2)))"

definition s_Reload :: "senv \<Rightarrow> unit sop" where
  "s_Reload E = (\<lambda>(s, w). case sR s of
      None \<Rightarrow> (Inl (Err ''Reload failed, s.r not set''), s, w)
    | Some r \<Rightarrow>
        let E' = (seR E)\<lparr>rePunch := True\<rparr> in
        (case Reload E' (sPreload s) (seNow E) (r, w) of
           (Inl e, r1, w1) \<Rightarrow> (Inl e, s\<lparr>sR := Some r1, sShouldPunchHoles := False\<rparr>, w1)
         | (Inr new, r1, w1) \<Rightarrow>
             (case r_Close E' (r1, w1) of (_, r2, w2) \<Rightarrow>
                (Inr (), s\<lparr>sR := Some (new\<lparr>rChan := rChan r2, rDrainOps := rDrainOps r2\<rparr>), sShouldPunchHoles := True\<rparr>, w2))))"

definition CheckPreDeleteConditions :: "senv \<Rightarrow> unit sop" where
  "CheckPreDeleteConditions E = (\<lambda>(s, w). with_r ''CheckPreDeleteConditions failed, s.r not set'' (r_Close (renv_of E s)) (s, w))"

definition s_Delete :: "senv \<Rightarrow> unit sop" where
  "s_Delete E = (\<lambda>st. case CheckPreDeleteConditions E st of
      (Inl e, s1, w1) \<Rightarrow> (Inl e, s1, w1)
    | (Inr (), s1, w1) \<Rightarrow> (case with_r [] r_Delete (s1, w1) of (x, s2, w2) \<Rightarrow> (x, drop_r s2, w2)))"

definition s_DeleteAll :: "senv \<Rightarrow> unit sop" where
  "s_DeleteAll E = (\<lambda>st. case CheckPreDeleteConditions E st of
      (Inl e, s1, w1) \<Rightarrow> (Inl e, s1, w1)
    | (Inr (), s1, w1) \<Rightarrow> (case with_r [] r_DeleteAll (s1, w1) of (x, s2, w2) \<Rightarrow> (x, drop_r s2, w2)))"

definition s_Close :: "senv \<Rightarrow> unit sop" where
  "s_Close E = (\<lambda>(s, w).
     if sR s = None then (Inr (), s, w)
     else case with_r [] (thenR (drainHoles (renv_of E s)) (r_Close (renv_of E s))) (s, w) of
       (Inl e, s1, w1) \<Rightarrow> (Inl e, s1, w1)
     | (Inr (), s1, w1) \<Rightarrow> (Inr (), drop_r s1, w1))"

definition PingResponse :: "server \<times> fs \<Rightarrow> error option \<times> fs" where
  "PingResponse st =
     (case Status st of ((x, _), w) \<Rightarrow>
        (if x \<noteq> Open \<and> x \<noteq> Dirty \<and> x \<noteq> Rebuilding then Some (Err ''ping failure'') else None, w))"

section \<open>Operations on the open replica\<close>

definition s_UpdateCloneInfo :: "senv \<Rightarrow> string \<Rightarrow> string \<Rightarrow> unit sop" where
  "s_UpdateCloneInfo E snapName revCount = (\<lambda>(s, w).
     with_r ''UpdateCloneInfo failed, s.r not set'' (UpdateCloneInfo (renv_of E s) snapName revCount) (s, w))"

definition s_Stats :: "server \<Rightarrow> int" where
  "s_Stats s = (case sR s of None \<Rightarrow> 0 | Some r \<Rightarrow> revisionCache r)"

text \<open>\<open>GetRevisionCounter\<close> reads the file with a temporary object.\<close>

definition s_GetRevisionCounter :: "senv \<Rightarrow> server \<times> fs \<Rightarrow> int result \<times> fs" where
  "s_GetRevisionCounter E = (\<lambda>(s, w).
     case initRevisionCounter (renv_of E s) (new_replica 0 0 None [] NoDrain, w) of
       (Inl e, r, w') \<Rightarrow> (Inl e, w')
     | (Inr (), r, w') \<Rightarrow> (Inr (revisionCache r), w'))"

definition s_GetUsage :: "server \<Rightarrow> volUsage" where
  "s_GetUsage s =
     (case sR s of
        Some r \<Rightarrow> GetUsage r
      | None \<Rightarrow> \<lparr>vuRevisionCounter = 0, vuUsedLogicalBlocks = 0, vuUsedBlocks = 0, vuSectorSize = 0\<rparr>)"

definition s_SetRebuilding :: "bool \<Rightarrow> unit sop" where
  "s_SetRebuilding rebuilding = (\<lambda>(s, w). case sR s of
      None \<Rightarrow> (Inl (Err ''SetRebuilding failed, s.r not set''), s, w)
    | Some _ \<Rightarrow>
        (case Status (s, w) of ((st, _), w1) \<Rightarrow>
         if (rebuilding \<and> st \<noteq> Open \<and> st \<noteq> Dirty) \<or> (\<not> rebuilding \<and> st \<noteq> Rebuilding)
         then (Inl (Err ''Can not set rebuilding from this state''), s, w1)
         else with_r [] (SetRebuilding rebuilding) (s, w1)))"

definition s_Resize :: "senv \<Rightarrow> string \<Rightarrow> unit sop" where
  "s_Resize E sz = (\<lambda>(s, w). with_r ''Resize failed, s.r not set'' (r_Resize (renv_of E s) (ResizeString sz)) (s, w))"

definition s_Revert :: "senv \<Rightarrow> string \<Rightarrow> string \<Rightarrow> unit sop" where
  "s_Revert E name created = (\<lambda>(s, w). case sR s of
      None \<Rightarrow> (Inl (Err ''Revert failed, s.r not set''), s, w)
    | Some r \<Rightarrow>
        (case r_Revert (renv_of E s) name created (seNow E) (r, w) of
           (Inl e, r1, w1) \<Rightarrow> (Inl e, s\<lparr>sR := Some r1\<rparr>, w1)
         | (Inr new, r1, w1) \<Rightarrow> (Inr (), s\<lparr>sR := Some (new\<lparr>rChan := rChan r1, rDrainOps := rDrainOps r1\<rparr>)\<rparr>, w1)))"

definition s_Snapshot :: "senv \<Rightarrow> string \<Rightarrow> bool \<Rightarrow> string \<Rightarrow> unit sop" where
  "s_Snapshot E name userCreated createdTime = (\<lambda>(s, w).
     with_r ''Cannot take snapshot, s.r not set'' (r_Snapshot (renv_of E s) name userCreated createdTime) (s, w))"

definition s_RemoveDiffDisk :: "senv \<Rightarrow> string \<Rightarrow> unit sop" where
  "s_RemoveDiffDisk E name = (\<lambda>(s, w). with_r ''RemoveDiffDisk failed, s.r not set'' (RemoveDiffDisk (renv_of E s) name) (s, w))"

definition s_ReplaceDisk :: "senv \<Rightarrow> string \<Rightarrow> string \<Rightarrow> unit sop" where
  "s_ReplaceDisk E target source = (\<lambda>(s, w). with_r ''Replace disk failed, s.r not set'' (ReplaceDisk (renv_of E s) target source) (s, w))"

definition s_PrepareRemoveDisk :: "string \<Rightarrow> prepareRemoveAction list sop" where
  "s_PrepareRemoveDisk name = with_r ''PrepareRemoveDisk failed, s.r not set'' (PrepareRemoveDisk name)"

definition s_SetReplicaMode :: "string \<Rightarrow> unit sop" where
  "s_SetReplicaMode m = with_r ''SetReplicaMode failed, s.r not set'' (r_SetReplicaMode m)"

definition s_SetCheckpoint :: "string \<Rightarrow> unit sop" where
  "s_SetCheckpoint snapshotName = with_r ''SetCheckpoint failed, s.r not set'' (r_SetCheckpoint snapshotName)"

definition s_SetRevisionCounter :: "senv \<Rightarrow> int \<Rightarrow> unit sop" where
  "s_SetRevisionCounter E counter = (\<lambda>(s, w).
     with_r ''SetRevisionCounter failed, s.r not set'' (SetRevisionCounter (renv_of E s) counter) (s, w))"

section \<open>Data\<close>

definition with_data ::
  "int \<Rightarrow> (replica \<times> fs \<Rightarrow> (int \<times> error option) \<times> replica \<times> fs) \<Rightarrow> server \<times> fs \<Rightarrow> (int \<times> error option) \<times> server \<times> fs" where
  "with_data n m = (\<lambda>(s, w). case sR s of
      None \<Rightarrow> ((n, Some (Err ''Volume no longer exist'')), s, w)
    | Some r \<Rightarrow> (case m (r, w) of (x, r', w') \<Rightarrow> (x, s\<lparr>sR := Some r'\<rparr>, w')))"

definition s_Sync :: "senv \<Rightarrow> server \<times> fs \<Rightarrow> (int \<times> error option) \<times> server \<times> fs" where
  "s_Sync E = (\<lambda>(s, w). with_data (-1) (r_Sync (renv_of E s)) (s, w))"

definition s_Unmap :: "senv \<Rightarrow> int \<Rightarrow> int \<Rightarrow> server \<times> fs \<Rightarrow> (int \<times> error option) \<times> server \<times> fs" where
  "s_Unmap E offset len = (\<lambda>(s, w). with_data (-1) (r_Unmap (renv_of E s) offset len) (s, w))"

definition s_WriteAt :: "senv \<Rightarrow> byte list \<Rightarrow> int \<Rightarrow> server \<times> fs \<Rightarrow> (int \<times> error option) \<times> server \<times> fs" where
  "s_WriteAt E buf offset = (\<lambda>(s, w). with_data 0 (r_WriteAt (renv_of E s) buf offset) (s, w))"

definition s_ReadAt :: "senv \<Rightarrow> byte list \<Rightarrow> int \<Rightarrow> server \<times> fs \<Rightarrow> ((int \<times> error option) \<times> byte list) \<times> server \<times> fs" where
  "s_ReadAt E buf offset = (\<lambda>(s, w). case sR s of
      None \<Rightarrow> (((0, Some (Err ''Volume no longer exist'')), buf), s, w)
    | Some r \<Rightarrow> (case r_ReadAt (renv_of E s) buf offset (r, w) of (x, r', w') \<Rightarrow> (x, s\<lparr>sR := Some r'\<rparr>, w')))"

section \<open>Updating the map of a rebuilt volume\<close>

text \<open>
  \<open>UpdateLUNMap\<close>: a copy of the volume with an empty map, made under the lock; the map of the copy is
  read from the extents without the lock; under the lock again, the two maps are merged.
\<close>

definition lun_copy :: "nat diffDisk \<Rightarrow> nat diffDisk" where
  "lun_copy d = d\<lparr>location := replicate (length (location d)) 0, UsedBlocks := 0, UsedLogicalBlocks := 0\<rparr>"

record lun =
  lLocation :: "nat list"
  lHoleLength :: int
  lHoleOffset :: int
  lPrev :: nat
  lExtraUsed :: int
  lExtraLogical :: int
  lChan :: "nat hole list"

definition lun_flush :: "bool \<Rightarrow> nat \<Rightarrow> nat diffDisk \<Rightarrow> lun \<Rightarrow> lun" where
  "lun_flush punch usi v l =
     (if lPrev l > usi \<and> punch \<and> lPrev l \<noteq> 0
      then l\<lparr>lExtraUsed := lExtraUsed l - lHoleLength l,
             lChan := sendToCreateHole (files v ! lPrev l) (lHoleOffset l * sectorSize v) (lHoleLength l * sectorSize v) (lChan l)\<rparr>
      else l)"

definition lun_step :: "bool \<Rightarrow> nat \<Rightarrow> nat diffDisk \<Rightarrow> nat \<Rightarrow> lun \<Rightarrow> lun" where
  "lun_step punch usi v offset l =
     (let fileIndx = location v ! offset; cur = lLocation l ! offset in
      if fileIndx = 0 then
        (if cur \<noteq> 0 then l\<lparr>lExtraUsed := lExtraUsed l + 1, lExtraLogical := lExtraLogical l + 1\<rparr> else l)
      else if cur > fileIndx then
        (let l1 = (if lPrev l \<noteq> fileIndx \<or> int offset \<noteq> lHoleOffset l + lHoleLength l
                   then (lun_flush punch usi v l)\<lparr>lHoleLength := 1, lHoleOffset := int offset, lPrev := fileIndx\<rparr>
                   else l\<lparr>lHoleLength := lHoleLength l + 1\<rparr>)
         in l1\<lparr>lExtraUsed := lExtraUsed l1 + 1\<rparr>)
      else (lun_flush punch usi v (l\<lparr>lLocation := (lLocation l)[offset := fileIndx]\<rparr>))
             \<lparr>lHoleOffset := 0, lHoleLength := 0, lPrev := 0\<rparr>)"

definition lun_merge :: "bool \<Rightarrow> nat diffDisk \<Rightarrow> nat diffDisk \<times> nat hole list \<Rightarrow> nat diffDisk \<times> nat hole list" where
  "lun_merge punch v = (\<lambda>(d, ch).
     let usi = nat (last_user_created (UserCreatedSnap v) 0 0);
         l0 = \<lparr>lLocation = location d, lHoleLength = 0, lHoleOffset = 0, lPrev = 0, lExtraUsed = 0, lExtraLogical = 0, lChan = ch\<rparr>;
         l = lun_flush punch usi v (fold (lun_step punch usi v) [0..<length (location v)] l0)
     in (d\<lparr>location := lLocation l, UsedLogicalBlocks := UsedLogicalBlocks v + lExtraLogical l,
           UsedBlocks := UsedBlocks v + lExtraUsed l + (int (length (files d)) - 1) + 2\<rparr>, lChan l))"

definition UpdateLUNMap_copy :: "server \<Rightarrow> nat diffDisk result" where
  "UpdateLUNMap_copy s =
     (case sR s of None \<Rightarrow> Inl (Err ''UpdateLUNMap failed, s.r not set'') | Some r \<Rightarrow> Inr (lun_copy (rVolume r)))"

definition UpdateLUNMap_merge :: "nat diffDisk \<Rightarrow> server \<Rightarrow> unit result \<times> server" where
  "UpdateLUNMap_merge v s =
     (case sR s of
        None \<Rightarrow> (Inl (Panic ''nil replica''), s)
      | Some r \<Rightarrow>
          if length (location (rVolume r)) < length (location v) then (Inl (Panic ''index out of range''), s)
          else (case lun_merge (sShouldPunchHoles s) v (rVolume r, rChan r) of (d, ch) \<Rightarrow>
                  (Inr (), s\<lparr>sR := Some (r\<lparr>rVolume := d, rChan := ch\<rparr>)\<rparr>)))"

text \<open>The whole, when nothing happens while the lock is free.\<close>

definition UpdateLUNMap :: "senv \<Rightarrow> unit sop" where
  "UpdateLUNMap E = (\<lambda>(s, w).
     case UpdateLUNMap_copy s of
       Inl e \<Rightarrow> (Inl e, s, w)
     | Inr v \<Rightarrow>
         (case sR s of
            None \<Rightarrow> (Inl (Panic ''nil replica''), s, w)
          | Some r \<Rightarrow>
              (case preload (reF (seR E)) (sShouldPunchHoles s) (reFuel (seR E)) (v, w, rChan r) of
                 None \<Rightarrow> (Inl Diverge, s, w)
               | Some (Some e, v', w', ch) \<Rightarrow> (Inl e, s\<lparr>sR := Some (r\<lparr>rChan := ch\<rparr>)\<rparr>, w')
               | Some (None, v', w', ch) \<Rightarrow>
                   (case UpdateLUNMap_merge v' (s\<lparr>sR := Some (r\<lparr>rChan := ch\<rparr>)\<rparr>) of (x, s') \<Rightarrow> (x, s', w')))))"

end
