(* ===== verification/ReplicaRest.thy ===== *)
theory ReplicaRest
  imports ReplicaServer
begin

text \<open>
  \<open>replica/rest\<close>: the HTTP interface of a replica's server.  A request names an action; the action is
  carried out only when the state of the replica offers it, and an answer other than an error is a new
  description of the replica.  Routing, JSON and the writing of responses are the libraries'; an input is
  the value its JSON decodes to.
\<close>

section \<open>The description of a replica\<close>

definition state_string :: "state \<Rightarrow> string" where
  "state_string st = (case st of Initial \<Rightarrow> ''initial'' | Open \<Rightarrow> ''open'' | Closed \<Rightarrow> ''closed'' | Dirty \<Rightarrow> ''dirty''
     | Rebuilding \<Rightarrow> ''rebuilding'' | StError \<Rightarrow> ''error'')"

definition mode_string :: "mode \<Rightarrow> string" where
  "mode_string m = (case m of WO \<Rightarrow> ''WO'' | RW \<Rightarrow> ''RW'' | ERR \<Rightarrow> ''ERR'' | INIT \<Rightarrow> ''INIT'' | CLOSED \<Rightarrow> ''CLOSED'' | ModeStr s \<Rightarrow> s)"

text \<open>The actions that \<open>NewReplica\<close> offers in a state.\<close>

fun actions_of :: "state \<Rightarrow> string list" where
  "actions_of Initial = [''start'', ''create'', ''resize'', ''updatecloneinfo'']"
| "actions_of Open = [''start'', ''resize'', ''close'', ''updatediskmode'', ''setrebuilding'', ''setlogging'', ''snapshot'',
     ''reload'', ''removedisk'', ''replacedisk'', ''revert'', ''prepareremovedisk'', ''setreplicamode'', ''setrevisioncounter'',
     ''updatecloneinfo'', ''setreplicacounter'', ''setcheckpoint'']"
| "actions_of Closed = [''start'', ''open'', ''resize'', ''removedisk'', ''replacedisk'', ''revert'', ''updatecloneinfo'',
     ''prepareremovedisk'', ''setreplicacounter'']"
| "actions_of Dirty = [''start'', ''resize'', ''setrebuilding'', ''setlogging'', ''close'', ''snapshot'', ''reload'', ''removedisk'',
     ''replacedisk'', ''updatediskmode'', ''revert'', ''setreplicamode'', ''prepareremovedisk'', ''setreplicacounter'',
     ''updatecloneinfo'', ''setcheckpoint'']"
| "actions_of Rebuilding = [''setrebuilding'', ''setlogging'', ''close'', ''reload'', ''setreplicamode'', ''setrevisioncounter'',
     ''setreplicacounter'', ''updatecloneinfo'', ''setcheckpoint'']"
| "actions_of StError = []"

text \<open>The part of \<open>NewReplica\<close> that asks the open replica; the chain is empty when \<open>DisplayChain\<close> has an error.\<close>

definition describe_open :: "renv \<Rightarrow> replicaInfo \<Rightarrow> replicaInfo rop" where
  "describe_open E i =
     withR (\<lambda>r. let chain = (case DisplayChain r of Inr c \<Rightarrow> c | Inl _ \<Rightarrow> []) in
     thenR (case DisplayChain r of Inl Diverge \<Rightarrow> failR Diverge | _ \<Rightarrow> retR ())
    (bindR ListDisks (\<lambda>disks.
     bindR (GetRevisionCounter E) (\<lambda>rc.
     bindR r_GetCloneStatus (\<lambda>cs.
     retR (i\<lparr>riChain := chain, riDisks := disks, riRemainSnapshots := GetRemainSnapshotCounts E r,
             riRevisionCounter := FormatInt rc, riReplicaMode := mode_string (rMode r), riCloneStatus := cs,
             riUsedBlocks := FormatInt (UsedBlocks (rVolume r)),
             riUsedLogicalBlocks := FormatInt (UsedLogicalBlocks (rVolume r))\<rparr>))))))"

definition NewReplica :: "senv \<Rightarrow> state \<Rightarrow> info \<Rightarrow> (string list \<times> replicaInfo) sop" where
  "NewReplica E st i = (\<lambda>(s, w).
     let base = \<lparr>riDirty = iDirty i, riRebuilding = iRebuilding i, riHead = iHead i, riParent = iParent i,
           riSize = FormatInt (iSize i), riSectorSize = iSectorSize i, riState = state_string st, riChain = [], riDisks = [],
           riRemainSnapshots = 0, riReplicaMode = [], riRevisionCounter = FormatInt (iRevisionCounter i),
           riUsedLogicalBlocks = ''0'', riUsedBlocks = ''0'', riCloneStatus = [], riCheckpoint = iCheckpoint i\<rparr> in
     case sR s of
       None \<Rightarrow> (Inr (actions_of st, base), s, w)
     | Some r \<Rightarrow>
         (case describe_open (renv_of E s) base (r, w) of
            (Inl e, r', w') \<Rightarrow> (Inl e, s\<lparr>sR := Some r'\<rparr>, w')
          | (Inr x, r', w') \<Rightarrow> (Inr (actions_of st, x), s\<lparr>sR := Some r'\<rparr>, w')))"

definition rest_Replica :: "senv \<Rightarrow> (string list \<times> replicaInfo) sop" where
  "rest_Replica E = (\<lambda>(s, w).
     case Status (s, w) of ((st, i), w1) \<Rightarrow>
     case s_GetRevisionCounter E (s, w1) of (rc, w2) \<Rightarrow>
       NewReplica E st (i\<lparr>iRevisionCounter := (case rc of Inl _ \<Rightarrow> 0 | Inr n \<Rightarrow> n)\<rparr>) (s, w2))"

definition GetReplica :: "senv \<Rightarrow> replicaInfo sop" where
  "GetReplica E = (\<lambda>st. case rest_Replica E st of (Inl e, st') \<Rightarrow> (Inl e, st') | (Inr (_, i), st') \<Rightarrow> (Inr i, st'))"

section \<open>Actions\<close>

datatype rest_action =
    AStart string
  | AReload
  | AUpdateCloneInfo string string
  | ASnapshot string bool string
  | AOpen
  | AClose
  | AResize string
  | ARemoveDisk string
  | AReplaceDisk string string
  | ASetRebuilding bool
  | ACreate string
  | ARevert string string
  | APrepareRemoveDisk string
  | ASetRevisionCounter string
  | ASetReplicaMode string
  | ASetCheckpoint string

fun action_name :: "rest_action \<Rightarrow> string" where
  "action_name (AStart _) = ''start''"
| "action_name AReload = ''reload''"
| "action_name (AUpdateCloneInfo _ _) = ''updatecloneinfo''"
| "action_name (ASnapshot _ _ _) = ''snapshot''"
| "action_name AOpen = ''open''"
| "action_name AClose = ''close''"
| "action_name (AResize _) = ''resize''"
| "action_name (ARemoveDisk _) = ''removedisk''"
| "action_name (AReplaceDisk _ _) = ''replacedisk''"
| "action_name (ASetRebuilding _) = ''setrebuilding''"
| "action_name (ACreate _) = ''create''"
| "action_name (ARevert _ _) = ''revert''"
| "action_name (APrepareRemoveDisk _) = ''prepareremovedisk''"
| "action_name (ASetRevisionCounter _) = ''setrevisioncounter''"
| "action_name (ASetReplicaMode _) = ''setreplicamode''"
| "action_name (ASetCheckpoint _) = ''setcheckpoint''"

text \<open>What the handlers do, one for each action.\<close>

definition StartReplica :: "string \<Rightarrow> unit sop" where
  "StartReplica v = (\<lambda>(s, w). case s_Start v s of None \<Rightarrow> (Inl Diverge, s, w) | Some s' \<Rightarrow> (Inr (), s', w))"

definition CreateReplica :: "senv \<Rightarrow> string \<Rightarrow> unit sop" where
  "CreateReplica E sz = (\<lambda>(s, w).
     if sz = [] then s_Create E 0 (s, w)
     else case ParseInt sz of Inl e \<Rightarrow> (Inl e, s, w) | Inr n \<Rightarrow> s_Create E n (s, w))"

definition SnapshotReplica :: "senv \<Rightarrow> string \<Rightarrow> bool \<Rightarrow> string \<Rightarrow> unit sop" where
  "SnapshotReplica E name userCreated created = (\<lambda>(s, w).
     if name = [] then (Inl (Err ''Cannot accept empty snapshot name''), s, w)
     else if created = [] then (Inl (Err ''Need to specific created time''), s, w)
     else s_Snapshot E name userCreated created (s, w))"

definition RevertReplica :: "senv \<Rightarrow> string \<Rightarrow> string \<Rightarrow> unit sop" where
  "RevertReplica E name created = (\<lambda>(s, w).
     if name = [] then (Inl (Err ''Cannot accept empty snapshot name''), s, w)
     else if created = [] then (Inl (Err ''Need to specific created time''), s, w)
     else s_Revert E name created (s, w))"

definition rest_SetRevisionCounter :: "senv \<Rightarrow> string \<Rightarrow> unit sop" where
  "rest_SetRevisionCounter E counter = s_SetRevisionCounter E (ParseInt_value counter)"

fun handler :: "senv \<Rightarrow> rest_action \<Rightarrow> unit sop" where
  "handler E (AStart v) = StartReplica v"
| "handler E AReload = s_Reload E"
| "handler E (AUpdateCloneInfo snapName rc) = s_UpdateCloneInfo E snapName rc"
| "handler E (ASnapshot name u created) = SnapshotReplica E name u created"
| "handler E AOpen = s_Open E"
| "handler E AClose = s_Close E"
| "handler E (AResize sz) = s_Resize E sz"
| "handler E (ARemoveDisk name) = s_RemoveDiffDisk E name"
| "handler E (AReplaceDisk target source) = s_ReplaceDisk E target source"
| "handler E (ASetRebuilding b) = s_SetRebuilding b"
| "handler E (ACreate sz) = CreateReplica E sz"
| "handler E (ARevert name created) = RevertReplica E name created"
| "handler E (APrepareRemoveDisk name) = (\<lambda>st. case s_PrepareRemoveDisk name st of (Inl e, st') \<Rightarrow> (Inl e, st') | (Inr _, st') \<Rightarrow> (Inr (), st'))"
| "handler E (ASetRevisionCounter counter) = rest_SetRevisionCounter E counter"
| "handler E (ASetReplicaMode m) = s_SetReplicaMode m"
| "handler E (ASetCheckpoint name) = s_SetCheckpoint name"

text \<open>
  \<open>checkAction\<close>, the handler, and \<open>doOp\<close>, which describes the replica after a success.  The answer of
  \<open>prepareremovedisk\<close> is the list of operations instead.
\<close>

definition doOp :: "senv \<Rightarrow> rest_action \<Rightarrow> unit sop" where
  "doOp E a = (\<lambda>st. case a of
      APrepareRemoveDisk _ \<Rightarrow> (Inr (), st)
    | _ \<Rightarrow> (case rest_Replica E st of (Inl e, st') \<Rightarrow> (Inl e, st') | (Inr _, st') \<Rightarrow> (Inr (), st')))"

definition checkAction :: "senv \<Rightarrow> rest_action \<Rightarrow> unit sop" where
  "checkAction E a = (\<lambda>st. case rest_Replica E st of
      (Inl e, st1) \<Rightarrow> (Inl e, st1)
    | (Inr (actions, _), st1) \<Rightarrow>
        if action_name a \<notin> set actions then (Inl (Err ''404 Not Found''), st1)
        else (case handler E a st1 of (Inl e, st2) \<Rightarrow> (Inl e, st2) | (Inr (), st2) \<Rightarrow> doOp E a st2))"

section \<open>Deletion and reports\<close>

definition DeleteReplica :: "senv \<Rightarrow> unit sop" where
  "DeleteReplica E = (\<lambda>st. case s_Delete E st of
      (Inl e, st1) \<Rightarrow> (Inl e, st1)
    | (Inr (), st1) \<Rightarrow> (case rest_Replica E st1 of (Inl e, st2) \<Rightarrow> (Inl e, st2) | (Inr _, st2) \<Rightarrow> (Inr (), st2)))"

definition DeleteVolume :: "senv \<Rightarrow> unit sop" where
  "DeleteVolume E = s_DeleteAll E"

definition ListReplicas :: "senv \<Rightarrow> (string list \<times> replicaInfo) list sop" where
  "ListReplicas E = (\<lambda>st. case rest_Replica E st of (Inl e, st1) \<Rightarrow> (Inl e, st1) | (Inr r, st1) \<Rightarrow> (Inr [r], st1))"

text \<open>The numbers of \<open>volusage\<close> travel as decimal strings.\<close>

record usageStrings =
  usRevisionCounter :: string
  usUsedLogicalBlocks :: string
  usUsedBlocks :: string
  usSectorSize :: string

definition GetVolUsage :: "usageStrings sop" where
  "GetVolUsage = (\<lambda>(s, w). let u = s_GetUsage s in
     (Inr \<lparr>usRevisionCounter = FormatInt (vuRevisionCounter u), usUsedLogicalBlocks = FormatInt (vuUsedLogicalBlocks u),
           usUsedBlocks = FormatInt (vuUsedBlocks u), usSectorSize = FormatInt (vuSectorSize u)\<rparr>, s, w))"

end
