(* ===== verification/Wire.thy ===== *)
theory Wire
  imports Prelude
begin

text \<open>
  \<open>rpc/wire.go\<close> and \<open>rpc/types.go\<close>: the messages between the controller and a replica and their
  encoding on a connection.  A connection delivers a sequence of bytes; its end is the end of the list.
\<close>

section \<open>Messages\<close>

record message =
  MsgMagicVersion :: "16 word"
  Seq :: "32 word"
  Type :: "32 word"
  Offset :: int
  Data :: "byte list"
  Size :: int

definition TypeRead :: "32 word" where
  "TypeRead = 0"

definition TypeWrite :: "32 word" where
  "TypeWrite = 1"

definition TypeResponse :: "32 word" where
  "TypeResponse = 2"

definition TypeError :: "32 word" where
  "TypeError = 3"

definition TypeEOF :: "32 word" where
  "TypeEOF = 4"

definition TypePing :: "32 word" where
  "TypePing = 6"

definition TypeSync :: "32 word" where
  "TypeSync = 8"

definition TypeUnmap :: "32 word" where
  "TypeUnmap = 9"

lemmas type_defs = TypeRead_def TypeWrite_def TypeResponse_def TypeError_def TypeEOF_def TypePing_def TypeSync_def TypeUnmap_def

definition MagicVersion :: "16 word" where
  "MagicVersion = 0x1b03"

section \<open>Little-endian numbers\<close>

fun le_bytes :: "nat \<Rightarrow> nat \<Rightarrow> byte list" where
  "le_bytes 0 n = []"
| "le_bytes (Suc k) n = word_of_nat (n mod 256) # le_bytes k (n div 256)"

fun le_value :: "byte list \<Rightarrow> nat" where
  "le_value [] = 0"
| "le_value (b # bs) = unat b + 256 * le_value bs"

lemma length_le_bytes [simp]: "length (le_bytes k n) = k"
  by (induction k arbitrary: n) auto

lemma le_value_bytes [simp]: "le_value (le_bytes k n) = n mod 256 ^ k"
proof (induction k arbitrary: n)
  case (Suc k)
  have "unat (word_of_nat (n mod 256) :: byte) = n mod 256" by (simp add: unat_of_nat)
  then show ?case using Suc by (simp add: mod_mult2_eq)
qed simp

lemma le_value_less: "le_value bs < 256 ^ length bs"
proof (induction bs)
  case (Cons b bs)
  have "unat b < 256" using unsigned_less [of b] by simp
  then have "unat b \<le> 255" by simp
  then show ?case using Cons by simp
qed simp

lemma le_bytes_value [simp]: "le_bytes (length bs) (le_value bs) = bs"
proof (induction bs)
  case (Cons b bs)
  have b: "unat b < 256" using unsigned_less [of b] by simp
  then have "word_of_nat ((unat b + 256 * le_value bs) mod 256) = b" by simp
  then show ?case using Cons b by simp
qed simp

section \<open>Encoding and decoding\<close>

definition wire_Write :: "message \<Rightarrow> byte list" where
  "wire_Write m =
     le_bytes 2 (unat (MsgMagicVersion m)) @ le_bytes 4 (unat (Seq m)) @ le_bytes 4 (unat (Type m)) @
     le_bytes 8 (nat (Offset m mod 2 ^ 64)) @ le_bytes 8 (nat (Size m mod 2 ^ 64)) @
     le_bytes 4 (length (Data m)) @ Data m"

text \<open>\<open>io.ReadFull\<close>: the bytes asked for, or the end of the input before or within them.\<close>

definition read_full :: "nat \<Rightarrow> byte list \<Rightarrow> (byte list \<times> byte list) result" where
  "read_full n s =
     (if n \<le> length s then Inr (take n s, drop n s)
      else if s = [] then Inl EOF else Inl (Err ''unexpected EOF''))"

text \<open>A read, and what follows it when it succeeds.\<close>

definition reading :: "nat \<Rightarrow> byte list \<Rightarrow> (byte list \<Rightarrow> byte list \<Rightarrow> 'a result) \<Rightarrow> 'a result" where
  "reading n s k = (case read_full n s of Inl e \<Rightarrow> Inl e | Inr (x, s') \<Rightarrow> k x s')"

definition wire_Read :: "byte list \<Rightarrow> (message \<times> byte list) result" where
  "wire_Read s =
     reading 2 s (\<lambda>mv s1.
     if word_of_nat (le_value mv) \<noteq> MagicVersion then Inl (Err ''Wrong API version received'')
     else
     reading 4 s1 (\<lambda>sq s2.
     reading 4 s2 (\<lambda>ty s3.
     reading 8 s3 (\<lambda>off s4.
     reading 8 s4 (\<lambda>sz s5.
     reading 4 s5 (\<lambda>len s6.
     reading (le_value len) s6 (\<lambda>d s7.
       Inr (\<lparr>MsgMagicVersion = word_of_nat (le_value mv), Seq = word_of_nat (le_value sq),
             Type = word_of_nat (le_value ty), Offset = i64 (int (le_value off)), Data = d,
             Size = i64 (int (le_value sz))\<rparr>, s7))))))))"

section \<open>Round trip\<close>

lemma reading_append: "length xs = n \<Longrightarrow> reading n (xs @ ys) k = k xs ys"
  by (simp add: reading_def read_full_def)

definition fits :: "message \<Rightarrow> bool" where
  "fits m \<longleftrightarrow> MsgMagicVersion m = MagicVersion \<and> - (2 ^ 63) \<le> Offset m \<and> Offset m < 2 ^ 63 \<and>
     - (2 ^ 63) \<le> Size m \<and> Size m < 2 ^ 63 \<and> length (Data m) < 2 ^ 32"

lemma i64_wrap: "- (2 ^ 63) \<le> x \<Longrightarrow> x < 2 ^ 63 \<Longrightarrow> i64 (int (nat (x mod 2 ^ 64))) = x"
proof -
  assume x: "- (2 ^ 63) \<le> x" "x < 2 ^ 63"
  have "i64 (int (nat (x mod 2 ^ 64))) = i64 x" by (simp add: i64_def mod_simps)
  then show ?thesis using i64_id [OF x] by simp
qed

lemma le_word:
  "256 ^ k = (2 :: nat) ^ LENGTH('a) \<Longrightarrow> word_of_nat (le_value (le_bytes k (unat w))) = (w :: 'a :: len word)"
proof -
  assume k: "256 ^ k = (2 :: nat) ^ LENGTH('a)"
  have "unat w < 2 ^ LENGTH('a)" by (rule unsigned_less)
  then have "le_value (le_bytes k (unat w)) = unat w" by (simp add: k)
  then show ?thesis by simp
qed

lemma wire_Read_fields:
  assumes "length mv = 2" "length sq = 4" "length ty = 4" "length off = 8" "length sz = 8" "length len = 4"
    "word_of_nat (le_value mv) = MagicVersion" "le_value len = length d"
  shows "wire_Read (mv @ sq @ ty @ off @ sz @ len @ d @ s) =
    Inr (\<lparr>MsgMagicVersion = MagicVersion, Seq = word_of_nat (le_value sq), Type = word_of_nat (le_value ty),
          Offset = i64 (int (le_value off)), Data = d, Size = i64 (int (le_value sz))\<rparr>, s)"
  using assms(7,8) unfolding wire_Read_def by (simp add: reading_append assms(1-6))

lemma wire_Read_Write:
  assumes "fits m"
  shows "wire_Read (wire_Write m @ s) = Inr (m, s)"
proof -
  have wd: "word_of_nat (le_value (le_bytes 2 (unat (MsgMagicVersion m)))) = MagicVersion"
    "word_of_nat (le_value (le_bytes 4 (unat (Seq m)))) = Seq m"
    "word_of_nat (le_value (le_bytes 4 (unat (Type m)))) = Type m"
    using assms by (subst le_word; simp add: fits_def)+
  have off: "i64 (int (le_value (le_bytes 8 (nat (Offset m mod 2 ^ 64))))) = Offset m"
    "i64 (int (le_value (le_bytes 8 (nat (Size m mod 2 ^ 64))))) = Size m"
    using assms i64_wrap [of "Offset m"] i64_wrap [of "Size m"] by (simp_all add: fits_def nat_mod_distrib)
  have len: "le_value (le_bytes 4 (length (Data m))) = length (Data m)" using assms by (simp add: fits_def)
  show ?thesis
    unfolding wire_Write_def append_assoc
    using assms by (subst wire_Read_fields) (simp_all only: length_le_bytes wd off len, simp add: fits_def)
qed

text \<open>A stream of messages is read back message by message.\<close>

fun read_all :: "nat \<Rightarrow> byte list \<Rightarrow> message list result" where
  "read_all 0 s = Inl Diverge"
| "read_all (Suc n) s =
     (if s = [] then Inr []
      else case wire_Read s of
        Inl e \<Rightarrow> Inl e
      | Inr (m, s') \<Rightarrow> (case read_all n s' of Inl e \<Rightarrow> Inl e | Inr ms \<Rightarrow> Inr (m # ms)))"

lemma wire_Write_not_Nil [simp]: "wire_Write m \<noteq> []"
proof -
  have "2 \<le> length (wire_Write m)" by (simp add: wire_Write_def)
  then show ?thesis by auto
qed

lemma read_all_stream:
  "\<forall>m\<in>set ms. fits m \<Longrightarrow> length ms < n \<Longrightarrow> read_all n (concat (map wire_Write ms)) = Inr ms"
proof (induction ms arbitrary: n)
  case Nil then show ?case by (cases n) auto
next
  case (Cons m ms) then show ?case by (cases n) (auto simp: wire_Read_Write)
qed

section \<open>Incomplete input\<close>

text \<open>A reader whose answer does not depend on what comes after the bytes it has read.\<close>

definition streaming :: "(byte list \<Rightarrow> ('a \<times> byte list) result) \<Rightarrow> bool" where
  "streaming f \<longleftrightarrow> (\<forall>s y s' t. f s = Inr (y, s') \<longrightarrow> f (s @ t) = Inr (y, s' @ t))"

lemma streaming_return [intro]: "streaming (\<lambda>s. Inr (c, s))"
  by (simp add: streaming_def)

lemma streaming_if [intro]: "streaming f \<Longrightarrow> streaming (\<lambda>s. if b then Inl e else f s)"
  by (simp add: streaming_def)

lemma streaming_reading [intro]: "(\<And>x. streaming (k x)) \<Longrightarrow> streaming (\<lambda>s. reading n s k)"
  by (auto simp: streaming_def reading_def read_full_def split: if_splits)

lemma streaming_wire_Read: "streaming wire_Read"
  unfolding wire_Read_def [abs_def] by (intro streaming_return streaming_if streaming_reading)

lemma wire_Read_truncated:
  assumes "fits m" "k < length (wire_Write m)"
  shows "\<exists>e. wire_Read (take k (wire_Write m)) = Inl e"
proof (cases "wire_Read (take k (wire_Write m))")
  case (Inr y)
  obtain m' s' where y: "y = (m', s')" by fastforce
  have "wire_Read (take k (wire_Write m) @ drop k (wire_Write m)) = Inr (m', s' @ drop k (wire_Write m))"
    using streaming_wire_Read Inr y by (simp only: streaming_def)
  then show ?thesis using wire_Read_Write [OF assms(1), of "[]"] assms(2) by simp
qed simp

end
