(* ===== verification/Rpc.thy ===== *)
theory Rpc
  imports Wire DiffDisk
begin

text \<open>
  \<open>rpc/server.go\<close> and \<open>rpc/client.go\<close>: requests of the controller to a replica over one connection.
  The client numbers its requests and matches responses by number; the server answers the requests in
  the order of the connection.
\<close>

section \<open>The server\<close>

text \<open>\<open>types.DataProcessor\<close>, what the server calls, over a state \<open>'s\<close>.\<close>

record 's data_ops =
  dpReadAt :: "byte list \<Rightarrow> int \<Rightarrow> 's \<Rightarrow> ((int \<times> error option) \<times> byte list) \<times> 's"
  dpWriteAt :: "byte list \<Rightarrow> int \<Rightarrow> 's \<Rightarrow> (int \<times> error option) \<times> 's"
  dpSync :: "'s \<Rightarrow> (int \<times> error option) \<times> 's"
  dpUnmap :: "int \<Rightarrow> int \<Rightarrow> 's \<Rightarrow> (int \<times> error option) \<times> 's"
  dpPingResponse :: "'s \<Rightarrow> error option \<times> 's"

text \<open>\<open>err.Error()\<close>, as bytes, and back.\<close>

fun error_text :: "error \<Rightarrow> string" where
  "error_text (Err s) = s"
| "error_text EOF = ''EOF''"
| "error_text ErrNotExist = ''file does not exist''"
| "error_text IOErr = ''input/output error''"
| "error_text ErrNoBackend = ''No backend available''"
| "error_text _ = []"

definition bytes_of :: "string \<Rightarrow> byte list" where
  "bytes_of s = map (\<lambda>c. word_of_nat (of_char c)) s"

definition text_of :: "byte list \<Rightarrow> string" where
  "text_of bs = map (\<lambda>b. char_of (unat b)) bs"

text \<open>The end of the data cuts a buffer that is not nil; the slice is out of range for a larger count.\<close>

definition createResponse :: "int \<Rightarrow> message \<Rightarrow> error option \<Rightarrow> message result" where
  "createResponse count msg err =
     (let m1 = msg\<lparr>MsgMagicVersion := MagicVersion, Size := int (length (Data msg))\<rparr>;
          m2 = (if Type msg = TypeWrite then m1\<lparr>Data := []\<rparr> else m1);
          m3 = m2\<lparr>Type := TypeResponse\<rparr>
      in case err of
           None \<Rightarrow> Inr m3
         | Some EOF \<Rightarrow>
             if Type msg = TypeWrite \<or> Type msg \<noteq> TypeRead \<and> Data msg = [] then Inr (m3\<lparr>Type := TypeEOF, Size := int (length (Data m3))\<rparr>)
             else if count < 0 \<or> count > int (length (Data m3)) then Inl (Panic ''slice bounds out of range'')
             else Inr (m3\<lparr>Type := TypeEOF, Data := take (nat count) (Data m3), Size := count\<rparr>)
         | Some e \<Rightarrow> Inr (m3\<lparr>Type := TypeError, Data := bytes_of (error_text e), Size := int (length (error_text e))\<rparr>))"

text \<open>An input/output error ends the process, and so does a panic in the call.\<close>

definition answer :: "int \<Rightarrow> message \<Rightarrow> error option \<Rightarrow> message result" where
  "answer count msg err =
     (case err of
        None \<Rightarrow> createResponse count msg None
      | Some e \<Rightarrow>
          if crashes e then Inl e
          else if e = IOErr then Inl (Fatal ''Exiting...'')
          else createResponse count msg (Some e))"

text \<open>The handlers: the answer that is written to the connection, and the state after the call.\<close>

definition handleRead :: "'s data_ops \<Rightarrow> message \<Rightarrow> 's \<Rightarrow> message result \<times> 's" where
  "handleRead D msg s =
     (if Size msg < 0 then (Inl (Panic ''makeslice: len out of range''), s)
      else case dpReadAt D (replicate (nat (Size msg)) 0) (Offset msg) s of
        (((c, err), buf), s') \<Rightarrow> (answer c (msg\<lparr>Data := buf\<rparr>) err, s'))"

definition handleWrite :: "'s data_ops \<Rightarrow> message \<Rightarrow> 's \<Rightarrow> message result \<times> 's" where
  "handleWrite D msg s = (case dpWriteAt D (Data msg) (Offset msg) s of ((c, err), s') \<Rightarrow> (answer c msg err, s'))"

definition handlePing :: "'s data_ops \<Rightarrow> message \<Rightarrow> 's \<Rightarrow> message result \<times> 's" where
  "handlePing D msg s = (case dpPingResponse D s of (err, s') \<Rightarrow> (createResponse 0 msg err, s'))"

definition handleSync :: "'s data_ops \<Rightarrow> message \<Rightarrow> 's \<Rightarrow> message result \<times> 's" where
  "handleSync D msg s = (case dpSync D s of ((_, err), s') \<Rightarrow> (answer 0 msg err, s'))"

definition handleUnmap :: "'s data_ops \<Rightarrow> message \<Rightarrow> 's \<Rightarrow> message result \<times> 's" where
  "handleUnmap D msg s = (case dpUnmap D (Offset msg) (Size msg) s of ((_, err), s') \<Rightarrow> (answer 0 msg err, s'))"

text \<open>One turn of \<open>readWrite\<close>, from the message read to the message written; other types are sent back.\<close>

definition handle :: "'s data_ops \<Rightarrow> message \<Rightarrow> 's \<Rightarrow> message result \<times> 's" where
  "handle D msg s =
     (if Type msg = TypeRead then handleRead D msg s
      else if Type msg = TypeWrite then handleWrite D msg s
      else if Type msg = TypePing then handlePing D msg s
      else if Type msg = TypeSync then handleSync D msg s
      else if Type msg = TypeUnmap then handleUnmap D msg s
      else (Inr msg, s))"

lemmas handle_defs = handle_def handleRead_def handleWrite_def handlePing_def handleSync_def handleUnmap_def

section \<open>The client\<close>

text \<open>
  The outstanding requests are kept with the operation that waits for them (\<open>'i\<close>); the requests that
  are complete carry the response.  \<open>clCloseChan\<close> counts the signals sent to the monitor of the backend.
\<close>

record 'i client =
  clSeq :: "32 word"
  clMessages :: "(32 word \<times> 'i \<times> message) list"
  clSend :: "message list"
  clErr :: "error option"
  clDone :: "('i \<times> message) list"
  clCloseChan :: nat

definition NewClient :: "'i client" where
  "NewClient = \<lparr>clSeq = 0, clMessages = [], clSend = [], clErr = None, clDone = [], clCloseChan = 0\<rparr>"

definition request_of :: "32 word \<Rightarrow> byte list \<Rightarrow> int \<Rightarrow> int \<Rightarrow> message" where
  "request_of op buf offset len =
     \<lparr>MsgMagicVersion = 0, Seq = 0, Type = op, Offset = offset, Data = (if op = TypeWrite then buf else []), Size = len\<rparr>"

definition replyError :: "'i \<Rightarrow> message \<Rightarrow> error \<Rightarrow> 'i client \<Rightarrow> 'i client" where
  "replyError i req e c =
     c\<lparr>clMessages := filter (\<lambda>(s, _). s \<noteq> Seq req) (clMessages c),
       clDone := clDone c @ [(i, req\<lparr>Type := TypeError, Data := bytes_of (error_text e)\<rparr>)]\<rparr>"

definition handleRequest :: "'i \<Rightarrow> message \<Rightarrow> 'i client \<Rightarrow> 'i client" where
  "handleRequest i req c =
     (case clErr c of
        Some e \<Rightarrow> replyError i req e c
      | None \<Rightarrow>
          let sq = clSeq c + 1; req' = req\<lparr>MsgMagicVersion := MagicVersion, Seq := sq\<rparr>
          in c\<lparr>clSeq := sq, clMessages := (sq, i, req') # filter (\<lambda>(s, _). s \<noteq> sq) (clMessages c),
               clSend := clSend c @ [req']\<rparr>)"

datatype response = TransportErr error | Response message

definition reply_all :: "error \<Rightarrow> 'i client \<Rightarrow> 'i client" where
  "reply_all e c = fold (\<lambda>(s, i, req) c. replyError i req e c) (clMessages c) c"

fun handleResponse :: "response \<Rightarrow> 'i client \<Rightarrow> 'i client" where
  "handleResponse (TransportErr e) c = reply_all e (c\<lparr>clErr := Some e, clCloseChan := clCloseChan c + 1\<rparr>)"
| "handleResponse (Response resp) c =
     (case map_of (clMessages c) (Seq resp) of
        None \<Rightarrow> c
      | Some (i, req) \<Rightarrow>
          (case clErr c of
             Some e \<Rightarrow> replyError i req e c
           | None \<Rightarrow>
               c\<lparr>clMessages := filter (\<lambda>(s, _). s \<noteq> Seq resp) (clMessages c),
                 clDone := clDone c @ [(i, req\<lparr>Type := Type resp, Size := Size resp, Data := Data resp\<rparr>)]\<rparr>))"

text \<open>What \<open>operation\<close> returns for a complete message, with the caller's buffer.\<close>

definition op_result :: "32 word \<Rightarrow> byte list \<Rightarrow> message \<Rightarrow> (int \<times> error option) \<times> byte list" where
  "op_result op buf msg =
     (let buf' = (if op = TypeRead \<and> (Type msg = TypeResponse \<or> Type msg = TypeEOF) then splice 0 (Data msg) buf else buf)
      in if Type msg = TypeError then ((0, Some (Err (text_of (Data msg)))), buf')
         else if Type msg = TypeEOF then ((Size msg, Some EOF), buf')
         else ((Size msg, None), buf'))"

text \<open>The result after a timeout; the connection is given up.\<close>

definition op_timeout :: "32 word \<Rightarrow> error" where
  "op_timeout op = (if op = TypePing then Err ''Ping timeout'' else Err ''r/w timeout'')"

section \<open>One request over the wire\<close>

text \<open>What the server makes of the bytes of a request.\<close>

definition rpc_serve :: "'s data_ops \<Rightarrow> 32 word \<Rightarrow> 32 word \<Rightarrow> byte list \<Rightarrow> int \<Rightarrow> int \<Rightarrow> 's \<Rightarrow> message result \<times> 's" where
  "rpc_serve D sq op buf offset len s =
     (case wire_Read (wire_Write ((request_of op buf offset len)\<lparr>MsgMagicVersion := MagicVersion, Seq := sq\<rparr>)) of
        Inl e \<Rightarrow> (Inl e, s)
      | Inr (req, _) \<Rightarrow> handle D req s)"

text \<open>
  When the server's process ends, the client reads the end of the connection: the request is answered with the text
  of that error, and so it is when the response cannot be read.
\<close>

definition rpc_call :: "'s data_ops \<Rightarrow> 32 word \<Rightarrow> 32 word \<Rightarrow> byte list \<Rightarrow> int \<Rightarrow> int \<Rightarrow> 's \<Rightarrow> ((int \<times> error option) \<times> byte list) \<times> 's" where
  "rpc_call D sq op buf offset len s =
     (case rpc_serve D sq op buf offset len s of
        (Inl e, s') \<Rightarrow> (((0, Some (Err (error_text EOF))), buf), s')
      | (Inr resp, s') \<Rightarrow>
          (case wire_Read (wire_Write resp) of
             Inl e \<Rightarrow> (((0, Some (Err (error_text e))), buf), s')
           | Inr (m, _) \<Rightarrow> (op_result op buf m, s')))"

text \<open>The error that the caller sees for an error of the server.\<close>

definition sent_error :: "error option \<Rightarrow> error option" where
  "sent_error err =
     (case err of
        None \<Rightarrow> None
      | Some e \<Rightarrow> if crashes e \<or> e = IOErr then Some (Err (error_text EOF)) else if e = EOF then Some EOF else Some (Err (error_text e)))"

lemma text_of_bytes_of [simp]: "text_of (bytes_of s) = s"
proof (induction s)
  case (Cons c s)
  have "unat (word_of_nat (of_char c) :: byte) = of_char c" by (simp add: unat_of_nat)
  then show ?case using Cons by (simp add: text_of_def bytes_of_def)
qed (simp add: text_of_def bytes_of_def)

lemma length_bytes_of [simp]: "length (bytes_of s) = length s"
  by (simp add: bytes_of_def)

lemma wire_Read_Write_self: "fits m \<Longrightarrow> wire_Read (wire_Write m) = Inr (m, [])"
  using wire_Read_Write [of m "[]"] by simp

text \<open>A write over the wire is a write at the server: same effect, an error exactly when the server has one.\<close>

lemma rpc_write:
  assumes b: "length buf < 2 ^ 32" and o: "- (2 ^ 63) \<le> offset" "offset < 2 ^ 63"
    and w: "dpWriteAt D buf offset s = ((c, err), s')" and t: "\<forall>e. err = Some e \<longrightarrow> length (error_text e) < 2 ^ 32"
  shows "rpc_call D sq TypeWrite buf offset (int (length buf)) s =
    (((if err = None then int (length buf) else 0, sent_error err), buf), s')"
proof -
  let ?q = "(request_of TypeWrite buf offset (int (length buf)))\<lparr>MsgMagicVersion := MagicVersion, Seq := sq\<rparr>"
  have q: "fits ?q" using b o by (simp add: fits_def request_of_def)
  have h: "handle D ?q s = (answer c ?q err, s')" using w by (simp add: handle_defs type_defs request_of_def)
  show ?thesis
  proof (cases "\<exists>e. err = Some e \<and> (crashes e \<or> e = IOErr)")
    case True
    then show ?thesis using h by (auto simp: rpc_call_def rpc_serve_def wire_Read_Write_self [OF q] answer_def sent_error_def)
  next
    case False
    then obtain r where r: "answer c ?q err = Inr r" "fits r"
      "op_result TypeWrite buf r = ((if err = None then int (length buf) else 0, sent_error err), buf)"
    proof (cases err)
      case None then show ?thesis using b o that by (simp add: answer_def createResponse_def Let_def request_of_def fits_def op_result_def type_defs sent_error_def)
    next
      case (Some e)
      then show ?thesis using o t False that
        by (cases e) (auto simp: answer_def createResponse_def Let_def request_of_def fits_def op_result_def type_defs sent_error_def)
    qed
    then show ?thesis using h by (simp add: rpc_call_def rpc_serve_def wire_Read_Write_self [OF q] wire_Read_Write_self)
  qed
qed

text \<open>A read over the wire returns the bytes that the server has read.\<close>

lemma rpc_read:
  assumes b: "length buf < 2 ^ 32" and o: "- (2 ^ 63) \<le> offset" "offset < 2 ^ 63"
    and w: "dpReadAt D (replicate (length buf) 0) offset s = (((c, err), bs), s')" and l: "length bs = length buf"
    and e: "err \<noteq> Some EOF" and t: "\<forall>e. err = Some e \<longrightarrow> length (error_text e) < 2 ^ 32"
  shows "rpc_call D sq TypeRead buf offset (int (length buf)) s =
    (((if err = None then int (length buf) else 0, sent_error err), if err = None then bs else buf), s')"
proof -
  let ?q = "(request_of TypeRead buf offset (int (length buf)))\<lparr>MsgMagicVersion := MagicVersion, Seq := sq\<rparr>"
  have q: "fits ?q" using b o by (simp add: fits_def request_of_def type_defs)
  have h: "handle D ?q s = (answer c (?q\<lparr>Data := bs\<rparr>) err, s')" using w by (simp add: handle_defs type_defs request_of_def)
  have sp: "splice 0 bs buf = bs" using l by (simp add: splice_def)
  show ?thesis
  proof (cases "\<exists>e. err = Some e \<and> (crashes e \<or> e = IOErr)")
    case True
    then show ?thesis using h by (auto simp: rpc_call_def rpc_serve_def wire_Read_Write_self [OF q] answer_def sent_error_def)
  next
    case False
    then obtain r where r: "answer c (?q\<lparr>Data := bs\<rparr>) err = Inr r" "fits r"
      "op_result TypeRead buf r = ((if err = None then int (length buf) else 0, sent_error err), if err = None then bs else buf)"
    proof (cases err)
      case None then show ?thesis
        using b o l sp that by (simp add: answer_def createResponse_def Let_def request_of_def fits_def op_result_def type_defs sent_error_def)
    next
      case (Some x)
      then show ?thesis using o t e False that
        by (cases x) (auto simp: answer_def createResponse_def Let_def request_of_def fits_def op_result_def type_defs sent_error_def)
    qed
    then show ?thesis using h by (simp add: rpc_call_def rpc_serve_def wire_Read_Write_self [OF q] wire_Read_Write_self)
  qed
qed

section \<open>Many requests on one connection\<close>

text \<open>
  The client, the two directions of the connection as bytes, the server's state; as history, the requests
  that were given a number and what the server has answered.  A step is one round of the client's \<open>loop\<close>
  (a request, a response, a transport error, after which the loop has returned), one round of its \<open>write\<close>
  or one round of the server's \<open>readWrite\<close>.
\<close>

record ('i, 's) conn =
  cnClient :: "'i client"
  cnUp :: "byte list"
  cnDown :: "byte list"
  cnServer :: 's
  cnIssued :: "('i \<times> message) list"
  cnLog :: "(message \<times> message) list"

definition conn0 :: "'s \<Rightarrow> ('i, 's) conn" where
  "conn0 s = \<lparr>cnClient = NewClient, cnUp = [], cnDown = [], cnServer = s, cnIssued = [], cnLog = []\<rparr>"

text \<open>The answer to a read carries as many bytes as the request asks for, with their number in 32 bits.\<close>

definition request_fits :: "message \<Rightarrow> bool" where
  "request_fits m \<longleftrightarrow> fits m \<and> (Type m = TypeRead \<longrightarrow> Size m < 2 ^ 32)"

inductive conn_step :: "'s data_ops \<Rightarrow> ('i, 's) conn \<Rightarrow> ('i, 's) conn \<Rightarrow> bool" for D where
  cn_request: "clErr (cnClient k) = None \<Longrightarrow>
     request_fits (req\<lparr>MsgMagicVersion := MagicVersion\<rparr>) \<Longrightarrow> c = handleRequest i req (cnClient k) \<Longrightarrow>
     conn_step D k (k\<lparr>cnClient := c, cnIssued := cnIssued k @ [(i, req\<lparr>MsgMagicVersion := MagicVersion, Seq := clSeq c\<rparr>)]\<rparr>)"
| cn_send: "clSend (cnClient k) = m # ms \<Longrightarrow>
     conn_step D k (k\<lparr>cnClient := (cnClient k)\<lparr>clSend := ms\<rparr>, cnUp := cnUp k @ wire_Write m\<rparr>)"
| cn_serve: "wire_Read (cnUp k) = Inr (m, up) \<Longrightarrow> handle D m (cnServer k) = (Inr r, s) \<Longrightarrow>
     conn_step D k (k\<lparr>cnUp := up, cnDown := cnDown k @ wire_Write r, cnServer := s, cnLog := cnLog k @ [(m, r)]\<rparr>)"
| cn_receive: "clErr (cnClient k) = None \<Longrightarrow> wire_Read (cnDown k) = Inr (r, down) \<Longrightarrow>
     conn_step D k (k\<lparr>cnDown := down, cnClient := handleResponse (Response r) (cnClient k)\<rparr>)"
| cn_fail: "clErr (cnClient k) = None \<Longrightarrow> conn_step D k (k\<lparr>cnClient := handleResponse (TransportErr e) (cnClient k)\<rparr>)"

text \<open>What holds in every state that is reached.\<close>

definition stream :: "byte list \<Rightarrow> message list \<Rightarrow> bool" where
  "stream bs ms \<longleftrightarrow> bs = concat (map wire_Write ms) \<and> (\<forall>m\<in>set ms. fits m)"

definition issued_ok :: "('i \<times> message) list \<Rightarrow> bool" where
  "issued_ok qs \<longleftrightarrow> length qs < 2 ^ 32 \<and> (\<forall>n<length qs. Seq (snd (qs ! n)) = word_of_nat (Suc n)) \<and> (\<forall>x\<in>set qs. request_fits (snd x))"

definition pending_ok :: "('i \<times> message) list \<Rightarrow> (32 word \<times> 'i \<times> message) list \<Rightarrow> bool" where
  "pending_ok qs ms \<longleftrightarrow> (\<forall>(s, i, q)\<in>set ms. Seq q = s \<and> (i, q) \<in> set qs)"

definition up_ok :: "('i \<times> message) list \<Rightarrow> byte list \<Rightarrow> bool" where
  "up_ok qs bs \<longleftrightarrow> (\<exists>ms. stream bs ms \<and> set ms \<subseteq> snd ` set qs)"

definition log_ok :: "('i \<times> message) list \<Rightarrow> (message \<times> message) list \<Rightarrow> bool" where
  "log_ok qs l \<longleftrightarrow> (\<forall>(m, r)\<in>set l. m \<in> snd ` set qs \<and> Seq r = Seq m)"

definition done_ok :: "bool \<Rightarrow> ('i \<times> message) list \<Rightarrow> (message \<times> message) list \<Rightarrow> ('i \<times> message) list \<Rightarrow> bool" where
  "done_ok failed qs l ds \<longleftrightarrow> (\<forall>(i, d)\<in>set ds. failed \<and> Type d = TypeError \<or>
     (\<exists>q r. (i, q) \<in> set qs \<and> (q, r) \<in> set l \<and> d = q\<lparr>Type := Type r, Size := Size r, Data := Data r\<rparr>))"

definition conn_inv :: "('i, 's) conn \<Rightarrow> bool" where
  "conn_inv k \<longleftrightarrow>
     issued_ok (cnIssued k) \<and> (clErr (cnClient k) = None \<longrightarrow> clSeq (cnClient k) = word_of_nat (length (cnIssued k))) \<and>
     pending_ok (cnIssued k) (clMessages (cnClient k)) \<and>
     set (clSend (cnClient k)) \<subseteq> snd ` set (cnIssued k) \<and>
     up_ok (cnIssued k) (cnUp k) \<and> up_ok (cnLog k) (cnDown k) \<and> log_ok (cnIssued k) (cnLog k) \<and>
     done_ok (clErr (cnClient k) \<noteq> None) (cnIssued k) (cnLog k) (clDone (cnClient k))"

lemma pending_ok_mono: "pending_ok qs ms \<Longrightarrow> set qs \<subseteq> set qs' \<Longrightarrow> set ms' \<subseteq> set ms \<Longrightarrow> pending_ok qs' ms'"
  unfolding pending_ok_def by blast

lemma up_ok_mono: "up_ok qs bs \<Longrightarrow> set qs \<subseteq> set qs' \<Longrightarrow> up_ok qs' bs"
  unfolding up_ok_def by blast

lemma log_ok_mono: "log_ok qs l \<Longrightarrow> set qs \<subseteq> set qs' \<Longrightarrow> log_ok qs' l"
  unfolding log_ok_def by blast

lemma done_ok_mono: "done_ok f qs l ds \<Longrightarrow> set qs \<subseteq> set qs' \<Longrightarrow> set l \<subseteq> set l' \<Longrightarrow> (f \<longrightarrow> f') \<Longrightarrow> done_ok f' qs' l' ds"
  unfolding done_ok_def by blast

lemma pending_ok_Cons: "pending_ok qs ((s, i, q) # ms) \<longleftrightarrow> Seq q = s \<and> (i, q) \<in> set qs \<and> pending_ok qs ms"
  by (auto simp: pending_ok_def)

lemma log_ok_snoc: "log_ok qs (l @ [(m, r)]) \<longleftrightarrow> log_ok qs l \<and> m \<in> snd ` set qs \<and> Seq r = Seq m"
  by (auto simp: log_ok_def)

lemma done_ok_snoc: "done_ok f qs l (ds @ [(i, d)]) \<longleftrightarrow> done_ok f qs l ds \<and> done_ok f qs l [(i, d)]"
  by (auto simp: done_ok_def)

definition answers_fit :: "'s data_ops \<Rightarrow> bool" where
  "answers_fit D \<longleftrightarrow> (\<forall>m s r s'. request_fits m \<longrightarrow> handle D m s = (Inr r, s') \<longrightarrow> fits r)"

lemma handle_Seq: "handle D m s = (Inr r, s') \<Longrightarrow> Seq r = Seq m"
  by (auto simp: handle_defs answer_def createResponse_def Let_def split: if_splits option.splits error.splits prod.splits)

lemma issued_unique:
  assumes ok: "issued_ok qs" and x: "x \<in> set qs" and y: "y \<in> set qs" and eq: "Seq (snd x) = Seq (snd y)"
  shows "x = y"
proof -
  obtain n m where n: "n < length qs" "x = qs ! n" and m: "m < length qs" "y = qs ! m"
    using x y by (metis in_set_conv_nth)
  have lt: "Suc n < 2 ^ 32" "Suc m < 2 ^ 32" using n m ok by (auto simp: issued_ok_def)
  have "(word_of_nat (Suc n) :: 32 word) = word_of_nat (Suc m)" using ok n m eq unfolding issued_ok_def by metis
  then have "unat (word_of_nat (Suc n) :: 32 word) = unat (word_of_nat (Suc m) :: 32 word)" by (rule arg_cong)
  then have "n = m" using lt by (simp add: unat_of_nat del: of_nat_Suc)
  then show ?thesis using n m by simp
qed

lemma issued_ok_snoc:
  "issued_ok qs \<Longrightarrow> Suc (length qs) < 2 ^ 32 \<Longrightarrow> Seq q = word_of_nat (Suc (length qs)) \<Longrightarrow> request_fits q \<Longrightarrow> issued_ok (qs @ [(i, q)])"
  by (auto simp: issued_ok_def nth_append less_Suc_eq simp del: of_nat_Suc)

lemma stream_snoc: "stream bs ms \<Longrightarrow> fits m \<Longrightarrow> stream (bs @ wire_Write m) (ms @ [m])"
  by (auto simp: stream_def)

lemma stream_read:
  assumes "stream bs ms" "wire_Read bs = Inr (m, bs')"
  obtains ms' where "ms = m # ms'" "stream bs' ms'"
proof (cases ms)
  case Nil
  then have "wire_Read [] = Inr (m, bs')" using assms by (simp add: stream_def)
  then show ?thesis by (simp add: wire_Read_def reading_def read_full_def)
next
  case (Cons a l)
  then have "wire_Read bs = Inr (a, concat (map wire_Write l))"
    using assms(1) wire_Read_Write [of a] by (simp add: stream_def)
  then show ?thesis using that [of l] assms Cons by (simp add: stream_def)
qed

text \<open>What an error for all outstanding requests changes.\<close>

lemma replyError_frame:
  "set (clMessages (replyError i q e c)) \<subseteq> set (clMessages c)" "clSend (replyError i q e c) = clSend c"
  "clSeq (replyError i q e c) = clSeq c" "clErr (replyError i q e c) = clErr c"
  "(j, d) \<in> set (clDone (replyError i q e c)) \<Longrightarrow> (j, d) \<in> set (clDone c) \<or> Type d = TypeError"
  by (auto simp: replyError_def)

lemma replyErrors_frame:
  fixes c :: "'i client" and e :: error
  defines "f \<equiv> (\<lambda>(s :: 32 word, i :: 'i, req) c. replyError i req e c)"
  shows "set (clMessages (fold f xs c)) \<subseteq> set (clMessages c) \<and> clSend (fold f xs c) = clSend c \<and>
    clErr (fold f xs c) = clErr c \<and>
    (\<forall>j d. (j, d) \<in> set (clDone (fold f xs c)) \<longrightarrow> (j, d) \<in> set (clDone c) \<or> Type d = TypeError)"
proof (induction xs arbitrary: c)
  case (Cons x xs)
  obtain s i q where x: "x = (s, i, q)" by (cases x) auto
  show ?case using Cons [of "replyError i q e c"] replyError_frame [where i = i and q = q and e = e and c = c]
    by (simp add: x f_def) blast
qed simp

lemma reply_all_frame:
  "set (clMessages (reply_all e c)) \<subseteq> set (clMessages c)" "clSend (reply_all e c) = clSend c"
  "clErr (reply_all e c) = clErr c"
  "(j, d) \<in> set (clDone (reply_all e c)) \<Longrightarrow> (j, d) \<in> set (clDone c) \<or> Type d = TypeError"
  using replyErrors_frame [of e "clMessages c" c] unfolding reply_all_def by blast+

lemma conn_inv_init: "conn_inv (conn0 s)"
  by (simp add: conn_inv_def conn0_def NewClient_def issued_ok_def stream_def pending_ok_def up_ok_def log_ok_def done_ok_def)

lemma conn_inv_request:
  assumes I: "conn_inv k" and n: "clErr (cnClient k) = None" "length (cnIssued k) < 2 ^ 32 - 1"
    and f: "request_fits (req\<lparr>MsgMagicVersion := MagicVersion\<rparr>)" and c: "c = handleRequest i req (cnClient k)"
  shows "conn_inv (k\<lparr>cnClient := c, cnIssued := cnIssued k @ [(i, req\<lparr>MsgMagicVersion := MagicVersion, Seq := clSeq c\<rparr>)]\<rparr>)"
proof -
  define sq where "sq = clSeq (cnClient k) + 1"
  define q where "q = req\<lparr>MsgMagicVersion := MagicVersion, Seq := sq\<rparr>"
  define ms where "ms = filter (\<lambda>(s, _). s \<noteq> sq) (clMessages (cnClient k))"
  have c': "c = (cnClient k)\<lparr>clSeq := sq, clMessages := (sq, i, q) # ms, clSend := clSend (cnClient k) @ [q]\<rparr>"
    using c n by (simp add: handleRequest_def Let_def sq_def q_def ms_def)
  have sq: "sq = word_of_nat (Suc (length (cnIssued k)))" using I n by (simp add: conn_inv_def sq_def)
  have "request_fits q" using f by (simp add: request_fits_def fits_def q_def)
  then have ok: "issued_ok (cnIssued k @ [(i, q)])" using I n sq by (intro issued_ok_snoc) (auto simp: conn_inv_def q_def)
  have "pending_ok (cnIssued k @ [(i, q)]) ms"
    by (rule pending_ok_mono [of "cnIssued k" "clMessages (cnClient k)"]) (use I in \<open>auto simp: conn_inv_def ms_def\<close>)
  then show ?thesis using I n ok sq up_ok_mono [of "cnIssued k" _ "cnIssued k @ [(i, q)]"]
      log_ok_mono [of "cnIssued k" _ "cnIssued k @ [(i, q)]"] done_ok_mono [of False "cnIssued k" "cnLog k" _ "cnIssued k @ [(i, q)]" "cnLog k" False]
    by (simp add: conn_inv_def c' pending_ok_Cons q_def [symmetric] subset_insertI2) (simp add: q_def)
qed

lemma conn_inv_send:
  assumes "conn_inv k" "clSend (cnClient k) = m # ms"
  shows "conn_inv (k\<lparr>cnClient := (cnClient k)\<lparr>clSend := ms\<rparr>, cnUp := cnUp k @ wire_Write m\<rparr>)"
proof -
  have m: "m \<in> snd ` set (cnIssued k)" using assms by (auto simp: conn_inv_def)
  then have "fits m" using assms by (auto simp: conn_inv_def issued_ok_def request_fits_def)
  moreover obtain l where "stream (cnUp k) l" "set l \<subseteq> snd ` set (cnIssued k)" using assms by (auto simp: conn_inv_def up_ok_def)
  ultimately have "up_ok (cnIssued k) (cnUp k @ wire_Write m)"
    unfolding up_ok_def using m by (intro exI [of _ "l @ [m]"]) (simp add: stream_snoc)
  then show ?thesis using assms by (simp add: conn_inv_def)
qed

lemma up_ok_read:
  assumes "up_ok qs bs" "wire_Read bs = Inr (m, bs')"
  shows "m \<in> snd ` set qs \<and> fits m \<and> up_ok qs bs'"
proof -
  obtain ms where ms: "stream bs ms" "set ms \<subseteq> snd ` set qs" using assms by (auto simp: up_ok_def)
  then obtain l where "ms = m # l" "stream bs' l" using stream_read [OF ms(1) assms(2)] by blast
  then show ?thesis using ms by (auto simp: up_ok_def stream_def)
qed

lemma conn_inv_serve:
  assumes I: "conn_inv k" and r: "wire_Read (cnUp k) = Inr (m, up)" and h: "handle D m (cnServer k) = (Inr r, s)"
    and f: "answers_fit D"
  shows "conn_inv (k\<lparr>cnUp := up, cnDown := cnDown k @ wire_Write r, cnServer := s, cnLog := cnLog k @ [(m, r)]\<rparr>)"
proof -
  have m: "m \<in> snd ` set (cnIssued k)" "fits m" "up_ok (cnIssued k) up"
    using up_ok_read [of "cnIssued k" "cnUp k" m up] I r by (auto simp: conn_inv_def)
  have "request_fits m" using m(1) I by (auto simp: conn_inv_def issued_ok_def)
  then have "fits r" using f h unfolding answers_fit_def by blast
  moreover obtain l where "stream (cnDown k) l" "set l \<subseteq> snd ` set (cnLog k)" using I by (auto simp: conn_inv_def up_ok_def)
  ultimately have "up_ok (cnLog k @ [(m, r)]) (cnDown k @ wire_Write r)"
    unfolding up_ok_def by (intro exI [of _ "l @ [r]"]) (auto simp: stream_snoc)
  moreover have "done_ok (clErr (cnClient k) \<noteq> None) (cnIssued k) (cnLog k @ [(m, r)]) (clDone (cnClient k))"
    by (rule done_ok_mono [of "clErr (cnClient k) \<noteq> None" "cnIssued k" "cnLog k"]) (use I in \<open>auto simp: conn_inv_def\<close>)
  ultimately show ?thesis using I m handle_Seq [OF h] by (simp add: conn_inv_def log_ok_snoc)
qed

lemma conn_inv_receive:
  assumes I: "conn_inv k" and e: "clErr (cnClient k) = None" and r: "wire_Read (cnDown k) = Inr (r, down)"
  shows "conn_inv (k\<lparr>cnDown := down, cnClient := handleResponse (Response r) (cnClient k)\<rparr>)"
proof (cases "map_of (clMessages (cnClient k)) (Seq r)")
  case None
  then show ?thesis using I up_ok_read [OF _ r, of "cnLog k"] by (simp add: conn_inv_def)
next
  case (Some p)
  obtain i q where p: "p = (i, q)" by (cases p)
  have ur: "r \<in> snd ` set (cnLog k)" "up_ok (cnLog k) down" using I up_ok_read [OF _ r, of "cnLog k"] by (auto simp: conn_inv_def)
  then obtain m where m: "(m, r) \<in> set (cnLog k)" by auto
  then have mq: "m \<in> snd ` set (cnIssued k)" "Seq r = Seq m" using I by (auto simp: conn_inv_def log_ok_def)
  have q: "Seq q = Seq r" "(i, q) \<in> set (cnIssued k)"
    using I map_of_SomeD [OF Some] p by (auto simp: conn_inv_def pending_ok_def)
  obtain j where j: "(j, m) \<in> set (cnIssued k)" using mq by auto
  have "(i, q) = (j, m)" by (rule issued_unique [of "cnIssued k"]) (use I q j mq in \<open>auto simp: conn_inv_def\<close>)
  then have "done_ok False (cnIssued k) (cnLog k) [(i, q\<lparr>Type := Type r, Size := Size r, Data := Data r\<rparr>)]"
    using q m by (auto simp: done_ok_def)
  moreover have "pending_ok (cnIssued k) (filter (\<lambda>(s, _). s \<noteq> Seq r) (clMessages (cnClient k)))"
    by (rule pending_ok_mono [of "cnIssued k" "clMessages (cnClient k)"]) (use I in \<open>auto simp: conn_inv_def\<close>)
  ultimately show ?thesis using I e Some p ur by (simp add: conn_inv_def done_ok_snoc)
qed

lemma conn_inv_fail:
  assumes I: "conn_inv k"
  shows "conn_inv (k\<lparr>cnClient := handleResponse (TransportErr e) (cnClient k)\<rparr>)"
proof -
  let ?c = "(cnClient k)\<lparr>clErr := Some e, clCloseChan := clCloseChan (cnClient k) + 1\<rparr>"
  have "pending_ok (cnIssued k) (clMessages (reply_all e ?c))"
    by (rule pending_ok_mono [of "cnIssued k" "clMessages (cnClient k)"])
      (use I reply_all_frame(1) [of e ?c] in \<open>auto simp: conn_inv_def\<close>)
  moreover have "done_ok True (cnIssued k) (cnLog k) (clDone (cnClient k))"
    by (rule done_ok_mono [of "clErr (cnClient k) \<noteq> None" "cnIssued k" "cnLog k"]) (use I in \<open>auto simp: conn_inv_def\<close>)
  then have "done_ok True (cnIssued k) (cnLog k) (clDone (reply_all e ?c))"
    unfolding done_ok_def using reply_all_frame(4) [where e = e and c = ?c] by fastforce
  ultimately show ?thesis using I by (simp add: conn_inv_def reply_all_frame)
qed

inductive conn_reachable :: "'s data_ops \<Rightarrow> 's \<Rightarrow> ('i, 's) conn \<Rightarrow> bool" for D s0 where
  cr_init: "conn_reachable D s0 (conn0 s0)"
| cr_step: "conn_reachable D s0 k \<Longrightarrow> conn_step D k k' \<Longrightarrow> conn_reachable D s0 k'"

lemma conn_step_issued: "conn_step D k k' \<Longrightarrow> length (cnIssued k) \<le> length (cnIssued k')"
  by (induction rule: conn_step.induct) simp_all

text \<open>As long as the numbers of the requests have not been used up.\<close>

lemma conn_reachable_inv: "conn_reachable D s0 k \<Longrightarrow> answers_fit D \<Longrightarrow> length (cnIssued k) < 2 ^ 32 \<Longrightarrow> conn_inv k"
proof (induction rule: conn_reachable.induct)
  case (cr_step k k')
  have I: "conn_inv k" using cr_step conn_step_issued [OF cr_step.hyps(2)] by simp
  from cr_step.hyps(2) show ?case
  proof cases
    case (cn_request req c i) then show ?thesis using conn_inv_request [OF I] cr_step.prems(2) by simp
  next
    case (cn_send m ms) then show ?thesis using conn_inv_send [OF I] by simp
  next
    case (cn_serve m up r s) then show ?thesis using conn_inv_serve [OF I _ _ cr_step.prems(1)] by simp
  next
    case (cn_receive r down) then show ?thesis using conn_inv_receive [OF I] by (simp del: handleResponse.simps)
  next
    case (cn_fail e) then show ?thesis using conn_inv_fail [OF I] by (simp del: handleResponse.simps)
  qed
qed (rule conn_inv_init)

end
