(* ===== verification/Backend.thy ===== *)
theory Backend
  imports Types
begin

text \<open>
  The interface \<open>types.Backend\<close> (\<open>types/types.go\<close>) through which the controller talks to its
  replicas, as a record of operations over a world \<open>'w\<close> and backend values \<open>'b\<close>, and the interface
  \<open>types.BackendFactory\<close>.  A call may change the world and may fail at any time.
\<close>

record ('w, 'b) backend_ops =
  bReadAt :: "'b \<Rightarrow> byte list \<Rightarrow> int \<Rightarrow> 'w \<Rightarrow> ((int \<times> error option) \<times> byte list) \<times> 'w"
  bWriteAt :: "'b \<Rightarrow> byte list \<Rightarrow> int \<Rightarrow> 'w \<Rightarrow> (int \<times> error option) \<times> 'w"
  bSync :: "'b \<Rightarrow> 'w \<Rightarrow> (int \<times> error option) \<times> 'w"
  bUnmap :: "'b \<Rightarrow> int \<Rightarrow> int \<Rightarrow> 'w \<Rightarrow> (int \<times> error option) \<times> 'w"
  bClose :: "'b \<Rightarrow> 'w \<Rightarrow> error option \<times> 'w"
  bSnapshot :: "'b \<Rightarrow> string \<Rightarrow> bool \<Rightarrow> string \<Rightarrow> 'w \<Rightarrow> error option \<times> 'w"
  bGetReplicaChain :: "'b \<Rightarrow> 'w \<Rightarrow> string list result \<times> 'w"
  bSetCheckpoint :: "'b \<Rightarrow> string \<Rightarrow> 'w \<Rightarrow> error option \<times> 'w"
  bResize :: "'b \<Rightarrow> string \<Rightarrow> string \<Rightarrow> 'w \<Rightarrow> error option \<times> 'w"
  bSize :: "'b \<Rightarrow> 'w \<Rightarrow> int result \<times> 'w"
  bSectorSize :: "'b \<Rightarrow> 'w \<Rightarrow> int result \<times> 'w"
  bRemainSnapshots :: "'b \<Rightarrow> 'w \<Rightarrow> int result \<times> 'w"
  bGetRevisionCounter :: "'b \<Rightarrow> 'w \<Rightarrow> int result \<times> 'w"
  bGetCloneStatus :: "'b \<Rightarrow> 'w \<Rightarrow> string result \<times> 'w"
  bGetVolUsage :: "'b \<Rightarrow> 'w \<Rightarrow> volUsage result \<times> 'w"
  bSetReplicaMode :: "'b \<Rightarrow> mode \<Rightarrow> 'w \<Rightarrow> error option \<times> 'w"
  bSetRevisionCounter :: "'b \<Rightarrow> int \<Rightarrow> 'w \<Rightarrow> error option \<times> 'w"
  bSetRebuilding :: "'b \<Rightarrow> bool \<Rightarrow> 'w \<Rightarrow> error option \<times> 'w"
  bStopMonitoring :: "'b \<Rightarrow> 'w \<Rightarrow> 'w"

record ('w, 'b) factory_ops =
  fCreate :: "string \<Rightarrow> 'w \<Rightarrow> 'b result \<times> 'w"
  fSignalToAdd :: "string \<Rightarrow> string \<Rightarrow> 'w \<Rightarrow> error option \<times> 'w"
  fVerifyReplicaAlive :: "string \<Rightarrow> 'w \<Rightarrow> bool \<times> 'w"

end
