(* ===== verification/Remote.thy ===== *)
theory Remote
  imports ReplicaRest Rpc Backend
begin

text \<open>
  \<open>backend/remote/remote.go\<close> and \<open>backend/dynamic/dynamic.go\<close>: a replica on another host, as the
  controller's backend.  The world is a cluster: hosts that run a replica's server on a directory, the
  state of the data connection to each host, and a network that decides the fate of each exchange.  A
  host whose process has ended does not answer any more.

  The factory makes a new \<open>Remote\<close> for each call; the controller keeps at most one for an address, so a
  backend is named by its host and the data connection to the host is the newest one.
\<close>

section \<open>Addresses\<close>

text \<open>\<open>util.ParseAddresses\<close>: the pattern \<open>(.*):(\d+)\<close>, where the dot is not a newline.\<close>

fun last_colon :: "string \<Rightarrow> (string \<times> string) option" where
  "last_colon [] = None"
| "last_colon (c # s) =
     (case last_colon s of
        Some (h, ds) \<Rightarrow> Some (c # h, ds)
      | None \<Rightarrow>
          let ds = takeWhile (\<lambda>d. digit_val d \<noteq> None) s
          in if c = CHR '':'' \<and> ds \<noteq> [] then Some ([], ds) else None)"

fun first_match :: "string \<Rightarrow> string \<Rightarrow> (string \<times> string) option" where
  "first_match line [] = last_colon (rev line)"
| "first_match line (c # s) =
     (if c = CHR 0x0A then (case last_colon (rev line) of Some x \<Rightarrow> Some x | None \<Rightarrow> first_match [] s)
      else first_match (c # line) s)"

definition ParseAddresses :: "string \<Rightarrow> (string \<times> string \<times> string) result" where
  "ParseAddresses address =
     (case first_match [] address of
        None \<Rightarrow> Inl (Err ''Invalid address does not match pattern'')
      | Some (h, ds) \<Rightarrow>
          let port = atoi ds; at = (\<lambda>p. h @ '':'' @ FormatInt (i64 p))
          in Inr (at port, at (port + 1), at (port + 2)))"

section \<open>The cluster\<close>

record node =
  ndServer :: server
  ndFs :: fs
  ndUp :: bool

datatype fate = Delivered | Lost | ReplyLost

text \<open>The data connection: its error, the number of the last request, the signals to the monitor.\<close>

record link =
  lkErr :: "error option"
  lkSeq :: "32 word"
  lkCloseChan :: nat

record cluster =
  nodes :: "nat \<Rightarrow> node"
  links :: "nat \<Rightarrow> link"
  net :: "nat \<Rightarrow> fate"
  msgs :: nat

text \<open>What differs between hosts, and the host of a control address.\<close>

record cenv =
  ceS :: "nat \<Rightarrow> senv"
  ceHost :: "string \<Rightarrow> nat option"

definition put_node :: "nat \<Rightarrow> server \<times> fs \<Rightarrow> bool \<Rightarrow> cluster \<Rightarrow> cluster" where
  "put_node b st up w = w\<lparr>nodes := (nodes w)(b := \<lparr>ndServer = fst st, ndFs = snd st, ndUp = up\<rparr>)\<rparr>"

definition next_fate :: "cluster \<Rightarrow> fate \<times> cluster" where
  "next_fate w = (net w (msgs w), w\<lparr>msgs := msgs w + 1\<rparr>)"

section \<open>Control\<close>

text \<open>
  An HTTP exchange.  An error of the handler is a bad status; a panic in a handler closes the connection
  and the server goes on; \<open>logrus.Fatal\<close> or a handler that never returns ends the server's life.
\<close>

definition http_do :: "cenv \<Rightarrow> nat \<Rightarrow> (senv \<Rightarrow> 'a sop) \<Rightarrow> cluster \<Rightarrow> 'a result \<times> cluster" where
  "http_do E b f w =
     (case next_fate w of (t, w1) \<Rightarrow>
      if \<not> ndUp (nodes w1 b) \<or> t = Lost then (Inl (Err ''connection refused''), w1)
      else case f (ceS E b) (ndServer (nodes w1 b), ndFs (nodes w1 b)) of
        (Inl e, st) \<Rightarrow> (Inl (Err ''Bad status''), put_node b st (case e of Fatal _ \<Rightarrow> False | Diverge \<Rightarrow> False | _ \<Rightarrow> True) w1)
      | (Inr x, st) \<Rightarrow> (if t = ReplyLost then Inl (Err ''timeout'') else Inr x, put_node b st True w1))"

definition doAction :: "cenv \<Rightarrow> nat \<Rightarrow> rest_action \<Rightarrow> cluster \<Rightarrow> error option \<times> cluster" where
  "doAction E b a w =
     (case http_do E b (\<lambda>S. checkAction S a) w of (Inl e, w') \<Rightarrow> (Some e, w') | (Inr (), w') \<Rightarrow> (None, w'))"

definition remote_info :: "cenv \<Rightarrow> nat \<Rightarrow> cluster \<Rightarrow> replicaInfo result \<times> cluster" where
  "remote_info E b w = http_do E b GetReplica w"

definition with_info :: "cenv \<Rightarrow> nat \<Rightarrow> (replicaInfo \<Rightarrow> 'a result) \<Rightarrow> cluster \<Rightarrow> 'a result \<times> cluster" where
  "with_info E b f w = (case remote_info E b w of (Inl e, w') \<Rightarrow> (Inl e, w') | (Inr i, w') \<Rightarrow> (f i, w'))"

definition remote_open :: "cenv \<Rightarrow> nat \<Rightarrow> cluster \<Rightarrow> error option \<times> cluster" where
  "remote_open E b w = doAction E b AOpen w"

definition remote_Snapshot :: "cenv \<Rightarrow> nat \<Rightarrow> string \<Rightarrow> bool \<Rightarrow> string \<Rightarrow> cluster \<Rightarrow> error option \<times> cluster" where
  "remote_Snapshot E b name userCreated created w = doAction E b (ASnapshot name userCreated created) w"

definition remote_Resize :: "cenv \<Rightarrow> nat \<Rightarrow> string \<Rightarrow> string \<Rightarrow> cluster \<Rightarrow> error option \<times> cluster" where
  "remote_Resize E b name sz w = doAction E b (AResize sz) w"

definition remote_SetRebuilding :: "cenv \<Rightarrow> nat \<Rightarrow> bool \<Rightarrow> cluster \<Rightarrow> error option \<times> cluster" where
  "remote_SetRebuilding E b rebuilding w = doAction E b (ASetRebuilding rebuilding) w"

definition remote_Size :: "cenv \<Rightarrow> nat \<Rightarrow> cluster \<Rightarrow> int result \<times> cluster" where
  "remote_Size E b w = with_info E b (\<lambda>i. ParseInt (riSize i)) w"

definition remote_SectorSize :: "cenv \<Rightarrow> nat \<Rightarrow> cluster \<Rightarrow> int result \<times> cluster" where
  "remote_SectorSize E b w = with_info E b (\<lambda>i. Inr (riSectorSize i)) w"

definition remote_RemainSnapshots :: "cenv \<Rightarrow> nat \<Rightarrow> cluster \<Rightarrow> int result \<times> cluster" where
  "remote_RemainSnapshots E b w =
     with_info E b (\<lambda>i. if riState i \<noteq> ''open'' \<and> riState i \<noteq> ''dirty'' \<and> riState i \<noteq> ''rebuilding''
                        then Inl (Err ''Invalid state for counting snapshots'') else Inr (riRemainSnapshots i)) w"

definition remote_GetRevisionCounter :: "cenv \<Rightarrow> nat \<Rightarrow> cluster \<Rightarrow> int result \<times> cluster" where
  "remote_GetRevisionCounter E b w = with_info E b (\<lambda>i. Inr (ParseInt_value (riRevisionCounter i))) w"

definition remote_GetCloneStatus :: "cenv \<Rightarrow> nat \<Rightarrow> cluster \<Rightarrow> string result \<times> cluster" where
  "remote_GetCloneStatus E b w = with_info E b (\<lambda>i. Inr (riCloneStatus i)) w"

definition remote_GetReplicaChain :: "cenv \<Rightarrow> nat \<Rightarrow> cluster \<Rightarrow> string list result \<times> cluster" where
  "remote_GetReplicaChain E b w = with_info E b (\<lambda>i. Inr (riChain i)) w"

definition remote_GetVolUsage :: "cenv \<Rightarrow> nat \<Rightarrow> cluster \<Rightarrow> volUsage result \<times> cluster" where
  "remote_GetVolUsage E b w =
     (case http_do E b (\<lambda>_. GetVolUsage) w of
        (Inl e, w') \<Rightarrow> (Inl e, w')
      | (Inr u, w') \<Rightarrow>
          (Inr \<lparr>vuRevisionCounter = ParseInt_value (usRevisionCounter u), vuUsedLogicalBlocks = ParseInt_value (usUsedLogicalBlocks u),
                vuUsedBlocks = ParseInt_value (usUsedBlocks u), vuSectorSize = ParseInt_value (usSectorSize u)\<rparr>, w'))"

definition remote_SetReplicaMode :: "cenv \<Rightarrow> nat \<Rightarrow> mode \<Rightarrow> cluster \<Rightarrow> error option \<times> cluster" where
  "remote_SetReplicaMode E b m w =
     (if m = RW then doAction E b (ASetReplicaMode ''RW'') w
      else if m = WO then doAction E b (ASetReplicaMode ''WO'') w
      else (Some (Err ''invalid mode string''), w))"

definition remote_SetCheckpoint :: "cenv \<Rightarrow> nat \<Rightarrow> string \<Rightarrow> cluster \<Rightarrow> error option \<times> cluster" where
  "remote_SetCheckpoint E b snapshotName w = doAction E b (ASetCheckpoint snapshotName) w"

definition remote_SetRevisionCounter :: "cenv \<Rightarrow> nat \<Rightarrow> int \<Rightarrow> cluster \<Rightarrow> error option \<times> cluster" where
  "remote_SetRevisionCounter E b counter w = doAction E b (ASetRevisionCounter (FormatInt counter)) w"

definition remote_StopMonitoring :: "nat \<Rightarrow> cluster \<Rightarrow> cluster" where
  "remote_StopMonitoring b w = w\<lparr>links := (links w)(b := (links w b)\<lparr>lkCloseChan := lkCloseChan (links w b) + 1\<rparr>)\<rparr>"

definition remote_Close :: "nat \<Rightarrow> cluster \<Rightarrow> error option \<times> cluster" where
  "remote_Close b w = (None, remote_StopMonitoring b w)"

section \<open>Data\<close>

text \<open>The replica's server as the data processor of the RPC server.\<close>

definition srv_data :: "senv \<Rightarrow> (server \<times> fs) data_ops" where
  "srv_data S = \<lparr>dpReadAt = s_ReadAt S, dpWriteAt = s_WriteAt S, dpSync = s_Sync S, dpUnmap = s_Unmap S,
     dpPingResponse = (\<lambda>(s, w). case PingResponse (s, w) of (e, w') \<Rightarrow> (e, s, w'))\<rparr>"

text \<open>\<open>SetError\<close> as the client's loop takes it: the first error stays, the monitor gets a signal and the loop ends.\<close>

definition fail_link :: "nat \<Rightarrow> error \<Rightarrow> cluster \<Rightarrow> cluster" where
  "fail_link b e w =
     (if lkErr (links w b) \<noteq> None then w
      else w\<lparr>links := (links w)(b := (links w b)\<lparr>lkErr := Some e, lkCloseChan := lkCloseChan (links w b) + 1\<rparr>)\<rparr>)"

text \<open>
  \<open>Client.operation\<close>: nothing is sent on a connection that has failed; a request or a response that is
  lost becomes a timeout; the end of the server's process closes the connection, and the request that waits is
  answered with the text of the transport's error.  A request is carried out when it is sent or not at all: one
  that reaches the server only after the timeout is not modelled.
\<close>

definition remote_op ::
  "cenv \<Rightarrow> nat \<Rightarrow> 32 word \<Rightarrow> byte list \<Rightarrow> int \<Rightarrow> int \<Rightarrow> cluster \<Rightarrow> ((int \<times> error option) \<times> byte list) \<times> cluster" where
  "remote_op E b op buf offset len w =
     (case lkErr (links w b) of
        Some e \<Rightarrow> (((0, Some e), buf), w)
      | None \<Rightarrow>
          (case next_fate w of (t, w1) \<Rightarrow>
           let sq = lkSeq (links w1 b) + 1;
               w2 = w1\<lparr>links := (links w1)(b := (links w1 b)\<lparr>lkSeq := sq\<rparr>)\<rparr> in
           if \<not> ndUp (nodes w2 b) \<or> t = Lost then (((0, Some (op_timeout op)), buf), fail_link b (op_timeout op) w2)
           else case rpc_serve (srv_data (ceS E b)) sq op buf offset len (ndServer (nodes w2 b), ndFs (nodes w2 b)) of
             (Inl e, st) \<Rightarrow> (((0, Some (Err (error_text EOF))), buf), fail_link b EOF (put_node b st False w2))
           | (Inr resp, st) \<Rightarrow>
               let w3 = put_node b st True w2 in
               if t = ReplyLost then (((0, Some (op_timeout op)), buf), fail_link b (op_timeout op) w3)
               else case wire_Read (wire_Write resp) of
                 Inl e \<Rightarrow> (((0, Some (Err (error_text e))), buf), fail_link b e w3)
               | Inr (m, _) \<Rightarrow> (op_result op buf m, w3)))"

definition remote_ReadAt :: "cenv \<Rightarrow> nat \<Rightarrow> byte list \<Rightarrow> int \<Rightarrow> cluster \<Rightarrow> ((int \<times> error option) \<times> byte list) \<times> cluster" where
  "remote_ReadAt E b buf offset w = remote_op E b TypeRead buf offset (int (length buf)) w"

definition remote_WriteAt :: "cenv \<Rightarrow> nat \<Rightarrow> byte list \<Rightarrow> int \<Rightarrow> cluster \<Rightarrow> (int \<times> error option) \<times> cluster" where
  "remote_WriteAt E b buf offset w = (case remote_op E b TypeWrite buf offset (int (length buf)) w of ((x, _), w') \<Rightarrow> (x, w'))"

definition remote_Sync :: "cenv \<Rightarrow> nat \<Rightarrow> cluster \<Rightarrow> (int \<times> error option) \<times> cluster" where
  "remote_Sync E b w =
     (case remote_op E b TypeSync [] 0 0 w of (((_, err), _), w') \<Rightarrow> ((if err \<noteq> None then -1 else 0, err), w'))"

definition remote_Unmap :: "cenv \<Rightarrow> nat \<Rightarrow> int \<Rightarrow> int \<Rightarrow> cluster \<Rightarrow> (int \<times> error option) \<times> cluster" where
  "remote_Unmap E b offset len w =
     (case remote_op E b TypeUnmap [] offset len w of (((_, err), _), w') \<Rightarrow> ((if err \<noteq> None then -1 else 0, err), w'))"

text \<open>One round of \<open>monitorPing\<close>: an error is put on the connection and goes to the controller's \<open>monitoring\<close>.\<close>

definition monitorPing :: "cenv \<Rightarrow> nat \<Rightarrow> cluster \<Rightarrow> error option \<times> cluster" where
  "monitorPing E b w =
     (case remote_op E b TypePing [] 0 0 w of
        (((_, None), _), w') \<Rightarrow> (None, w')
      | (((_, Some e), _), w') \<Rightarrow> (Some e, fail_link b e w'))"

definition remote_ops :: "cenv \<Rightarrow> (cluster, nat) backend_ops" where
  "remote_ops E = \<lparr>
     bReadAt = remote_ReadAt E, bWriteAt = remote_WriteAt E, bSync = remote_Sync E, bUnmap = remote_Unmap E,
     bClose = remote_Close, bSnapshot = remote_Snapshot E, bGetReplicaChain = remote_GetReplicaChain E,
     bSetCheckpoint = remote_SetCheckpoint E, bResize = remote_Resize E, bSize = remote_Size E, bSectorSize = remote_SectorSize E,
     bRemainSnapshots = remote_RemainSnapshots E, bGetRevisionCounter = remote_GetRevisionCounter E,
     bGetCloneStatus = remote_GetCloneStatus E, bGetVolUsage = remote_GetVolUsage E, bSetReplicaMode = remote_SetReplicaMode E,
     bSetRevisionCounter = remote_SetRevisionCounter E, bSetRebuilding = remote_SetRebuilding E,
     bStopMonitoring = remote_StopMonitoring\<rparr>"

section \<open>The factories\<close>

text \<open>The host of a control address; a name that does not resolve is refused.\<close>

definition at_host :: "cenv \<Rightarrow> string \<Rightarrow> (nat \<Rightarrow> cluster \<Rightarrow> 'a result \<times> cluster) \<Rightarrow> cluster \<Rightarrow> 'a result \<times> cluster" where
  "at_host E address f w =
     (case ParseAddresses address of
        Inl e \<Rightarrow> (Inl e, w)
      | Inr (control, _, _) \<Rightarrow> (case ceHost E control of None \<Rightarrow> (Inl (Err ''no such host''), w) | Some b \<Rightarrow> f b w))"

text \<open>\<open>Create\<close>: the replica must be closed; then the data connection is made and the replica opened.\<close>

definition remote_Create :: "cenv \<Rightarrow> string \<Rightarrow> cluster \<Rightarrow> nat result \<times> cluster" where
  "remote_Create E address w =
     at_host E address (\<lambda>b w.
       case remote_info E b w of
         (Inl e, w1) \<Rightarrow> (Inl e, w1)
       | (Inr i, w1) \<Rightarrow>
           if riState i \<noteq> ''closed'' then (Inl (Err ''Replica must be closed''), w1)
           else (case next_fate w1 of (t, w2) \<Rightarrow>
             if \<not> ndUp (nodes w2 b) \<or> t \<noteq> Delivered then (Inl (Err ''connection refused''), w2)
             else let w3 = w2\<lparr>links := (links w2)(b := \<lparr>lkErr = None, lkSeq = 0, lkCloseChan = 0\<rparr>)\<rparr> in
               (case remote_open E b w3 of
                  (Some e, w4) \<Rightarrow> (Inl e, fail_link b EOF w4)
                | (None, w4) \<Rightarrow> (Inr b, w4)))) w"

definition remote_SignalToAdd :: "cenv \<Rightarrow> string \<Rightarrow> string \<Rightarrow> cluster \<Rightarrow> error option \<times> cluster" where
  "remote_SignalToAdd E address action w =
     (case at_host E (address @ '':9502'') (\<lambda>b. http_do E b (\<lambda>S. checkAction S (AStart action))) w of
        (Inl e, w') \<Rightarrow> (Some e, w') | (Inr _, w') \<Rightarrow> (None, w'))"

definition remote_VerifyReplicaAlive :: "cenv \<Rightarrow> string \<Rightarrow> cluster \<Rightarrow> bool \<times> cluster" where
  "remote_VerifyReplicaAlive E address w =
     (case at_host E (address @ '':9502'') (\<lambda>b. http_do E b (\<lambda>S st. (Inr (), st))) w of
        (Inl e, w') \<Rightarrow> (False, w') | (Inr _, w') \<Rightarrow> (True, w'))"

definition remote_factory :: "cenv \<Rightarrow> (cluster, nat) factory_ops" where
  "remote_factory E = \<lparr>fCreate = remote_Create E, fSignalToAdd = remote_SignalToAdd E, fVerifyReplicaAlive = remote_VerifyReplicaAlive E\<rparr>"

text \<open>\<open>strings.SplitN(address, "://", 2)\<close>.\<close>

fun split_scheme :: "string \<Rightarrow> (string \<times> string) option" where
  "split_scheme [] = None"
| "split_scheme (c # s) =
     (if has_prefix ''://'' (c # s) then Some ([], drop 3 (c # s))
      else case split_scheme s of None \<Rightarrow> None | Some (p, rest) \<Rightarrow> Some (c # p, rest))"

definition dynamic_factory :: "(string \<times> ('w, 'b) factory_ops) list \<Rightarrow> ('w, 'b) factory_ops" where
  "dynamic_factory fs = \<lparr>
     fCreate = (\<lambda>address w.
       case split_scheme address of
         None \<Rightarrow> (Inl (Err ''Failed to find factory''), w)
       | Some (scheme, rest) \<Rightarrow>
           (case map_of fs scheme of None \<Rightarrow> (Inl (Err ''Failed to find factory''), w) | Some f \<Rightarrow> fCreate f rest w)),
     fSignalToAdd = (\<lambda>address action w. case map_of fs ''tcp'' of None \<Rightarrow> (None, w) | Some f \<Rightarrow> fSignalToAdd f address action w),
     fVerifyReplicaAlive = (\<lambda>address w. case map_of fs ''tcp'' of None \<Rightarrow> (False, w) | Some f \<Rightarrow> fVerifyReplicaAlive f address w)\<rparr>"

end
