(* ===== verification/ReplicaData.thy ===== *)
theory ReplicaData
  imports ReplicaServer
begin

text \<open>
  The data path of an open replica over its files: a write changes exactly its bytes and, in mode \<open>RW\<close>,
  advances the revision counter by one, in memory and in the file.  The files are any implementation that
  satisfies the laws of \<open>punch_file\<close>, over the file system of the replica; \<open>fs_ops\<close> is one.
\<close>

section \<open>The revision counter in its file\<close>

lemma char_of_byte_of_char [simp]: "char_of_byte (byte_of_char c) = c"
proof -
  have "unat (word_of_nat (of_char c) :: byte) = of_char c" by (simp add: unat_of_nat)
  then show ?thesis by (simp add: char_of_byte_def byte_of_char_def)
qed

lemma char_of_byte_0 [simp]: "char_of_byte 0 = CHR 0x00"
  by code_simp

lemma FormatInt_not_nul: "CHR 0x00 \<notin> set (FormatInt n)"
  using FormatInt_chars [of "CHR 0x00" n] by (auto simp: digit_val_def)

lemma length_FormatInt: "- (2 ^ 63) \<le> n \<Longrightarrow> n < 2 ^ 63 \<Longrightarrow> length (FormatInt n) \<le> 20"
proof -
  assume n: "- (2 ^ 63) \<le> n" "n < 2 ^ 63"
  have "nat (- n) < 10 ^ Suc 18" "nat n < 10 ^ Suc 18" using n by (simp_all add: nat_less_iff)
  then show ?thesis using length_format_nat [of "nat (- n)" 18] length_format_nat [of "nat n" 18] by (simp add: FormatInt_def)
qed

lemma trim_nul_pad:
  assumes "CHR 0x00 \<notin> set s"
  shows "trim_nul (s @ replicate k (CHR 0x00)) = s"
proof -
  have d: "dropWhile (\<lambda>c. c = CHR 0x00) (replicate k (CHR 0x00) @ t) = dropWhile (\<lambda>c. c = CHR 0x00) t" for t
    by (induction k) auto
  have i: "dropWhile (\<lambda>c. c = CHR 0x00) t = t" if "CHR 0x00 \<notin> set t" for t
    using that by (cases t) auto
  show ?thesis
  proof (cases s)
    case Nil then show ?thesis using d [of "[]"] by (simp add: trim_nul_def)
  next
    case (Cons c t)
    then have "dropWhile (\<lambda>c. c = CHR 0x00) (s @ replicate k (CHR 0x00)) = s @ replicate k (CHR 0x00)" using assms by auto
    then show ?thesis using d [of "rev s"] i [of "rev s"] assms by (simp add: trim_nul_def)
  qed
qed

lemma splice_0: "length xs \<le> length ys \<Longrightarrow> splice 0 xs ys = xs @ drop (length xs) ys"
  by (simp add: splice_def)

lemma length_revision_block: "- (2 ^ 63) \<le> n \<Longrightarrow> n < 2 ^ 63 \<Longrightarrow> length (revision_block n) = 4096"
  using length_FormatInt [of n] by (simp add: revision_block_def splice_0 revisionBlockSize_def)

lemma parse_revision_block:
  assumes "- (2 ^ 63) \<le> n" "n < 2 ^ 63"
  shows "ParseInt (trim_nul (map char_of_byte (revision_block n))) = Inr n"
proof -
  have "map char_of_byte (revision_block n) = FormatInt n @ replicate (4096 - length (FormatInt n)) (CHR 0x00)"
    using length_FormatInt [OF assms] by (simp add: revision_block_def splice_0 revisionBlockSize_def comp_def)
  then show ?thesis using trim_nul_pad [OF FormatInt_not_nul] ParseInt_FormatInt [OF assms] by simp
qed

section \<open>The open replica\<close>

text \<open>The volume is usable, no requested hole can hurt, and the revision counter has a file of its own.\<close>

definition rep_ok :: "(fs \<Rightarrow> nat \<Rightarrow> int \<Rightarrow> bool) \<Rightarrow> replica \<Rightarrow> fs \<Rightarrow> bool" where
  "rep_ok av r w \<longleftrightarrow>
     wf_disk (av w) (rVolume r) \<and> all_safe (rVolume r, w, rChan r) \<and>
     (\<exists>f. revisionFile r = Some f \<and> Some f \<notin> set (files (rVolume r)) \<and> av w f 4096) \<and>
     \<not> readOnly r \<and> rReplicaType r \<noteq> ''quorum''"

definition rep_byte :: "(fs \<Rightarrow> nat \<Rightarrow> int \<Rightarrow> byte) \<Rightarrow> (fs \<Rightarrow> nat \<Rightarrow> int \<Rightarrow> bool) \<Rightarrow> replica \<Rightarrow> fs \<Rightarrow> int \<Rightarrow> byte" where
  "rep_byte ct al r w p = vol_byte (ct w) (al w) (rVolume r) p"

lemma vol_byte_other:
  assumes wf: "wf_disk av d" and p: "0 \<le> p" "p < vol_size d"
    and c: "\<And>g p. Some g \<in> set (files d) \<Longrightarrow> ct' g p = ct g p" and a: "\<And>g s. Some g \<in> set (files d) \<Longrightarrow> al' g s = al g s"
  shows "vol_byte ct' al' d p = vol_byte ct al d p"
proof -
  have f: "Some (the (files d ! i)) \<in> set (files d)" if i: "1 \<le> i" "i < length (files d)" for i
    using wf_disk_file [OF wf i] nth_mem [OF i(2)] by force
  have "filter (\<lambda>i. al' (the (files d ! i)) s) [2..<length (files d)] = filter (\<lambda>i. al (the (files d ! i)) s) [2..<length (files d)]" for s
    by (rule filter_cong) (auto simp: a f)
  then have "sector_src al' d s = sector_src al d s" for s by (simp add: sector_src_def newest_def)
  moreover have "wf_shape d" using wf by (simp add: wf_disk_def)
  moreover note sector_src_bounds [of d "p div 4096" al] sector_in_range [OF p]
  ultimately show ?thesis using c f by (simp add: vol_byte_def)
qed

locale replica_files = punch_file F content alloc avail
  for F :: "(fs, nat) file_ops" and content alloc avail
begin

text \<open>A write to a volume keeps every property of the world that writes to single files keep.\<close>

lemma WriteAt_keeps:
  assumes "wf_disk (avail w) d" "0 \<le> off" "off + int (length buf) \<le> vol_size d" "all_safe (d, w, ch)" "P w"
    and keep: "\<And>w f n off bs. avail w f n \<Longrightarrow> 0 \<le> off \<Longrightarrow> off + int (length bs) \<le> n \<Longrightarrow> P w \<Longrightarrow> P (snd (fWriteAt F f bs off w))"
  shows "\<exists>d' w' ch'. WriteAt F punch buf off (d, w, ch) = ((write_count off (length buf), None), d', w', ch') \<and>
      wrote content alloc avail (d, w, ch) off buf (d', w', ch') \<and> P w'"
proof -
  let ?av = "\<lambda>w f n. avail w f n \<and> P w"
  have bf: "block_file F content alloc ?av"
  proof (unfold_locales, goal_cases)
    case (1 w f n off len) then show ?case by (intro read_ok) auto
  next
    case (2 w f n off bs) then show ?case by (intro write_ok) auto
  next
    case (3 w f n off bs g p) then show ?case by (intro write_content) auto
  next
    case (4 w f n off bs g s) then show ?case by (intro write_alloc) auto
  next
    case (5 w f n off bs g m) then show ?case using write_avail keep by blast
  next
    case (6 w f n s) then show ?case by (intro fiemap_ok) auto
  qed
  have wf: "wf_disk (?av w) d" using assms(1,5) by (simp add: wf_disk_def)
  obtain v' where v': "WriteAt F punch buf off (d, w, ch) = ((write_count off (length buf), None), v')"
    "wrote content alloc ?av (d, w, ch) off buf v'" using block_file.WriteAt_ok [OF bf wf assms(2,3,4)] by blast
  obtain d' w' ch' where "v' = (d', w', ch')" by (cases v')
  with v' have r: "WriteAt F punch buf off (d, w, ch) = ((write_count off (length buf), None), d', w', ch')"
    "wrote content alloc ?av (d, w, ch) off buf (d', w', ch')" by simp_all
  then have wf': "wf_disk (?av w') d'" by (simp add: wrote_def)
  then have "2 \<le> length (files d')" by (simp add: wf_disk_def wf_shape_def)
  then have "P w'" using wf' by (auto simp: wf_disk_def dest: bspec [of _ _ 1])
  moreover have "wrote content alloc avail (d, w, ch) off buf (d', w', ch')" using r(2) by (auto simp: wrote_def wf_disk_def)
  ultimately show ?thesis using r(1) by blast
qed

text \<open>A write of the revision counter, seen from the volume and from a later read.\<close>

lemma writeRevisionCounter_ok:
  assumes ok: "rep_ok avail r w" and E: "reF E = F" and n: "- (2 ^ 63) \<le> n" "n < 2 ^ 63"
    and keep: "\<And>w f n off bs. avail w f n \<Longrightarrow> 0 \<le> off \<Longrightarrow> off + int (length bs) \<le> n \<Longrightarrow> P w \<Longrightarrow> P (snd (fWriteAt F f bs off w))" and P: "P w"
  shows "\<exists>w'. writeRevisionCounter E n (r, w) = (Inr (), r, w') \<and> rep_ok avail r w' \<and> P w' \<and>
    (\<forall>p. 0 \<le> p \<and> p < vol_size (rVolume r) \<longrightarrow> rep_byte content alloc r w' p = rep_byte content alloc r w p) \<and>
    fst (readRevisionCounter E (r, w')) = Inr n"
proof -
  obtain f where f: "revisionFile r = Some f" "Some f \<notin> set (files (rVolume r))" "avail w f 4096"
    and wf: "wf_disk (avail w) (rVolume r)" and sf: "all_safe (rVolume r, w, rChan r)" and ro: "\<not> readOnly r" "rReplicaType r \<noteq> ''quorum''"
    using ok by (auto simp: rep_ok_def)
  let ?b = "revision_block n"
  have l: "length ?b = 4096" by (rule length_revision_block [OF n])
  have "fst (fWriteAt F f ?b 0 w) = (4096, None)" using write_ok [OF f(3), of 0 ?b] l by simp
  then obtain w' where w': "fWriteAt F f ?b 0 w = ((4096, None), w')" by (metis prod.collapse)
  have ct: "content w' g p = (if g = f \<and> 0 \<le> p \<and> p < 4096 then ?b ! nat p else content w g p)" for g p
    using write_content [OF f(3), of 0 ?b g p] l w' by simp
  have al: "alloc w' g s = alloc w g s" if "g \<noteq> f" for g s using write_alloc [OF f(3), of 0 ?b g s] l w' that by simp
  have av: "avail w' g m" if "avail w g m" for g m using write_avail [OF f(3), of 0 ?b g m] l w' that by simp
  have ok': "rep_ok avail r w'" using f wf sf ro av by (auto simp: rep_ok_def wf_disk_def all_safe_def)
  have "vol_byte (content w') (alloc w') (rVolume r) p = vol_byte (content w) (alloc w) (rVolume r) p"
    if "0 \<le> p" "p < vol_size (rVolume r)" for p
  proof (rule vol_byte_other [OF wf that])
    show "content w' g q = content w g q" if "Some g \<in> set (files (rVolume r))" for g q using that f(2) by (auto simp: ct)
    show "alloc w' g s = alloc w g s" if "Some g \<in> set (files (rVolume r))" for g s using that f(2) by (intro al) auto
  qed
  moreover have "fReadAt F f revisionBlockSize 0 w' = (?b, None)"
  proof -
    have "map (\<lambda>i. content w' f (0 + int i)) [0..<4096] = ?b" by (rule nth_equalityI) (simp_all add: l ct)
    then show ?thesis using read_ok [OF av [OF f(3)], of 0 4096] by (simp add: revisionBlockSize_def)
  qed
  then have "fst (readRevisionCounter E (r, w')) = Inr n"
    using parse_revision_block [OF n] l by (simp add: readRevisionCounter_def f(1) E Let_def splice_def revisionBlockSize_def)
  ultimately show ?thesis using f(1) w' E ok' keep [OF f(3) _ _ P, of 0 ?b] l by (simp add: writeRevisionCounter_def rep_byte_def)
qed

text \<open>The data part of a write.\<close>

definition after_data :: "replica \<Rightarrow> nat diffDisk \<Rightarrow> nat hole list \<Rightarrow> replica" where
  "after_data r d ch = r\<lparr>rVolume := d, rChan := ch, rInfo := (rInfo r)\<lparr>iDirty := True\<rparr>\<rparr>"

lemma write_data:
  assumes ok: "rep_ok avail r w" and rng: "0 \<le> off" "off + int (length buf) \<le> vol_size (rVolume r)"
    and keep: "\<And>w f n off bs. avail w f n \<Longrightarrow> 0 \<le> off \<Longrightarrow> off + int (length bs) \<le> n \<Longrightarrow> P w \<Longrightarrow> P (snd (fWriteAt F f bs off w))" and P: "P w"
  shows "\<exists>d w' ch. WriteAt F punch buf off (rVolume r, w, rChan r) = ((write_count off (length buf), None), d, w', ch) \<and>
    rep_ok avail (after_data r d ch) w' \<and> advances (rVolume r) d \<and> P w' \<and>
    (\<forall>p. 0 \<le> p \<and> p < vol_size (rVolume r) \<longrightarrow>
       rep_byte content alloc (after_data r d ch) w' p = overwrite (rep_byte content alloc r w) off buf p)"
proof -
  obtain f where f: "revisionFile r = Some f" "Some f \<notin> set (files (rVolume r))" "avail w f 4096"
    and wf: "wf_disk (avail w) (rVolume r)" and sf: "all_safe (rVolume r, w, rChan r)" and ro: "\<not> readOnly r" "rReplicaType r \<noteq> ''quorum''"
    using ok by (auto simp: rep_ok_def)
  have Pf: "P w \<and> avail w f 4096" using P f by simp
  obtain d w' ch where
    w: "WriteAt F punch buf off (rVolume r, w, rChan r) = ((write_count off (length buf), None), d, w', ch)"
    "wrote content alloc avail (rVolume r, w, rChan r) off buf (d, w', ch)" "P w' \<and> avail w' f 4096"
    using WriteAt_keeps [OF wf rng sf, where P = "\<lambda>w. P w \<and> avail w f 4096" and punch = punch] Pf keep write_avail by blast
  then have "files d = files (rVolume r)" by (simp add: wrote_def advances_def)
  then have "rep_ok avail (after_data r d ch) w'" using w f ro by (auto simp: rep_ok_def after_data_def wrote_def)
  then show ?thesis using w by (auto simp: wrote_def rep_byte_def [abs_def] after_data_def)
qed

lemma rep_ok_cache [simp]: "rep_ok av (r\<lparr>revisionCache := x\<rparr>) w = rep_ok av r w"
  by (simp add: rep_ok_def)

lemma r_WriteAt_RW:
  assumes ok: "rep_ok avail r w" and rng: "0 \<le> off" "off + int (length buf) \<le> vol_size (rVolume r)"
    and E: "reF E = F" and m: "rMode r = RW"
    and keep: "\<And>w f n off bs. avail w f n \<Longrightarrow> 0 \<le> off \<Longrightarrow> off + int (length bs) \<le> n \<Longrightarrow> P w \<Longrightarrow> P (snd (fWriteAt F f bs off w))" and P: "P w"
  shows "\<exists>r' w'. r_WriteAt E buf off (r, w) = ((write_count off (length buf), None), r', w') \<and> rep_ok avail r' w' \<and> P w' \<and>
    advances (rVolume r) (rVolume r') \<and> rMode r' = RW \<and> revisionFile r' = revisionFile r \<and>
    (\<forall>p. 0 \<le> p \<and> p < vol_size (rVolume r) \<longrightarrow> rep_byte content alloc r' w' p = overwrite (rep_byte content alloc r w) off buf p) \<and>
    revisionCache r' = i64 (revisionCache r + 1) \<and> fst (readRevisionCounter E (r', w')) = Inr (revisionCache r')"
proof -
  let ?n = "i64 (revisionCache r + 1)"
  obtain d w1 ch where w: "WriteAt F (rePunch E) buf off (rVolume r, w, rChan r) = ((write_count off (length buf), None), d, w1, ch)"
    and ok1: "rep_ok avail (after_data r d ch) w1" and ad: "advances (rVolume r) d" and P1: "P w1"
    and b1: "\<And>p. 0 \<le> p \<Longrightarrow> p < vol_size (rVolume r) \<Longrightarrow>
       rep_byte content alloc (after_data r d ch) w1 p = overwrite (rep_byte content alloc r w) off buf p"
    using write_data [OF ok rng, where P = P and punch = "rePunch E"] keep P by blast
  let ?r = "after_data r d ch"
  have n: "- (2 ^ 63) \<le> ?n" "?n < 2 ^ 63" by (simp_all add: i64_def)
  obtain w2 where w2: "writeRevisionCounter E ?n (?r, w1) = (Inr (), ?r, w2)" "rep_ok avail ?r w2" "P w2"
    and b2: "\<And>p. 0 \<le> p \<Longrightarrow> p < vol_size (rVolume ?r) \<Longrightarrow> rep_byte content alloc ?r w2 p = rep_byte content alloc ?r w1 p"
    and rd: "fst (readRevisionCounter E (?r, w2)) = Inr ?n"
    using writeRevisionCounter_ok [OF ok1 E n, where P = P] keep P1 by blast
  have vs: "vol_size (rVolume ?r) = vol_size (rVolume r)" using ad by (simp add: after_data_def vol_size_def advances_def)
  have rd': "fst (readRevisionCounter E (?r\<lparr>revisionCache := ?n\<rparr>, w2)) = Inr ?n"
    using rd by (auto simp: readRevisionCounter_def Let_def split: option.splits prod.splits if_splits sum.splits)
  have c: "revisionCache ?r = revisionCache r" by (simp add: after_data_def)
  have ro: "\<not> readOnly r" "rReplicaType r \<noteq> ''quorum''" using ok by (auto simp: rep_ok_def)
  have "r_WriteAt E buf off (r, w) = ((write_count off (length buf), None), ?r\<lparr>revisionCache := ?n\<rparr>, w2)"
    using ro m w w2 E c unfolding r_WriteAt_def increaseRevisionCounter_def by (simp add: rop_defs after_data_def split: unit.splits)
  moreover have "rep_byte content alloc (?r\<lparr>revisionCache := ?n\<rparr>) w2 p = overwrite (rep_byte content alloc r w) off buf p"
    if "0 \<le> p" "p < vol_size (rVolume r)" for p
    using b1 [OF that] b2 [of p] that vs by (simp add: rep_byte_def)
  ultimately show ?thesis using w2 ad m rd' by (simp add: after_data_def)
qed

text \<open>In any other mode the data is written too, but the counter stays, and outside of \<open>WO\<close> the answer is an error.\<close>

lemma r_WriteAt_other:
  assumes ok: "rep_ok avail r w" and rng: "0 \<le> off" "off + int (length buf) \<le> vol_size (rVolume r)"
    and E: "reF E = F" and m: "rMode r \<noteq> RW"
    and keep: "\<And>w f n off bs. avail w f n \<Longrightarrow> 0 \<le> off \<Longrightarrow> off + int (length bs) \<le> n \<Longrightarrow> P w \<Longrightarrow> P (snd (fWriteAt F f bs off w))" and P: "P w"
  shows "\<exists>r' w'. r_WriteAt E buf off (r, w) =
      ((write_count off (length buf), if rMode r = WO then None else Some (Err ''write happening on invalid rep state'')), r', w') \<and>
    rep_ok avail r' w' \<and> P w' \<and> advances (rVolume r) (rVolume r') \<and> rMode r' = rMode r \<and> revisionFile r' = revisionFile r \<and>
    (\<forall>p. 0 \<le> p \<and> p < vol_size (rVolume r) \<longrightarrow> rep_byte content alloc r' w' p = overwrite (rep_byte content alloc r w) off buf p) \<and>
    revisionCache r' = revisionCache r"
proof -
  obtain d w1 ch where w: "WriteAt F (rePunch E) buf off (rVolume r, w, rChan r) = ((write_count off (length buf), None), d, w1, ch)"
    and ok1: "rep_ok avail (after_data r d ch) w1" and ad: "advances (rVolume r) d" and P1: "P w1"
    and b1: "\<And>p. 0 \<le> p \<Longrightarrow> p < vol_size (rVolume r) \<Longrightarrow>
       rep_byte content alloc (after_data r d ch) w1 p = overwrite (rep_byte content alloc r w) off buf p"
    using write_data [OF ok rng, where P = P and punch = "rePunch E"] keep P by blast
  have ro: "\<not> readOnly r" "rReplicaType r \<noteq> ''quorum''" using ok by (auto simp: rep_ok_def)
  have "r_WriteAt E buf off (r, w) =
      ((write_count off (length buf), if rMode r = WO then None else Some (Err ''write happening on invalid rep state'')), after_data r d ch, w1)"
    using ro m w E by (simp add: r_WriteAt_def after_data_def)
  then show ?thesis using ok1 ad P1 b1 by (simp add: after_data_def)
qed

lemma r_WriteAt_any:
  assumes ok: "rep_ok avail r w" and rng: "0 \<le> off" "off + int (length buf) \<le> vol_size (rVolume r)" and E: "reF E = F"
    and keep: "\<And>w f n off bs. avail w f n \<Longrightarrow> 0 \<le> off \<Longrightarrow> off + int (length bs) \<le> n \<Longrightarrow> P w \<Longrightarrow> P (snd (fWriteAt F f bs off w))" and P: "P w"
  shows "\<exists>err r' w'. r_WriteAt E buf off (r, w) = ((write_count off (length buf), err), r', w') \<and> rep_ok avail r' w' \<and> P w' \<and>
    advances (rVolume r) (rVolume r') \<and> revisionFile r' = revisionFile r \<and>
    (\<forall>p. 0 \<le> p \<and> p < vol_size (rVolume r) \<longrightarrow> rep_byte content alloc r' w' p = overwrite (rep_byte content alloc r w) off buf p) \<and>
    (err = None \<longleftrightarrow> rMode r = RW \<or> rMode r = WO) \<and> (\<forall>e. err = Some e \<longrightarrow> e = Err ''write happening on invalid rep state'')"
proof (cases "rMode r = RW")
  case True
  then show ?thesis using r_WriteAt_RW [OF ok rng E True, where P = P] keep P by blast
next
  case False
  obtain r' w' where "r_WriteAt E buf off (r, w) =
      ((write_count off (length buf), if rMode r = WO then None else Some (Err ''write happening on invalid rep state'')), r', w')"
    "rep_ok avail r' w'" "P w'" "advances (rVolume r) (rVolume r')" "revisionFile r' = revisionFile r"
    "\<forall>p. 0 \<le> p \<and> p < vol_size (rVolume r) \<longrightarrow> rep_byte content alloc r' w' p = overwrite (rep_byte content alloc r w) off buf p"
    using r_WriteAt_other [OF ok rng E False, where P = P] keep P by blast
  then show ?thesis using False by auto
qed

lemma r_ReadAt_ok:
  assumes ok: "rep_ok avail r w" and rng: "0 \<le> off" "off + int (length buf) \<le> vol_size (rVolume r)" and E: "reF E = F"
  shows "\<exists>r'. r_ReadAt E buf off (r, w) =
      (((int (length buf), None), bytes_at (rep_byte content alloc r w) off (length buf)), r', w) \<and>
    rep_ok avail r' w \<and> (\<exists>d. r' = r\<lparr>rVolume := d\<rparr> \<and> agrees (alloc w) (rVolume r) d) \<and>
    (\<forall>p. 0 \<le> p \<and> p < vol_size (rVolume r) \<longrightarrow> rep_byte content alloc r' w p = rep_byte content alloc r w p)"
proof -
  have wf: "wf_disk (avail w) (rVolume r)" and sf: "all_safe (rVolume r, w, rChan r)" using ok by (auto simp: rep_ok_def)
  obtain d where d: "ReadAt F buf off (rVolume r) w =
      ((int (length buf), None), bytes_at (vol_byte (content w) (alloc w) (rVolume r)) off (length buf), d)"
    "agrees (alloc w) (rVolume r) d" "wf_disk (avail w) d"
    using ReadAt_ok [OF wf rng] by blast
  have "all_safe (d, w, rChan r)" using sf hole_safe_advances agrees_advances [OF d(2)] by (auto simp: all_safe_def)
  then have "rep_ok avail (r\<lparr>rVolume := d\<rparr>) w" using ok d(3) agrees_frame [OF d(2)] by (auto simp: rep_ok_def)
  then show ?thesis
    using d agrees_vol_byte [OF d(2)] by (auto simp: r_ReadAt_def E rep_byte_def [abs_def])
qed

end

section \<open>Sparse files behind the names of the file system\<close>

definition fs_ops :: "(fs, nat) file_ops" where
  "fs_ops = \<lparr>
     fFd = fFd sp_ops,
     fReadAt = (\<lambda>f n off w. fReadAt sp_ops f n off (ino_data w)),
     fWriteAt = (\<lambda>f bs off w. case fWriteAt sp_ops f bs off (ino_data w) of (x, d) \<Rightarrow> (x, w\<lparr>ino_data := d\<rparr>)),
     fClose = (\<lambda>f w. (None, w)),
     fFsync = (\<lambda>f w. (None, w)),
     fPunch = (\<lambda>f off n w. case fPunch sp_ops f off n (ino_data w) of (x, d) \<Rightarrow> (x, w\<lparr>ino_data := d\<rparr>)),
     fFiemap = (\<lambda>f start n count w. fFiemap sp_ops f start n count (ino_data w))\<rparr>"

definition fs_content :: "fs \<Rightarrow> nat \<Rightarrow> int \<Rightarrow> byte" where
  "fs_content w = sp_content (ino_data w)"

definition fs_alloc :: "fs \<Rightarrow> nat \<Rightarrow> int \<Rightarrow> bool" where
  "fs_alloc w = sp_alloc (ino_data w)"

definition fs_avail :: "fs \<Rightarrow> nat \<Rightarrow> int \<Rightarrow> bool" where
  "fs_avail w = sp_avail (ino_data w)"

interpretation fso: replica_files fs_ops fs_content fs_alloc fs_avail
proof (unfold_locales, goal_cases)
  case (1 w f n off len) then show ?case using sp.read_ok [of "ino_data w" f n off len] by (simp add: fs_ops_def fs_content_def fs_avail_def)
next
  case (2 w f n off bs) then show ?case using sp.write_ok [of "ino_data w" f n off bs] by (simp add: fs_ops_def fs_avail_def case_prod_unfold)
next
  case (3 w f n off bs g p)
  then show ?case using sp.write_content [of "ino_data w" f n off bs g p] by (simp add: fs_ops_def fs_avail_def fs_content_def case_prod_unfold)
next
  case (4 w f n off bs g s)
  then show ?case using sp.write_alloc [of "ino_data w" f n off bs g s] by (simp add: fs_ops_def fs_avail_def fs_alloc_def case_prod_unfold)
next
  case (5 w f n off bs g m)
  then show ?case using sp.write_avail [of "ino_data w" f n off bs g m] by (simp add: fs_ops_def fs_avail_def case_prod_unfold)
next
  case (6 w f n s)
  then show ?case using sp.fiemap_ok [of "ino_data w" f n s] by (simp add: fs_ops_def fs_avail_def fs_alloc_def)
next
  case (7 w f n off len) then show ?case using spp.punch_ok [of "ino_data w" f n off len] by (simp add: fs_ops_def fs_avail_def case_prod_unfold)
next
  case (8 w f off len g p)
  then show ?case using spp.punch_content [of g f off p len "ino_data w"] by (simp add: fs_ops_def fs_content_def case_prod_unfold)
next
  case (9 w f off len g s)
  then show ?case using spp.punch_alloc [of g f off s len "ino_data w"] by (simp add: fs_ops_def fs_alloc_def case_prod_unfold)
next
  case (10 w f off len g n)
  then show ?case using spp.punch_avail [of "ino_data w" g n f off len] by (simp add: fs_ops_def fs_avail_def case_prod_unfold)
qed

end
