(* ===== verification/ReplicaFrame.thy ===== *)
theory ReplicaFrame
  imports ReplicaData ReplicaRest
begin

text \<open>
  What the control operations leave alone.  \<open>keeps D rf w w'\<close> says that a change of the file system does
  not touch the data of the inodes \<open>D\<close> (the files of an open volume) and does not shorten \<open>rf\<close> (the file
  of the revision counter); \<open>tame D rf m\<close> says so for an operation of the replica that also leaves its
  volume alone.  The operations are tame because each way of composing statements keeps tameness, and
  the calls on files do.  Describing a replica and setting its checkpoint are tame.
\<close>

named_theorems tame_intros \<open>tameness of operations\<close>

section \<open>Changes of the file system\<close>

text \<open>No temporary file and no file of the counter is a file of the volume.\<close>

definition fs_clean :: "nat set \<Rightarrow> nat \<Rightarrow> fs \<Rightarrow> bool" where
  "fs_clean D rf w \<longleftrightarrow>
     (\<forall>i\<in>insert rf D. i < next_ino w) \<and>
     (\<forall>name i. dirents w (name @ ''.tmp'') = Some i \<longrightarrow> i \<notin> insert rf D) \<and>
     (\<forall>i. dirents w revisionCounterFile = Some i \<longrightarrow> i \<notin> D)"

definition keeps :: "nat set \<Rightarrow> nat \<Rightarrow> fs \<Rightarrow> fs \<Rightarrow> bool" where
  "keeps D rf w w' \<longleftrightarrow>
     (fs_clean D rf w \<longrightarrow>
        fs_clean D rf w' \<and> (\<forall>i\<in>D. ino_data w' i = ino_data w i) \<and> slen (ino_data w rf) \<le> slen (ino_data w' rf))"

lemma keeps_refl [tame_intros]: "keeps D rf w w"
  by (simp add: keeps_def)

lemma keeps_trans: "keeps D rf w w1 \<Longrightarrow> keeps D rf w1 w2 \<Longrightarrow> keeps D rf w w2"
  unfolding keeps_def using order_trans by (metis (no_types, lifting))

lemma fs_clean_cong: "dirents w' = dirents w \<Longrightarrow> next_ino w' = next_ino w \<Longrightarrow> fs_clean D rf w' = fs_clean D rf w"
  by (simp add: fs_clean_def)

lemma keeps_tick: "keeps D rf w (w\<lparr>tick := n\<rparr>)"
  using fs_clean_cong [of "w\<lparr>tick := n\<rparr>" w D rf] by (simp add: keeps_def)

lemma keeps_sys: "(\<And>w. keeps D rf w (snd (f w))) \<Longrightarrow> keeps D rf w (snd (sys f w))"
proof -
  assume a: "\<And>w. keeps D rf w (snd (f w))"
  have "keeps D rf w (snd (f (w\<lparr>tick := tick w + 1\<rparr>)))" by (rule keeps_trans [OF keeps_tick a])
  then show ?thesis using keeps_tick [of D rf w "tick w + 1"] by (simp add: sys_def split: option.splits)
qed

lemma keeps_Stat [tame_intros]: "keeps D rf w (snd (os_Stat name w))"
  unfolding os_Stat_def by (rule keeps_sys) (simp add: keeps_refl split: option.splits)

lemma keeps_Close [tame_intros]: "keeps D rf w (snd (os_Close w))"
  unfolding os_Close_def by (rule keeps_sys) (simp add: keeps_refl)

lemma keeps_Decode [tame_intros]: "keeps D rf w (snd (json_Decode i w))"
  unfolding json_Decode_def by (rule keeps_sys) (simp add: keeps_refl split: option.splits)

lemma keeps_Encode [tame_intros]: "keeps D rf w (snd (json_Encode i m w))"
  unfolding json_Encode_def by (rule keeps_sys) (simp add: keeps_def fs_clean_def)

lemma revisionCounterFile_tmp: "name @ ''.tmp'' \<noteq> revisionCounterFile"
proof
  assume "name @ ''.tmp'' = revisionCounterFile"
  then have "last (name @ ''.tmp'') = last revisionCounterFile" by simp
  then show False by (simp add: revisionCounterFile_def)
qed

text \<open>Opening a file makes at most a new inode; what it truncates is a temporary file.\<close>

lemma keeps_Open_new:
  assumes "dirents w name = None"
  shows "keeps D rf w (w\<lparr>dirents := (dirents w)(name \<mapsto> next_ino w), next_ino := Suc (next_ino w),
             ino_data := (ino_data w)(next_ino w := empty_file), ino_meta := M\<rparr>)"
  unfolding keeps_def fs_clean_def by (auto simp: less_Suc_eq split: if_splits)

lemma keeps_Open [tame_intros]: "keeps D rf w (snd (os_Open creat False name w))"
  unfolding os_Open_def
  by (rule keeps_sys) (simp add: keeps_refl keeps_Open_new split: option.splits)

lemma keeps_Open_tmp [tame_intros]: "keeps D rf w (snd (os_Open creat trunc (name @ ''.tmp'') w))"
proof -
  have "keeps D rf w (w\<lparr>ino_data := (ino_data w)(i := empty_file), ino_meta := M\<rparr>)" if "dirents w (name @ ''.tmp'') = Some i" for w i M
    unfolding keeps_def
  proof (intro impI conjI ballI)
    assume c: "fs_clean D rf w"
    then have i: "i \<noteq> rf" "i \<notin> D" using that by (auto simp: fs_clean_def)
    show "fs_clean D rf (w\<lparr>ino_data := (ino_data w)(i := empty_file), ino_meta := M\<rparr>)" using c by (simp add: fs_clean_def)
    show "ino_data (w\<lparr>ino_data := (ino_data w)(i := empty_file), ino_meta := M\<rparr>) j = ino_data w j" if "j \<in> D" for j
      using that i by auto
    show "slen (ino_data w rf) \<le> slen (ino_data (w\<lparr>ino_data := (ino_data w)(i := empty_file), ino_meta := M\<rparr>) rf)" using i by simp
  qed
  then show ?thesis unfolding os_Open_def
    by (intro keeps_sys) (simp add: keeps_refl keeps_Open_new split: option.splits)
qed

lemma keeps_Rename_tmp [tame_intros]: "keeps D rf w (snd (os_Rename (name @ ''.tmp'') new w))"
proof -
  have "keeps D rf w (w\<lparr>dirents := (dirents w)(name @ ''.tmp'' := None, new \<mapsto> i)\<rparr>)" if "dirents w (name @ ''.tmp'') = Some i" for w i
    using that unfolding keeps_def fs_clean_def by (auto split: if_splits)
  then show ?thesis unfolding os_Rename_def
    by (intro keeps_sys) (simp add: keeps_refl split: option.splits)
qed

lemma keeps_SyncDir [tame_intros]: "keeps D rf w (snd (fs_SyncDir w))"
proof -
  let ?a = "sys (\<lambda>w. if have_dir w then (Inr (), w) else (Inl ErrNotExist, w))" and ?b = "sys (\<lambda>w. (Inr (), w))"
  have a: "keeps D rf w (snd (?a w))" for w by (rule keeps_sys) (simp add: keeps_refl)
  have b: "keeps D rf w (snd (?b w))" for w by (rule keeps_sys) (simp add: keeps_refl)
  obtain r1 w1 where 1: "?a w = (r1, w1)" by (metis prod.exhaust)
  obtain r2 w2 where 2: "(?b w1 :: unit result \<times> fs) = (r2, w2)" by (metis prod.exhaust)
  obtain r3 w3 where 3: "os_Close w2 = (r3, w3)" by (metis prod.exhaust)
  have "keeps D rf w w1" "keeps D rf w1 w2" "keeps D rf w2 w3" using a [of w] b [of w1] keeps_Close [of D rf w2] 1 2 3 by simp_all
  then have "keeps D rf w w1" "keeps D rf w w3" using keeps_trans by metis+
  then show ?thesis using 1 2 3 by (simp add: fs_SyncDir_def split: sum.splits unit.splits)
qed

lemma keeps_unmarshal [tame_intros]: "keeps D rf w (snd (unmarshalFile name w))"
proof -
  obtain r1 w1 where 1: "os_Open False False name w = (r1, w1)" by (metis prod.exhaust)
  have k1: "keeps D rf w w1" using keeps_Open [of D rf w False name] 1 by simp
  show ?thesis
  proof (cases r1)
    case (Inl e) then show ?thesis using 1 k1 by (simp add: unmarshalFile_def)
  next
    case (Inr f)
    obtain r2 w2 where 2: "json_Decode f w1 = (r2, w2)" by (metis prod.exhaust)
    obtain r3 w3 where 3: "os_Close w2 = (r3, w3)" by (metis prod.exhaust)
    have "keeps D rf w1 w2" "keeps D rf w2 w3" using keeps_Decode [of D rf w1 f] keeps_Close [of D rf w2] 2 3 by simp_all
    then have "keeps D rf w w3" using k1 keeps_trans by metis
    then show ?thesis using 1 2 3 Inr by (simp add: unmarshalFile_def split: sum.splits unit.splits)
  qed
qed

lemma keeps_dec_info [tame_intros]: "keeps D rf w (snd (dec_info name bf w))"
  using keeps_unmarshal [of D rf w name]
  by (cases "unmarshalFile name w") (auto simp: dec_info_def split: sum.splits meta.splits)

lemma keeps_ActualSize [tame_intros]: "keeps D rf w (snd (GetFileActualSize name w))"
  using keeps_Stat [of D rf w name] by (cases "os_Stat name w") (auto simp: GetFileActualSize_def split: sum.splits)

section \<open>Tame operations\<close>

definition same_data :: "replica \<Rightarrow> replica \<Rightarrow> bool" where
  "same_data r r' \<longleftrightarrow> rVolume r' = rVolume r \<and> rChan r' = rChan r \<and> revisionFile r' = revisionFile r \<and>
     readOnly r' = readOnly r \<and> rReplicaType r' = rReplicaType r \<and> iSize (rInfo r') = iSize (rInfo r)"

definition tame :: "nat set \<Rightarrow> nat \<Rightarrow> 'a rop \<Rightarrow> bool" where
  "tame D rf m \<longleftrightarrow> (\<forall>r w. case m (r, w) of (_, r', w') \<Rightarrow> same_data r r' \<and> keeps D rf w w')"

lemma tameI: "(\<And>r w x r' w'. m (r, w) = (x, r', w') \<Longrightarrow> same_data r r' \<and> keeps D rf w w') \<Longrightarrow> tame D rf m"
  unfolding tame_def by (auto split: prod.splits)

lemma tameD: "tame D rf m \<Longrightarrow> m (r, w) = (x, r', w') \<Longrightarrow> same_data r r' \<and> keeps D rf w w'"
  unfolding tame_def by (metis (mono_tags, lifting) case_prod_conv)

lemma same_data_refl [simp]: "same_data r r"
  by (simp add: same_data_def)

lemma same_data_trans: "same_data r r1 \<Longrightarrow> same_data r1 r2 \<Longrightarrow> same_data r r2"
  by (simp add: same_data_def)

lemma tame_retR [tame_intros]: "tame D rf (retR x)"
  by (rule tameI) (auto simp: retR_def keeps_refl)

lemma tame_failR [tame_intros]: "tame D rf (failR e)"
  by (rule tameI) (auto simp: failR_def keeps_refl)

lemma tame_bindR [tame_intros]:
  assumes m: "tame D rf m" and f: "\<And>x. tame D rf (f x)"
  shows "tame D rf (bindR m f)"
proof (rule tameI)
  fix r w x r' w'
  assume a: "bindR m f (r, w) = (x, r', w')"
  obtain y r1 w1 where 1: "m (r, w) = (y, r1, w1)" by (metis prod.exhaust)
  note t = tameD [OF m 1]
  show "same_data r r' \<and> keeps D rf w w'"
  proof (cases y)
    case (Inl e) then show ?thesis using a 1 t by (simp add: bindR_def)
  next
    case (Inr z)
    then have "f z (r1, w1) = (x, r', w')" using a 1 by (simp add: bindR_def)
    from tameD [OF f this] t show ?thesis using same_data_trans keeps_trans by metis
  qed
qed

lemma tame_thenR [tame_intros]: "tame D rf m \<Longrightarrow> tame D rf n \<Longrightarrow> tame D rf (thenR m n)"
  unfolding thenR_def by (rule tame_bindR)

lemma tame_withR [tame_intros]:
  assumes "\<And>r. tame D rf (f r)"
  shows "tame D rf (withR f)"
proof (rule tameI)
  fix r w x r' w'
  assume "withR f (r, w) = (x, r', w')"
  then have "f r (r, w) = (x, r', w')" by (simp add: withR_def)
  then show "same_data r r' \<and> keeps D rf w w'" by (rule tameD [OF assms])
qed

lemma tame_modR [tame_intros]: "(\<And>r. same_data r (f r)) \<Longrightarrow> tame D rf (modR f)"
  by (rule tameI) (auto simp: modR_def keeps_refl)

lemma tame_fsR [tame_intros]:
  assumes "\<And>w. keeps D rf w (snd (f w))"
  shows "tame D rf (fsR f)"
proof (rule tameI)
  fix r w x r' w'
  assume a: "fsR f (r, w) = (x, r', w')"
  then have "f w = (x, w')" "r' = r" by (auto simp: fsR_def split: prod.splits)
  then show "same_data r r' \<and> keeps D rf w w'" using assms [of w] by simp
qed

lemma tame_attemptR [tame_intros]: "tame D rf m \<Longrightarrow> tame D rf (attemptR m)"
proof (rule tameI)
  fix r w x r' w'
  assume m: "tame D rf m" and a: "attemptR m (r, w) = (x, r', w')"
  obtain y r1 w1 where 1: "m (r, w) = (y, r1, w1)" by (metis prod.exhaust)
  then have "r' = r1" "w' = w1" using a by (simp_all add: attemptR_def split: sum.splits error.splits)
  then show "same_data r r' \<and> keeps D rf w w'" using tameD [OF m 1] by simp
qed

lemma tame_if [tame_intros]: "tame D rf m \<Longrightarrow> tame D rf n \<Longrightarrow> tame D rf (if b then m else n)"
  by simp

lemma tame_sum [tame_intros]:
  "(\<And>e. tame D rf (f e)) \<Longrightarrow> (\<And>x. tame D rf (g x)) \<Longrightarrow> tame D rf (case y of Inl e \<Rightarrow> f e | Inr x \<Rightarrow> g x)"
  by (cases y) simp_all

lemma tame_encodeToFile [tame_intros]: "tame D rf (encodeToFile obj file)"
  unfolding encodeToFile_def by (intro tame_intros)

lemma tame_readRevisionCounter [tame_intros]: "tame D rf (readRevisionCounter E)"
  by (rule tameI) (auto simp: readRevisionCounter_def Let_def keeps_refl split: option.splits prod.splits if_splits sum.splits)

lemma tame_GetRevisionCounter [tame_intros]: "tame D rf (GetRevisionCounter E)"
  unfolding GetRevisionCounter_def by (intro tame_intros) (simp add: same_data_def)

lemma tame_getDiskSize [tame_intros]: "tame D rf (getDiskSize name)"
proof (rule tameI)
  fix r w x r' w'
  assume a: "getDiskSize name (r, w) = (x, r', w')"
  then show "same_data r r' \<and> keeps D rf w w'"
    using keeps_ActualSize [of D rf w name]
    by (auto simp: getDiskSize_def rop_defs split: prod.splits if_splits)
qed

lemma tame_list_disks [tame_intros]: "tame D rf (list_disks ds)"
proof (induction ds)
  case (Cons nd ds)
  obtain n p where "nd = (n, p)" by (cases nd)
  then show ?case using Cons unfolding \<open>nd = (n, p)\<close> list_disks.simps Let_def by (intro tame_intros)
qed (simp add: tame_retR)

lemma tame_describe_open [tame_intros]: "tame D rf (describe_open E i)"
proof -
  have [tame_intros]: "tame D rf (case e of Diverge \<Rightarrow> failR Diverge | _ \<Rightarrow> retR ())" for e
    by (auto simp: tame_retR tame_failR split: error.splits)
  show ?thesis unfolding describe_open_def Let_def ListDisks_def r_GetCloneStatus_def by (intro tame_intros)
qed

lemma tame_SetCheckpoint [tame_intros]: "tame D rf (r_SetCheckpoint name)"
  unfolding r_SetCheckpoint_def by (intro tame_intros) (simp add: same_data_def)

section \<open>The server\<close>

text \<open>The handler for the description opens the file of the counter for itself, and makes it if there is none.\<close>

lemma keeps_write_other:
  assumes "i \<notin> D"
  shows "keeps D rf w (snd (fWriteAt fs_ops i bs off w))"
proof -
  have "keeps D rf w (w\<lparr>ino_data := (ino_data w)(i := (ino_data w i)\<lparr>sdata := d, salloc := a, slen := max (slen (ino_data w i)) n\<rparr>)\<rparr>)" for d a n
    using assms unfolding keeps_def fs_clean_def by auto
  then show ?thesis by (simp add: fs_ops_def sp_ops_def)
qed

lemma open_counter:
  assumes "os_Open isCreate False revisionCounterFile w = (Inr i, w1)" "fs_clean D rf w"
  shows "i \<notin> D"
  using assms by (auto simp: os_Open_def sys_def fs_clean_def split: option.splits if_splits)

text \<open>Opening the file of the counter for a replica without a volume, and writing the first counter.\<close>

lemma openRevisionFile_keeps:
  assumes "openRevisionFile c (r, w) = (x, r', w')"
  shows "keeps D rf w w' \<and> (x = Inr () \<longrightarrow> fs_clean D rf w \<longrightarrow> (\<exists>f. revisionFile r' = Some f \<and> f \<notin> D))"
proof -
  obtain y w1 where 1: "os_Open c False revisionCounterFile w = (y, w1)" by (metis prod.exhaust)
  have k: "keeps D rf w w1" using keeps_Open [of D rf w c revisionCounterFile] 1 by simp
  show ?thesis
  proof (cases y)
    case (Inl e)
    then show ?thesis using assms 1 k by (auto simp: openRevisionFile_def rop_defs split: error.splits)
  next
    case (Inr i)
    then show ?thesis using assms 1 k open_counter [of c w i w1 D rf] by (auto simp: openRevisionFile_def rop_defs)
  qed
qed

lemma keepsI: "(fs_clean D rf w \<Longrightarrow> keeps D rf w w') \<Longrightarrow> keeps D rf w w'"
  by (auto simp: keeps_def)

lemma writeRevisionCounter_keeps:
  assumes "writeRevisionCounter E n (r, w) = (x, r', w')" "reF E = fs_ops" "revisionFile r = Some f" "f \<notin> D"
  shows "keeps D rf w w'"
  using assms keeps_write_other [OF assms(4), of rf w "revision_block n" 0]
  by (auto simp: writeRevisionCounter_def split: prod.splits option.splits)

text \<open>The file is made and filled, or only opened.\<close>

lemma counter_opened:
  assumes "bindR (attemptR (fsR (os_Stat revisionCounterFile)))
          (\<lambda>res. case res of
             Inl e \<Rightarrow> if e \<noteq> ErrNotExist then failR e else thenR (openRevisionFile True) (writeRevisionCounter E 1)
           | Inr _ \<Rightarrow> openRevisionFile False) (r, w) = (x, r', w')" and E: "reF E = fs_ops"
  shows "keeps D rf w w'"
proof (rule keepsI)
  assume c: "fs_clean D rf w"
  obtain y w1 where 1: "os_Stat revisionCounterFile w = (y, w1)" by (metis prod.exhaust)
  have k: "keeps D rf w w1" using keeps_Stat [of D rf w revisionCounterFile] 1 by simp
  then have c1: "fs_clean D rf w1" using c by (simp add: keeps_def)
  obtain y2 r2 w2 where 2: "openRevisionFile True (r, w1) = (y2, r2, w2)" by (metis prod.exhaust)
  note o2 = openRevisionFile_keeps [OF 2, of D rf]
  obtain y3 r3 w3 where 3: "openRevisionFile False (r, w1) = (y3, r3, w3)" by (metis prod.exhaust)
  note o3 = openRevisionFile_keeps [OF 3, of D rf]
  obtain y4 r4 w4 where 4: "writeRevisionCounter E 1 (r2, w2) = (y4, r4, w4)" by (metis prod.exhaust)
  have "keeps D rf w2 w4" if y2: "y2 = Inr ()"
  proof -
    obtain f where "revisionFile r2 = Some f" "f \<notin> D" using o2 c1 y2 by blast
    then show ?thesis by (rule writeRevisionCounter_keeps [OF 4 E])
  qed
  then have "w' = w1 \<or> w' = w2 \<or> w' = w3 \<or> (w' = w4 \<and> keeps D rf w2 w4)"
    using assms(1) 1 2 3 4 by (auto simp: rop_defs split: sum.splits error.splits if_splits unit.splits)
  then show "keeps D rf w w'" using k o2 o3 keeps_trans by metis
qed

lemma initRevisionCounter_keeps:
  assumes "initRevisionCounter E (r, w) = (x, r', w')" "reF E = fs_ops"
  shows "keeps D rf w w'"
proof -
  define m where "m = bindR (attemptR (fsR (os_Stat revisionCounterFile)))
          (\<lambda>res. case res of
             Inl e \<Rightarrow> if e \<noteq> ErrNotExist then failR e else thenR (openRevisionFile True) (writeRevisionCounter E 1)
           | Inr _ \<Rightarrow> openRevisionFile False)"
  have i: "initRevisionCounter E = thenR m (bindR (readRevisionCounter E) (\<lambda>counter. modR (\<lambda>r. r\<lparr>revisionCache := counter\<rparr>)))"
    by (simp add: initRevisionCounter_def m_def)
  obtain y r1 w1 where 1: "m (r, w) = (y, r1, w1)" by (metis prod.exhaust)
  have k: "keeps D rf w w1" using counter_opened [OF _ assms(2)] 1 unfolding m_def by blast
  obtain y2 r2 w2 where 2: "readRevisionCounter E (r1, w1) = (y2, r2, w2)" by (metis prod.exhaust)
  have k2: "keeps D rf w1 w2" using tameD [OF tame_readRevisionCounter 2] by simp
  have "w' = w1 \<or> w' = w2" using assms(1) 1 2 unfolding i by (auto simp: thenR_def bindR_def modR_def split: sum.splits)
  then show ?thesis using k keeps_trans [OF k k2] by auto
qed

text \<open>The server: an open replica stays as it is, and so do its files.\<close>

definition same_open :: "server \<Rightarrow> server \<Rightarrow> bool" where
  "same_open s s' \<longleftrightarrow>
     (case (sR s, sR s') of (None, None) \<Rightarrow> True | (Some r, Some r') \<Rightarrow> same_data r r' | _ \<Rightarrow> False)"

definition tameS :: "nat set \<Rightarrow> nat \<Rightarrow> 'a sop \<Rightarrow> bool" where
  "tameS D rf m \<longleftrightarrow> (\<forall>s w. case m (s, w) of (_, s', w') \<Rightarrow> same_open s s' \<and> keeps D rf w w')"

lemma tameSI: "(\<And>s w x s' w'. m (s, w) = (x, s', w') \<Longrightarrow> same_open s s' \<and> keeps D rf w w') \<Longrightarrow> tameS D rf m"
  unfolding tameS_def by (auto split: prod.splits)

lemma tameSD: "tameS D rf m \<Longrightarrow> m (s, w) = (x, s', w') \<Longrightarrow> same_open s s' \<and> keeps D rf w w'"
  unfolding tameS_def by (metis (mono_tags, lifting) case_prod_conv)

lemma same_open_refl [simp]: "same_open s s"
  by (simp add: same_open_def split: option.splits)

lemma same_open_trans: "same_open s s1 \<Longrightarrow> same_open s1 s2 \<Longrightarrow> same_open s s2"
  by (auto simp: same_open_def split: option.splits intro: same_data_trans)

lemma keeps_Status [tame_intros]: "keeps D rf w (snd (Status (s, w)))"
  using keeps_dec_info [of D rf w volumeMetaData None]
  by (cases "dec_info volumeMetaData None w") (auto simp: Status_def ReadInfo_def Let_def keeps_refl split: option.splits sum.splits)

lemma keeps_s_GetRevisionCounter:
  assumes "reF (seR E) = fs_ops"
  shows "keeps D rf w (snd (s_GetRevisionCounter E (s, w)))"
proof -
  obtain x r' w' where i: "initRevisionCounter (renv_of E s) (new_replica 0 0 None [] NoDrain, w) = (x, r', w')" by (metis prod.exhaust)
  have "keeps D rf w w'" by (rule initRevisionCounter_keeps [OF i]) (simp add: renv_of_def assms)
  then show ?thesis using i by (auto simp: s_GetRevisionCounter_def split: sum.splits unit.splits)
qed

lemma tameS_with_r: "tame D rf m \<Longrightarrow> tameS D rf (with_r msg m)"
proof (rule tameSI)
  fix s w x s' w'
  assume m: "tame D rf m" and a: "with_r msg m (s, w) = (x, s', w')"
  show "same_open s s' \<and> keeps D rf w w'"
  proof (cases "sR s")
    case None then show ?thesis using a by (auto simp: with_r_def keeps_refl)
  next
    case (Some r)
    obtain y r1 w1 where 1: "m (r, w) = (y, r1, w1)" by (metis prod.exhaust)
    then show ?thesis using a Some tameD [OF m 1] by (auto simp: with_r_def same_open_def)
  qed
qed

lemma tameS_NewReplica: "tameS D rf (NewReplica E st i)"
proof (rule tameSI)
  fix s w x s' w'
  assume a: "NewReplica E st i (s, w) = (x, s', w')"
  show "same_open s s' \<and> keeps D rf w w'"
  proof (cases "sR s")
    case None then show ?thesis using a by (auto simp: NewReplica_def Let_def keeps_refl)
  next
    case (Some r)
    then obtain b y r1 where 1: "describe_open (renv_of E s) b (r, w) = (y, r1, w')" "s' = s\<lparr>sR := Some r1\<rparr>"
      using a by (auto simp: NewReplica_def Let_def split: prod.splits sum.splits)
    show ?thesis using tameD [OF tame_describe_open 1(1)] Some 1(2) by (simp add: same_open_def)
  qed
qed

lemma tameS_rest_Replica:
  assumes "reF (seR E) = fs_ops"
  shows "tameS D rf (rest_Replica E)"
proof (rule tameSI)
  fix s w x s' w'
  assume a: "rest_Replica E (s, w) = (x, s', w')"
  obtain st i w1 where 1: "Status (s, w) = ((st, i), w1)" by (metis prod.exhaust)
  obtain rc w2 where 2: "s_GetRevisionCounter E (s, w1) = (rc, w2)" by (metis prod.exhaust)
  have k: "keeps D rf w w1" "keeps D rf w1 w2"
    using keeps_Status [of D rf w s] keeps_s_GetRevisionCounter [OF assms, of D rf w1 s] 1 2 by simp_all
  have "NewReplica E st (i\<lparr>iRevisionCounter := (case rc of Inl _ \<Rightarrow> 0 | Inr n \<Rightarrow> n)\<rparr>) (s, w2) = (x, s', w')"
    using a 1 2 by (simp add: rest_Replica_def)
  from tameSD [OF tameS_NewReplica this] k show "same_open s s' \<and> keeps D rf w w'" using keeps_trans by metis
qed

lemma tameS_GetReplica:
  assumes "reF (seR E) = fs_ops"
  shows "tameS D rf (GetReplica E)"
proof (rule tameSI)
  fix s w x s' w'
  assume a: "GetReplica E (s, w) = (x, s', w')"
  obtain y s1 w1 where 1: "rest_Replica E (s, w) = (y, s1, w1)" by (metis prod.exhaust)
  then have "s' = s1" "w' = w1" using a by (auto simp: GetReplica_def split: sum.splits prod.splits)
  then show "same_open s s' \<and> keeps D rf w w'" using tameSD [OF tameS_rest_Replica [OF assms] 1] by simp
qed

lemma tameS_checkAction:
  assumes E: "reF (seR E) = fs_ops" and h: "tameS D rf (handler E a)"
  shows "tameS D rf (checkAction E a)"
proof (rule tameSI)
  fix s w x s' w'
  assume c: "checkAction E a (s, w) = (x, s', w')"
  obtain y1 s1 w1 where 1: "rest_Replica E (s, w) = (y1, s1, w1)" by (metis prod.exhaust)
  obtain y2 s2 w2 where 2: "handler E a (s1, w1) = (y2, s2, w2)" by (metis prod.exhaust)
  obtain y3 s3 w3 where 3: "rest_Replica E (s2, w2) = (y3, s3, w3)" by (metis prod.exhaust)
  note t = tameSD [OF tameS_rest_Replica [OF E] 1] tameSD [OF h 2] tameSD [OF tameS_rest_Replica [OF E] 3]
  have d: "doOp E a (s2, w2) = (z, s', w') \<Longrightarrow> (s', w') = (s2, w2) \<or> (s', w') = (s3, w3)" for z
    using 3 by (auto simp: doOp_def split: rest_action.splits sum.splits)
  have "(s', w') = (s1, w1) \<or> (s', w') = (s2, w2) \<or> (s', w') = (s3, w3)"
    using c 1 2 d by (auto simp: checkAction_def split: sum.splits prod.splits if_splits unit.splits)
  moreover have "same_open s s2 \<and> keeps D rf w w2" using t(1,2) same_open_trans keeps_trans by metis
  moreover have "same_open s s3 \<and> keeps D rf w w3" using calculation(2) t(3) same_open_trans keeps_trans by metis
  ultimately show "same_open s s' \<and> keeps D rf w w'" using t(1) by auto
qed

lemma tameS_SetCheckpoint: "tameS D rf (handler E (ASetCheckpoint name))"
  by (simp add: s_SetCheckpoint_def tameS_with_r tame_SetCheckpoint)

end
