(* ===== verification/MultiWriter.thy ===== *)
theory MultiWriter
  imports Backend
begin

text \<open>
  \<open>controller/multi_writer_at.go\<close>: a write goes to every data replica (\<open>writers\<close>) and an empty one to
  every quorum replica (\<open>updaters\<close>), each in a goroutine of its own; the result is decided by
  majorities.  The goroutines act on different replicas and are waited for, so they are run in the
  order of the lists.
\<close>

record 'b multiWriterAt =
  writers :: "'b list"
  updaters :: "'b list"

text \<open>The goroutines started by one loop: the errors by index, with the final world.\<close>

fun run_all :: "('b \<Rightarrow> 'w \<Rightarrow> (int \<times> error option) \<times> 'w) \<Rightarrow> 'b list \<Rightarrow> 'w \<Rightarrow> error option list \<times> 'w" where
  "run_all f [] w = ([], w)"
| "run_all f (b # bs) w =
     (case f b w of ((_, err), w') \<Rightarrow> case run_all f bs w' of (errs, w'') \<Rightarrow> (err # errs, w''))"

definition err_count :: "error option list \<Rightarrow> nat" where
  "err_count errs = length (filter (\<lambda>e. e \<noteq> None) errs)"

definition mw_WriteAt ::
  "('w, 'b) backend_ops \<Rightarrow> 'b multiWriterAt \<Rightarrow> byte list \<Rightarrow> int \<Rightarrow> 'w \<Rightarrow> (int \<times> error option) \<times> 'w" where
  "mw_WriteAt B m p off w =
     (case run_all (\<lambda>b. bWriteAt B b p off) (writers m) w of (replicaErrs, w1) \<Rightarrow>
      case run_all (\<lambda>b. bWriteAt B b [] 0) (updaters m) w1 of (quorumErrs, w2) \<Rightarrow>
      let replicaErrored = (err_count replicaErrs \<noteq> 0);
          quorumErrored = (err_count quorumErrs \<noteq> 0);
          errors = (if replicaErrored then MultiWriterError replicaErrs [] else MultiWriterError [] quorumErrs);
          nw = length (writers m); nu = length (updaters m) in
      if replicaErrored \<or> quorumErrored then
        (if nw - err_count replicaErrs > nw div 2 \<and>
            nw + nu - err_count replicaErrs - err_count quorumErrs > (nw + nu) div 2
         then ((int (length p), Some errors), w2)
         else ((0, Some errors), w2))
      else ((int (length p), None), w2))"

text \<open>The common body of \<open>Sync\<close> and \<open>Unmap\<close>.\<close>

definition mw_all :: "('b \<Rightarrow> 'w \<Rightarrow> (int \<times> error option) \<times> 'w) \<Rightarrow> 'b multiWriterAt \<Rightarrow> 'w \<Rightarrow> (int \<times> error option) \<times> 'w" where
  "mw_all f m w =
     (case run_all f (writers m) w of (replicaErrs, w1) \<Rightarrow>
      if err_count replicaErrs \<noteq> 0 then
        (if length (writers m) - err_count replicaErrs > length (writers m) div 2
         then ((0, Some (MultiWriterError replicaErrs [])), w1)
         else ((-1, Some (MultiWriterError replicaErrs [])), w1))
      else ((0, None), w1))"

definition mw_Sync :: "('w, 'b) backend_ops \<Rightarrow> 'b multiWriterAt \<Rightarrow> 'w \<Rightarrow> (int \<times> error option) \<times> 'w" where
  "mw_Sync B m w = mw_all (bSync B) m w"

definition mw_Unmap :: "('w, 'b) backend_ops \<Rightarrow> 'b multiWriterAt \<Rightarrow> int \<Rightarrow> int \<Rightarrow> 'w \<Rightarrow> (int \<times> error option) \<times> 'w" where
  "mw_Unmap B m offset len w = mw_all (\<lambda>b. bUnmap B b offset len) m w"

section \<open>Majorities\<close>

lemma length_run_all [simp]: "length (fst (run_all f bs w)) = length bs"
  by (induction bs arbitrary: w) (simp_all add: case_prod_unfold)

lemma err_count_le: "err_count errs \<le> length errs"
  by (simp add: err_count_def)

lemma err_count_0: "err_count errs = 0 \<longleftrightarrow> (\<forall>e\<in>set errs. e = None)"
  by (auto simp: err_count_def filter_empty_conv)

lemma successes: "length (filter (\<lambda>e. e = None) errs) = length errs - err_count errs"
  by (induction errs) (auto simp: err_count_def Suc_diff_le)

lemma run_all_append:
  "run_all f (xs @ ys) w = (case run_all f xs w of (es, w') \<Rightarrow> case run_all f ys w' of (es', w'') \<Rightarrow> (es @ es', w''))"
  by (induction xs arbitrary: w) (auto split: prod.splits)

end
