(* ===== verification/Replicator.thy ===== *)
theory Replicator
  imports MultiWriter
begin

text \<open>
  \<open>controller/replicator.go\<close>: the controller's set of backends.  A Go map is an association list with
  distinct keys, whose order is the order in which one \<open>range\<close> loop visits it; the maps from indices to
  addresses are lists.  Goroutines on different backends are run in that order.
\<close>

record 'b backendWrapper =
  bw_backend :: 'b
  bw_mode :: mode

record 'b replicator =
  backendsAvailable :: bool
  backends :: "(string \<times> 'b backendWrapper) list"
  quorumBackends :: "(string \<times> 'b backendWrapper) list"
  writerIndex :: "string list"
  updaterIndex :: "string list"
  readerIndex :: "string list"
  readers :: "'b list"
  rwriter :: "'b multiWriterAt option"
  next_reader :: nat

section \<open>Membership\<close>

definition rp_reset :: "bool \<Rightarrow> 'b replicator \<Rightarrow> 'b replicator" where
  "rp_reset full r =
     (let r1 = r\<lparr>backendsAvailable := False, rwriter := None, writerIndex := [], readerIndex := [], updaterIndex := []\<rparr>
      in if full then r1\<lparr>backends := []\<rparr> else r1)"

definition live :: "(string \<times> 'b backendWrapper) list \<Rightarrow> (string \<times> 'b backendWrapper) list" where
  "live bs = filter (\<lambda>(_, b). bw_mode b \<noteq> ERR) bs"

definition readable :: "(string \<times> 'b backendWrapper) list \<Rightarrow> (string \<times> 'b backendWrapper) list" where
  "readable bs = filter (\<lambda>(_, b). bw_mode b = RW) bs"

definition buildReadWriters :: "'b replicator \<Rightarrow> 'b replicator" where
  "buildReadWriters r =
     (let r0 = rp_reset False r;
          ws = live (backends r0); rs = readable (backends r0); us = live (quorumBackends r0)
      in r0\<lparr>writerIndex := map fst ws, readerIndex := map fst rs, updaterIndex := map fst us,
            rwriter := Some \<lparr>writers = map (bw_backend \<circ> snd) ws, updaters = map (bw_backend \<circ> snd) us\<rparr>,
            readers := map (bw_backend \<circ> snd) rs,
            backendsAvailable := (if rs \<noteq> [] then True else backendsAvailable r0)\<rparr>)"

definition AddQuorumBackend :: "string \<Rightarrow> 'b \<Rightarrow> 'b replicator \<Rightarrow> 'b replicator" where
  "AddQuorumBackend address b r =
     (if map_of (quorumBackends r) address \<noteq> None then r
      else buildReadWriters (r\<lparr>quorumBackends := quorumBackends r @ [(address, \<lparr>bw_backend = b, bw_mode = WO\<rparr>)]\<rparr>))"

definition AddBackend :: "string \<Rightarrow> 'b \<Rightarrow> 'b replicator \<Rightarrow> 'b replicator" where
  "AddBackend address b r =
     (if map_of (backends r) address \<noteq> None then r
      else buildReadWriters (r\<lparr>backends := backends r @ [(address, \<lparr>bw_backend = b, bw_mode = WO\<rparr>)]\<rparr>))"

definition RemoveBackend :: "('w, 'b) backend_ops \<Rightarrow> string \<Rightarrow> 'b replicator \<Rightarrow> 'w \<Rightarrow> 'b replicator \<times> 'w" where
  "RemoveBackend B address r w =
     (case (case map_of (backends r) address of Some b \<Rightarrow> Some b | None \<Rightarrow> map_of (quorumBackends r) address) of
        None \<Rightarrow> (r, w)
      | Some b \<Rightarrow>
          (case bClose B (bw_backend b) w of (_, w') \<Rightarrow>
             (buildReadWriters (r\<lparr>backends := filter (\<lambda>(a, _). a \<noteq> address) (backends r)\<rparr>), w')))"

definition SetMode :: "('w, 'b) backend_ops \<Rightarrow> string \<Rightarrow> mode \<Rightarrow> 'b replicator \<Rightarrow> 'w \<Rightarrow> 'b replicator \<times> 'w" where
  "SetMode B address m r w =
     (case map_of (backends r) address of
        None \<Rightarrow> (r, w)
      | Some b \<Rightarrow>
          let r1 = r\<lparr>backends := map (\<lambda>(a, x). (a, if a = address then b\<lparr>bw_mode := m\<rparr> else x)) (backends r)\<rparr>;
              w1 = (if m = ERR then bStopMonitoring B (bw_backend b) w else w)
          in (buildReadWriters r1, w1))"

fun close_all :: "('w, 'b) backend_ops \<Rightarrow> (string \<times> 'b backendWrapper) list \<Rightarrow> error option \<Rightarrow> 'w \<Rightarrow> error option \<times> 'w" where
  "close_all B [] lastErr w = (lastErr, w)"
| "close_all B ((_, b) # bs) lastErr w =
     (if bw_mode b = ERR then close_all B bs lastErr w
      else case bClose B (bw_backend b) w of
        (None, w') \<Rightarrow> close_all B bs lastErr w'
      | (Some e, w') \<Rightarrow> close_all B bs (Some e) w')"

definition rp_Close :: "('w, 'b) backend_ops \<Rightarrow> 'b replicator \<Rightarrow> 'w \<Rightarrow> error option \<times> 'b replicator \<times> 'w" where
  "rp_Close B r w =
     (case close_all B (backends r) None w of (e1, w1) \<Rightarrow>
      case close_all B (quorumBackends r) e1 w1 of (e2, w2) \<Rightarrow> (e2, rp_reset True r, w2))"

section \<open>Data\<close>

text \<open>
  The loop of \<open>ReadAt\<close> starts at the reader after the last one used and goes round; it stops at the
  first reader without an error.
\<close>

fun rp_read_loop ::
  "('w, 'b) backend_ops \<Rightarrow> 'b replicator \<Rightarrow> int \<Rightarrow> nat \<Rightarrow> nat \<Rightarrow> int \<Rightarrow> byte list \<Rightarrow> (string \<times> error) list \<Rightarrow> 'w \<Rightarrow>
   (int \<times> (string \<times> error) list \<times> byte list) \<times> 'w" where
  "rp_read_loop B r off 0 index n buf errs w = ((n, errs, buf), w)"
| "rp_read_loop B r off (Suc k) index n buf errs w =
     (case bReadAt B (readers r ! index) buf off w of
        (((n', None), buf'), w') \<Rightarrow> ((n', errs, buf'), w')
      | (((n', Some e), buf'), w') \<Rightarrow>
          rp_read_loop B r off k ((index + 1) mod length (readers r)) n' buf' (errs @ [(readerIndex r ! index, e)]) w')"

definition rp_ReadAt ::
  "('w, 'b) backend_ops \<Rightarrow> byte list \<Rightarrow> int \<Rightarrow> 'b replicator \<Rightarrow> 'w \<Rightarrow>
   ((int \<times> error option) \<times> byte list) \<times> 'b replicator \<times> 'w" where
  "rp_ReadAt B buf off r w =
     (if \<not> backendsAvailable r then (((0, Some ErrNoBackend), buf), r, w)
      else let n = length (readers r); index = (next_reader r + 1) mod n in
        (case rp_read_loop B r off n index 0 buf [] w of
           ((m, errs, buf'), w') \<Rightarrow>
             (((m, if errs \<noteq> [] then Some (BackendError errs) else None), buf'), r\<lparr>next_reader := index\<rparr>, w')))"

text \<open>The errors of a multi-writer, by address.\<close>

definition by_address :: "string list \<Rightarrow> error option list \<Rightarrow> (string \<times> error) list" where
  "by_address index errs = List.map_filter (\<lambda>(a, e). map_option (Pair a) e) (zip index errs)"

definition backend_error :: "'b replicator \<Rightarrow> error \<Rightarrow> error" where
  "backend_error r e =
     (case e of MultiWriterError replicaErrs quorumErrs \<Rightarrow> BackendError (by_address (writerIndex r) replicaErrs)
      | _ \<Rightarrow> BackendError [])"

text \<open>\<open>WriteAt\<close>, \<open>Sync\<close> and \<open>Unmap\<close> have the same shape: the call of the writer, its error translated.\<close>

definition rp_through ::
  "int \<Rightarrow> ('b multiWriterAt \<Rightarrow> 'w \<Rightarrow> (int \<times> error option) \<times> 'w) \<Rightarrow> 'b replicator \<Rightarrow> 'w \<Rightarrow> (int \<times> error option) \<times> 'w" where
  "rp_through fail f r w =
     (if \<not> backendsAvailable r then ((fail, Some ErrNoBackend), w)
      else case rwriter r of
        None \<Rightarrow> ((fail, Some (Panic ''nil writer'')), w)
      | Some m \<Rightarrow>
          (case f m w of
             ((n, Some e), w') \<Rightarrow> ((n, Some (backend_error r e)), w')
           | ((n, None), w') \<Rightarrow> ((n, None), w')))"

definition rp_WriteAt :: "('w, 'b) backend_ops \<Rightarrow> byte list \<Rightarrow> int \<Rightarrow> 'b replicator \<Rightarrow> 'w \<Rightarrow> (int \<times> error option) \<times> 'w" where
  "rp_WriteAt B p off r w = rp_through 0 (\<lambda>m. mw_WriteAt B m p off) r w"

definition rp_Sync :: "('w, 'b) backend_ops \<Rightarrow> 'b replicator \<Rightarrow> 'w \<Rightarrow> (int \<times> error option) \<times> 'w" where
  "rp_Sync B r w = rp_through (-1) (mw_Sync B) r w"

definition rp_Unmap :: "('w, 'b) backend_ops \<Rightarrow> int \<Rightarrow> int \<Rightarrow> 'b replicator \<Rightarrow> 'w \<Rightarrow> (int \<times> error option) \<times> 'w" where
  "rp_Unmap B offset len r w = rp_through (-1) (\<lambda>m. mw_Unmap B m offset len) r w"

section \<open>Calls on every backend\<close>

text \<open>
  A call on each backend that passes \<open>use\<close>: the errors by address, and the number of successes.
  \<open>Snapshot\<close> and \<open>Resize\<close> pass over the backends in error, \<open>SetCheckpoint\<close> and
  \<open>GetLatestSnapshot\<close> leave the loop at the first one that is not \<open>RW\<close>.
\<close>

fun each_backend ::
  "('b \<Rightarrow> 'w \<Rightarrow> 'a result \<times> 'w) \<Rightarrow> (string \<times> 'b backendWrapper) list \<Rightarrow> 'w \<Rightarrow>
   ((string \<times> error) list \<times> (string \<times> 'a) list) \<times> 'w" where
  "each_backend f [] w = (([], []), w)"
| "each_backend f ((a, b) # bs) w =
     (case f (bw_backend b) w of (res, w1) \<Rightarrow>
      case each_backend f bs w1 of ((errs, oks), w2) \<Rightarrow>
        (case res of Inl e \<Rightarrow> (((a, e) # errs, oks), w2) | Inr x \<Rightarrow> ((errs, (a, x) # oks), w2)))"

definition of_error :: "error option \<times> 'w \<Rightarrow> unit result \<times> 'w" where
  "of_error = (\<lambda>(e, w). (case e of None \<Rightarrow> Inr () | Some x \<Rightarrow> Inl x, w))"

definition rp_Snapshot ::
  "('w, 'b) backend_ops \<Rightarrow> string \<Rightarrow> bool \<Rightarrow> string \<Rightarrow> 'b replicator \<Rightarrow> 'w \<Rightarrow> error option \<times> 'w" where
  "rp_Snapshot B name userCreated created r w =
     (case each_backend (\<lambda>b w. of_error (bSnapshot B b name userCreated created w)) (live (backends r)) w of
        ((errs, _), w') \<Rightarrow> (if errs \<noteq> [] then Some (BackendError errs) else None, w'))"

definition rp_Resize ::
  "('w, 'b) backend_ops \<Rightarrow> string \<Rightarrow> string \<Rightarrow> 'b replicator \<Rightarrow> 'w \<Rightarrow> error option \<times> 'w" where
  "rp_Resize B name sz r w =
     (case each_backend (\<lambda>b w. of_error (bResize B b name sz w)) (live (backends r)) w of
        ((errs, _), w') \<Rightarrow> (if errs \<noteq> [] then Some (BackendError errs) else None, w'))"

definition rw_prefix :: "(string \<times> 'b backendWrapper) list \<Rightarrow> (string \<times> 'b backendWrapper) list" where
  "rw_prefix bs = takeWhile (\<lambda>(_, b). bw_mode b = RW) bs"

text \<open>The comparison of the chains' second entries, over the replies in the order of the map.\<close>

fun same_latest :: "string \<Rightarrow> (string \<times> string list) list \<Rightarrow> string result" where
  "same_latest snapName [] = Inr snapName"
| "same_latest snapName ((_, chain) # rest) =
     (if length chain \<le> 1 then Inl (Err ''No snapshot present in one of the replicas'')
      else if snapName = [] then same_latest (chain ! 1) rest
      else if snapName \<noteq> chain ! 1 then Inl (Err ''Latest Snapshot differs at replicas'')
      else same_latest snapName rest)"

definition GetLatestSnapshot :: "('w, 'b) backend_ops \<Rightarrow> 'b replicator \<Rightarrow> 'w \<Rightarrow> string result \<times> 'w" where
  "GetLatestSnapshot B r w =
     (case each_backend (bGetReplicaChain B) (rw_prefix (backends r)) w of
        ((errs, got), w') \<Rightarrow>
          if errs \<noteq> [] then (Inl (BackendError errs), w')
          else if length got \<noteq> length (backends r) then (Inl (Err ''Not able to fetch chain from all replicas''), w')
          else (same_latest [] got, w'))"

definition rp_SetCheckpoint :: "('w, 'b) backend_ops \<Rightarrow> string \<Rightarrow> 'b replicator \<Rightarrow> 'w \<Rightarrow> error option \<times> 'w" where
  "rp_SetCheckpoint B snapshotName r w =
     (case each_backend (\<lambda>b w. of_error (bSetCheckpoint B b snapshotName w)) (rw_prefix (backends r)) w of
        ((errs, oks), w') \<Rightarrow>
          if errs \<noteq> [] then (Some (BackendError errs), w')
          else if length oks \<noteq> length (backends r) then (Some (Err ''Not able to set checkpoint at all the replicas''), w')
          else (None, w'))"

fun usage_loop :: "('w, 'b) backend_ops \<Rightarrow> (string \<times> 'b backendWrapper) list \<Rightarrow> error option \<Rightarrow> 'w \<Rightarrow> (volUsage \<times> error option) \<times> 'w" where
  "usage_loop B [] err w =
     ((\<lparr>vuRevisionCounter = 0, vuUsedLogicalBlocks = 0, vuUsedBlocks = 0, vuSectorSize = 0\<rparr>, err), w)"
| "usage_loop B ((_, b) # bs) err w =
     (if bw_mode b = RW then
        (case bGetVolUsage B (bw_backend b) w of
           (Inl e, w') \<Rightarrow> usage_loop B bs (Some e) w'
         | (Inr u, w') \<Rightarrow> ((u, None), w'))
      else usage_loop B bs err w)"

definition rp_GetVolUsage :: "('w, 'b) backend_ops \<Rightarrow> 'b replicator \<Rightarrow> 'w \<Rightarrow> (volUsage \<times> error option) \<times> 'w" where
  "rp_GetVolUsage B r w = usage_loop B (backends r) None w"

fun remain_loop :: "('w, 'b) backend_ops \<Rightarrow> (string \<times> 'b backendWrapper) list \<Rightarrow> int \<Rightarrow> 'w \<Rightarrow> int \<times> 'w" where
  "remain_loop B [] ret w = (ret, w)"
| "remain_loop B ((_, b) # bs) ret w =
     (if bw_mode b = ERR then remain_loop B bs ret w
      else case bRemainSnapshots B (bw_backend b) w of
        (Inl e, w') \<Rightarrow> remain_loop B bs ret w'
      | (Inr remain, w') \<Rightarrow> remain_loop B bs (if remain < ret then remain else ret) w')"

definition rp_RemainSnapshots :: "('w, 'b) backend_ops \<Rightarrow> 'b replicator \<Rightarrow> 'w \<Rightarrow> int result \<times> 'w" where
  "rp_RemainSnapshots B r w =
     (if backends r = [] then (Inr 1, w)
      else case remain_loop B (backends r) 2147483647 w of
        (ret, w') \<Rightarrow>
          if ret = 2147483647 then (Inl (Err ''Cannot get valid result for remain snapshot''), w') else (Inr ret, w'))"

section \<open>Calls on one backend\<close>

definition find_backend :: "string \<Rightarrow> (string \<times> 'b backendWrapper) list \<Rightarrow> 'b result" where
  "find_backend address bs =
     (case map_of bs address of None \<Rightarrow> Inl (Err ''Cannot find backend'') | Some b \<Rightarrow> Inr (bw_backend b))"

definition rp_SetReplicaMode :: "('w, 'b) backend_ops \<Rightarrow> string \<Rightarrow> mode \<Rightarrow> 'b replicator \<Rightarrow> 'w \<Rightarrow> error option \<times> 'w" where
  "rp_SetReplicaMode B address m r w =
     (case find_backend address (backends r) of Inl e \<Rightarrow> (Some e, w) | Inr b \<Rightarrow> bSetReplicaMode B b m w)"

definition rp_SetRevisionCounter :: "('w, 'b) backend_ops \<Rightarrow> string \<Rightarrow> int \<Rightarrow> 'b replicator \<Rightarrow> 'w \<Rightarrow> error option \<times> 'w" where
  "rp_SetRevisionCounter B address counter r w =
     (case find_backend address (backends r) of Inl e \<Rightarrow> (Some e, w) | Inr b \<Rightarrow> bSetRevisionCounter B b counter w)"

definition SetQuorumRevisionCounter :: "('w, 'b) backend_ops \<Rightarrow> string \<Rightarrow> int \<Rightarrow> 'b replicator \<Rightarrow> 'w \<Rightarrow> error option \<times> 'w" where
  "SetQuorumRevisionCounter B address counter r w =
     (case find_backend address (quorumBackends r) of Inl e \<Rightarrow> (Some e, w) | Inr b \<Rightarrow> bSetRevisionCounter B b counter w)"

definition rp_SetRebuilding :: "('w, 'b) backend_ops \<Rightarrow> string \<Rightarrow> bool \<Rightarrow> 'b replicator \<Rightarrow> 'w \<Rightarrow> error option \<times> 'w" where
  "rp_SetRebuilding B address rebuilding r w =
     (case (case map_of (backends r) address of Some b \<Rightarrow> Some b | None \<Rightarrow> map_of (quorumBackends r) address) of
        None \<Rightarrow> (Some (Err ''Cannot find backend''), w)
      | Some b \<Rightarrow> bSetRebuilding B (bw_backend b) rebuilding w)"

definition rp_GetRevisionCounter :: "('w, 'b) backend_ops \<Rightarrow> string \<Rightarrow> 'b replicator \<Rightarrow> 'w \<Rightarrow> int result \<times> 'w" where
  "rp_GetRevisionCounter B address r w =
     (case find_backend address (backends r) of Inl e \<Rightarrow> (Inl e, w) | Inr b \<Rightarrow> bGetRevisionCounter B b w)"

definition rp_GetCloneStatus :: "('w, 'b) backend_ops \<Rightarrow> string \<Rightarrow> 'b replicator \<Rightarrow> 'w \<Rightarrow> string result \<times> 'w" where
  "rp_GetCloneStatus B address r w =
     (case find_backend address (backends r) of Inl e \<Rightarrow> (Inl e, w) | Inr b \<Rightarrow> bGetCloneStatus B b w)"

end
