(* ===== verification/Controller.thy ===== *)
theory Controller
  imports Replicator Strconv "HOL-Library.AList"
begin

text \<open>
  \<open>controller/control.go\<close>: membership of the volume, its status, the election of the first replica
  and the data path.  Each operation holds the controller's lock from beginning to end, except
  \<open>addReplica\<close> and \<open>addQuorumReplica\<close>, which are split where the code releases it.

  What the controller calls is an environment: its backends and their factory, the frontend, the HTTP
  clients of the replicas, the clock, the generator of names, the environment variable
  \<open>REPLICATION_FACTOR\<close> and the parser of sizes of a library.
\<close>

section \<open>State\<close>

record 'w frontend_ops =
  feState :: "'w \<Rightarrow> bool"
  feShutdown :: "'w \<Rightarrow> error option \<times> 'w"
  feStartup :: "string \<Rightarrow> int \<Rightarrow> int \<Rightarrow> 'w \<Rightarrow> error option \<times> 'w"
  feResize :: "int \<Rightarrow> 'w \<Rightarrow> error option \<times> 'w"

record 'w client_ops =
  clNew :: "string \<Rightarrow> error option"
  clGetReplica :: "string \<Rightarrow> 'w \<Rightarrow> replicaInfo result \<times> 'w"
  clRevert :: "string \<Rightarrow> string \<Rightarrow> string \<Rightarrow> 'w \<Rightarrow> error option \<times> 'w"
  clPrepareRemoveDisk :: "string \<Rightarrow> string \<Rightarrow> 'w \<Rightarrow> prepareRemoveAction list result \<times> 'w"
  clRemoveDisk :: "string \<Rightarrow> string \<Rightarrow> 'w \<Rightarrow> error option \<times> 'w"
  clReplaceDisk :: "string \<Rightarrow> string \<Rightarrow> string \<Rightarrow> 'w \<Rightarrow> error option \<times> 'w"
  clCoalesce :: "string \<Rightarrow> string \<Rightarrow> string \<Rightarrow> 'w \<Rightarrow> error option \<times> 'w"
  clLaunchReceiver :: "string \<Rightarrow> string \<Rightarrow> 'w \<Rightarrow> (string \<times> int) result \<times> 'w"
  clSendFile :: "string \<Rightarrow> string \<Rightarrow> string \<Rightarrow> int \<Rightarrow> 'w \<Rightarrow> error option \<times> 'w"

record ('w, 'b) env =
  eB :: "('w, 'b) backend_ops"
  eF :: "('w, 'b) factory_ops"
  eFrontend :: "'w frontend_ops option"
  eC :: "'w client_ops"
  eUUID :: "'w \<Rightarrow> string \<times> 'w"
  eNow :: "'w \<Rightarrow> string \<times> 'w"
  eCheckReplicationFactor :: int
  eRAMInBytes :: "string \<Rightarrow> int result"

record 'b controller =
  cName :: string
  csize :: int
  csectorSize :: int
  replicas :: "replicaEntry list"
  ReplicationFactor :: int
  RWReplicaCount :: int
  quorumReplicas :: "replicaEntry list"
  quorumReplicaCount :: int
  backend :: "'b replicator"
  RegisteredReplicas :: "(string \<times> regReplica) list"
  RegisteredQuorumReplicas :: "(string \<times> regReplica) list"
  MaxRevReplica :: string
  StartSignalled :: bool
  ReadOnly :: bool
  IsSnapDeletionInProgress :: bool
  Checkpoint :: string

definition replicator0 :: "'b replicator" where
  "replicator0 = \<lparr>backendsAvailable = False, backends = [], quorumBackends = [], writerIndex = [],
     updaterIndex = [], readerIndex = [], readers = [], rwriter = None, next_reader = 0\<rparr>"

definition c_reset :: "'b controller \<Rightarrow> 'b controller" where
  "c_reset c = c\<lparr>replicas := [], quorumReplicas := [], backend := replicator0\<rparr>"

definition NewController :: "string \<Rightarrow> int \<Rightarrow> 'b controller" where
  "NewController name rf =
     c_reset \<lparr>cName = name, csize = 0, csectorSize = 0, replicas = [], ReplicationFactor = rf, RWReplicaCount = 0,
       quorumReplicas = [], quorumReplicaCount = 0, backend = replicator0, RegisteredReplicas = [],
       RegisteredQuorumReplicas = [], MaxRevReplica = [], StartSignalled = False, ReadOnly = True,
       IsSnapDeletionInProgress = False, Checkpoint = []\<rparr>"

section \<open>Status\<close>

definition rw_count :: "replicaEntry list \<Rightarrow> int" where
  "rw_count rs = int (length (filter (\<lambda>r. Mode r = RW) rs))"

definition UpdateVolStatus :: "'b controller \<Rightarrow> 'b controller" where
  "UpdateVolStatus c =
     (let rwReplicaCount = rw_count (replicas c) + rw_count (quorumReplicas c)
      in c\<lparr>ReadOnly := \<not> (rwReplicaCount \<ge> (ReplicationFactor c + quorumReplicaCount c) sdiv 2 + 1),
           RWReplicaCount := rwReplicaCount\<rparr>)"

definition UpdateCheckpoint :: "('w, 'b) env \<Rightarrow> 'b controller \<Rightarrow> 'w \<Rightarrow> 'b controller \<times> 'w" where
  "UpdateCheckpoint E c w =
     (if rw_count (replicas c) = ReplicationFactor c then
        (case GetLatestSnapshot (eB E) (backend c) w of
           (Inl e, w1) \<Rightarrow> (c\<lparr>Checkpoint := []\<rparr>, w1)
         | (Inr latestSnapshot, w1) \<Rightarrow>
             (case rp_SetCheckpoint (eB E) latestSnapshot (backend c) w1 of
                (Some e, w2) \<Rightarrow> (c\<lparr>Checkpoint := []\<rparr>, w2)
              | (None, w2) \<Rightarrow> (c\<lparr>Checkpoint := latestSnapshot\<rparr>, w2)))
      else (c\<lparr>Checkpoint := []\<rparr>, w))"

section \<open>Membership\<close>

definition hasReplica :: "string \<Rightarrow> 'b controller \<Rightarrow> bool" where
  "hasReplica address c =
     (list_ex (\<lambda>r. Address r = address) (replicas c) \<or> list_ex (\<lambda>r. Address r = address) (quorumReplicas c))"

definition hasWOReplica :: "'b controller \<Rightarrow> string option" where
  "hasWOReplica c = map_option Address (List.find (\<lambda>r. Mode r = WO) (replicas c))"

text \<open>The address of a replica whose registered name is \<open>regrep\<close>.\<close>

definition replica_addr :: "string \<Rightarrow> string" where
  "replica_addr regrep = ''tcp://'' @ regrep @ '':9502''"

text \<open>\<open>append(xs[:i], xs[i+1:]...)\<close> for the first entry with the address.\<close>

fun rm_entry :: "string \<Rightarrow> replicaEntry list \<Rightarrow> replicaEntry list" where
  "rm_entry address [] = []"
| "rm_entry address (r # rs) = (if Address r = address then rs else r # rm_entry address rs)"

definition unregister :: "string \<Rightarrow> (string \<times> regReplica) list \<Rightarrow> (string \<times> regReplica) list" where
  "unregister address regs = filter (\<lambda>(regrep, _). address \<noteq> replica_addr regrep) regs"

definition rm_data_replica ::
  "('w, 'b) env \<Rightarrow> 'w frontend_ops \<Rightarrow> string \<Rightarrow> 'b controller \<Rightarrow> 'w \<Rightarrow> 'b controller \<times> 'w" where
  "rm_data_replica E fe address c w =
     (if list_ex (\<lambda>r. Address r = address) (replicas c) then
        let (c1, w1) =
          (if length (replicas c) = 1 \<and> feState fe w
           then (c\<lparr>StartSignalled := False, MaxRevReplica := []\<rparr>, snd (feShutdown fe w))
           else (c, w));
          c2 = c1\<lparr>RegisteredReplicas := unregister address (RegisteredReplicas c1),
                  replicas := rm_entry address (replicas c1)\<rparr>;
          (rp, w2) = RemoveBackend (eB E) address (backend c2) w1
        in (c2\<lparr>backend := rp\<rparr>, w2)
      else (c, w))"

definition rm_quorum_replica :: "('w, 'b) env \<Rightarrow> string \<Rightarrow> 'b controller \<Rightarrow> 'w \<Rightarrow> 'b controller \<times> 'w" where
  "rm_quorum_replica E address c w =
     (if list_ex (\<lambda>r. Address r = address) (quorumReplicas c) then
        let c1 = c\<lparr>RegisteredQuorumReplicas := unregister address (RegisteredQuorumReplicas c),
                   quorumReplicas := rm_entry address (quorumReplicas c)\<rparr>;
            (rp, w1) = RemoveBackend (eB E) address (backend c1) w
        in (c1\<lparr>backend := rp\<rparr>, w1)
      else (c, w))"

definition RemoveReplicaNoLock ::
  "('w, 'b) env \<Rightarrow> string \<Rightarrow> 'b controller \<Rightarrow> 'w \<Rightarrow> error option \<times> 'b controller \<times> 'w" where
  "RemoveReplicaNoLock E address c w =
     (case eFrontend E of
        None \<Rightarrow> (Some (Panic ''nil frontend''), c, w)
      | Some fe \<Rightarrow>
          if \<not> hasReplica address c then (None, c, w)
          else let (c1, w1) = rm_data_replica E fe address c w;
                   (c2, w2) = rm_quorum_replica E address c1 w1;
                   (c3, w3) = UpdateCheckpoint E (UpdateVolStatus c2) w2
               in (None, c3, w3))"

definition hasGreaterRevisionCount ::
  "('w, 'b) env \<Rightarrow> string \<Rightarrow> string \<Rightarrow> 'b controller \<Rightarrow> 'w \<Rightarrow> bool result \<times> 'w" where
  "hasGreaterRevisionCount E woReplica newReplica c w =
     (case (case map_of (RegisteredReplicas c) woReplica of
              Some reg \<Rightarrow> (Inr (RevCount reg), w)
            | None \<Rightarrow> rp_GetRevisionCounter (eB E) woReplica (backend c) w) of
        (Inl e, w1) \<Rightarrow> (Inl e, w1)
      | (Inr woRevCnt, w1) \<Rightarrow>
          (case clNew (eC E) newReplica of
             Some e \<Rightarrow> (Inl e, w1)
           | None \<Rightarrow>
               (case clGetReplica (eC E) newReplica w1 of
                  (Inl e, w2) \<Rightarrow> (Inl e, w2)
                | (Inr info, w2) \<Rightarrow>
                    (case ParseInt (riRevisionCounter info) of
                       Inl e \<Rightarrow> (Inl e, w2)
                     | Inr newRevCnt \<Rightarrow> (Inr (newRevCnt > woRevCnt), w2)))))"

text \<open>\<open>canAdd\<close> answers false with an error or true with none: only the error is kept.\<close>

definition canAdd :: "('w, 'b) env \<Rightarrow> string \<Rightarrow> 'b controller \<Rightarrow> 'w \<Rightarrow> error option \<times> 'b controller \<times> 'w" where
  "canAdd E address c w =
     (let snap = (\<lambda>c w. (if IsSnapDeletionInProgress c then Some (Err ''snapshot deletion is in progress'') else None, c, w))
      in if hasReplica address c then (Some (Err ''replica is already added''), c, w)
         else case hasWOReplica c of
           None \<Rightarrow> snap c w
         | Some woReplica \<Rightarrow>
             (case hasGreaterRevisionCount E woReplica address c w of
                (Inr True, w1) \<Rightarrow>
                  (case RemoveReplicaNoLock E woReplica c w1 of
                     (Some e, c2, w2) \<Rightarrow> (Some e, c2, w2)
                   | (None, c2, w2) \<Rightarrow> snap c2 w2)
              | (Inl e, w1) \<Rightarrow> (Some e, c, w1)
              | (Inr False, w1) \<Rightarrow> (Some (Err ''can only have one WO replica at a time''), c, w1)))"

definition getRWReplica :: "'b controller \<Rightarrow> replicaEntry result" where
  "getRWReplica c =
     (case filter (\<lambda>r. Mode r = RW) (replicas c) of
        [] \<Rightarrow> Inl (Err ''Cannot find any healthy replica'')
      | rs \<Rightarrow> Inr (last rs))"

definition verifyReplicationFactor :: "('w, 'b) env \<Rightarrow> 'b controller \<Rightarrow> error option" where
  "verifyReplicationFactor E c =
     (if eCheckReplicationFactor E = 0 then Some (Err ''REPLICATION_FACTOR not set'')
      else if eCheckReplicationFactor E = int (length (replicas c)) then Some (Err ''replication factor reached'')
      else None)"

section \<open>Adding replicas\<close>

text \<open>The snapshot that is taken of the attached replicas and of the new one, when one is asked for.\<close>

definition snapshot_to_add ::
  "('w, 'b) env \<Rightarrow> 'b \<Rightarrow> 'b controller \<Rightarrow> 'w \<Rightarrow> error option \<times> 'w" where
  "snapshot_to_add E newBackend c w =
     (case eUUID E w of (uuid, w1) \<Rightarrow> case eNow E w1 of (created, w2) \<Rightarrow>
        (case rp_RemainSnapshots (eB E) (backend c) w2 of
           (Inl e, w3) \<Rightarrow> (Some e, w3)
         | (Inr remain, w3) \<Rightarrow>
             if remain \<le> 0 then (Some (Err ''Too many snapshots created''), w3)
             else (case rp_Snapshot (eB E) uuid False created (backend c) w3 of
                     (Some e, w4) \<Rightarrow> (Some e, snd (bClose (eB E) newBackend w4))
                   | (None, w4) \<Rightarrow>
                       (case bSnapshot (eB E) newBackend uuid False created w4 of
                          (Some e, w5) \<Rightarrow> (Some e, snd (bClose (eB E) newBackend w5))
                        | (None, w5) \<Rightarrow> (None, w5)))))"

definition addReplicaNoLock ::
  "('w, 'b) env \<Rightarrow> 'b \<Rightarrow> string \<Rightarrow> bool \<Rightarrow> 'b controller \<Rightarrow> 'w \<Rightarrow> error option \<times> 'b controller \<times> 'w" where
  "addReplicaNoLock E newBackend address snapshot c w =
     (case canAdd E address c w of
        (Some e, c1, w1) \<Rightarrow> (Some e, c1, w1)
      | (None, c1, w1) \<Rightarrow>
          (case (if snapshot then snapshot_to_add E newBackend c1 w1 else (None, w1)) of
             (Some e, w2) \<Rightarrow> (Some e, c1, w2)
           | (None, w2) \<Rightarrow>
               (case bSetReplicaMode (eB E) newBackend WO w2 of
                  (Some e, w3) \<Rightarrow> (Some (Err ''Fail to set replica mode''), c1, w3)
                | (None, w3) \<Rightarrow>
                    (None, c1\<lparr>replicas := replicas c1 @ [\<lparr>Address = address, Mode = WO\<rparr>],
                              backend := AddBackend address newBackend (backend c1)\<rparr>, w3))))"

definition addQuorumReplicaNoLock ::
  "('w, 'b) env \<Rightarrow> 'b \<Rightarrow> string \<Rightarrow> bool \<Rightarrow> 'b controller \<Rightarrow> 'w \<Rightarrow> error option \<times> 'b controller \<times> 'w" where
  "addQuorumReplicaNoLock E newBackend address snapshot c w =
     (case canAdd E address c w of
        (Some e, c1, w1) \<Rightarrow> (Some e, c1, w1)
      | (None, c1, w1) \<Rightarrow>
          (case (if snapshot then snapshot_to_add E newBackend c1 w1 else (None, w1)) of
             (Some e, w2) \<Rightarrow> (Some e, c1, w2)
           | (None, w2) \<Rightarrow>
               (None, c1\<lparr>quorumReplicas := quorumReplicas c1 @ [\<lparr>Address = address, Mode = WO\<rparr>],
                         quorumReplicaCount := quorumReplicaCount c1 + 1,
                         backend := AddQuorumBackend address newBackend (backend c1)\<rparr>, w2)))"

text \<open>
  \<open>addReplica\<close> in the two sections that hold the lock; between them the lock is free and the backend is
  created, so other operations may come in between.
\<close>

definition addReplica_check :: "('w, 'b) env \<Rightarrow> string \<Rightarrow> 'b controller \<Rightarrow> 'w \<Rightarrow> error option \<times> 'b controller \<times> 'w" where
  "addReplica_check E address c w =
     (case canAdd E address c w of
        (Some e, c1, w1) \<Rightarrow> (Some e, c1, w1)
      | (None, c1, w1) \<Rightarrow>
          (case verifyReplicationFactor E c1 of
             Some e \<Rightarrow> (Some (Err ''can't add''), c1, w1)
           | None \<Rightarrow> (None, c1, w1)))"

definition addReplica_commit ::
  "('w, 'b) env \<Rightarrow> 'b \<Rightarrow> string \<Rightarrow> bool \<Rightarrow> 'b controller \<Rightarrow> 'w \<Rightarrow> error option \<times> 'b controller \<times> 'w" where
  "addReplica_commit E newBackend address snapshot c w =
     (case addReplicaNoLock E newBackend address snapshot c w of
        (Some e, c1, w1) \<Rightarrow> (Some e, c1, w1)
      | (None, c1, w1) \<Rightarrow>
          (case UpdateCheckpoint E (UpdateVolStatus c1) w1 of (c2, w2) \<Rightarrow> (None, c2, w2)))"

definition addReplica ::
  "('w, 'b) env \<Rightarrow> string \<Rightarrow> bool \<Rightarrow> 'b controller \<Rightarrow> 'w \<Rightarrow> error option \<times> 'b controller \<times> 'w" where
  "addReplica E address snapshot c w =
     (case addReplica_check E address c w of
        (Some e, c1, w1) \<Rightarrow> (Some e, c1, w1)
      | (None, c1, w1) \<Rightarrow>
          (case fCreate (eF E) address w1 of
             (Inl e, w2) \<Rightarrow> (Some e, c1, w2)
           | (Inr newBackend, w2) \<Rightarrow> addReplica_commit E newBackend address snapshot c1 w2))"

definition addQuorumReplica_commit ::
  "('w, 'b) env \<Rightarrow> 'b \<Rightarrow> string \<Rightarrow> bool \<Rightarrow> 'b controller \<Rightarrow> 'w \<Rightarrow> error option \<times> 'b controller \<times> 'w" where
  "addQuorumReplica_commit E newBackend address snapshot c w =
     (case addQuorumReplicaNoLock E newBackend address snapshot c w of
        (Some e, c1, w1) \<Rightarrow> (Some e, c1, w1)
      | (None, c1, w1) \<Rightarrow>
          (case rp_SetRebuilding (eB E) address True (backend c1) w1 of
             (Some e, w2) \<Rightarrow> (Some (Err ''Failed to set rebuild''), c1, w2)
           | (None, w2) \<Rightarrow>
               (case getRWReplica c1 of
                  Inl e \<Rightarrow> (Some e, c1, w2)
                | Inr rwReplica \<Rightarrow>
                    (case rp_GetRevisionCounter (eB E) (Address rwReplica) (backend c1) w2 of
                       (Inl e, w3) \<Rightarrow> (Some (Err ''Failed to get revision counter of RW Replica''), c1, w3)
                     | (Inr counter, w3) \<Rightarrow>
                         if counter = -1 then (Some (Err ''Failed to get revision counter of RW Replica''), c1, w3)
                         else
                         (case SetQuorumRevisionCounter (eB E) address counter (backend c1) w3 of
                            (Some e, w4) \<Rightarrow> (Some (Err ''Fail to set revision counter''), c1, w4)
                          | (None, w4) \<Rightarrow>
                              (case rp_SetRebuilding (eB E) address False (backend c1) w4 of
                                 (Some e, w5) \<Rightarrow> (Some (Err ''Failed to set rebuild''), c1, w5)
                               | (None, w5) \<Rightarrow>
                                   (case UpdateCheckpoint E (UpdateVolStatus c1) w5 of (c2, w6) \<Rightarrow> (None, c2, w6))))))))"

definition addQuorumReplica ::
  "('w, 'b) env \<Rightarrow> string \<Rightarrow> bool \<Rightarrow> 'b controller \<Rightarrow> 'w \<Rightarrow> error option \<times> 'b controller \<times> 'w" where
  "addQuorumReplica E address snapshot c w =
     (case canAdd E address c w of
        (Some e, c1, w1) \<Rightarrow> (Some e, c1, w1)
      | (None, c1, w1) \<Rightarrow>
          (case fCreate (eF E) address w1 of
             (Inl e, w2) \<Rightarrow> (Some e, c1, w2)
           | (Inr newBackend, w2) \<Rightarrow> addQuorumReplica_commit E newBackend address snapshot c1 w2))"

section \<open>Modes\<close>

definition set_entry :: "string \<Rightarrow> mode \<Rightarrow> replicaEntry list \<Rightarrow> replicaEntry list" where
  "set_entry address m rs = map (\<lambda>r. if Address r = address \<and> Mode r \<noteq> ERR then r\<lparr>Mode := m\<rparr> else r) rs"

text \<open>
  The number of calls of \<open>backend.SetMode\<close> that \<open>setReplicaModeNoLock\<close> makes is the number of entries it
  changes; with more than one entry of the same address the process ends.
\<close>

definition setReplicaModeNoLock ::
  "('w, 'b) env \<Rightarrow> string \<Rightarrow> mode \<Rightarrow> 'b controller \<Rightarrow> 'w \<Rightarrow> error option \<times> 'b controller \<times> 'w" where
  "setReplicaModeNoLock E address m c w =
     (let here = filter (\<lambda>r. Address r = address) (replicas c @ quorumReplicas c);
          changes = length (filter (\<lambda>r. Mode r \<noteq> ERR) here);
          (rp, w') = ((\<lambda>(rp, w). SetMode (eB E) address m rp w) ^^ changes) (backend c, w);
          c' = c\<lparr>replicas := set_entry address m (replicas c),
                 quorumReplicas := set_entry address m (quorumReplicas c), backend := rp\<rparr>
      in (if length here > 1 then Some (Fatal ''setReplicaModeNoLock error'') else None, c', w'))"

definition SetReplicaMode ::
  "('w, 'b) env \<Rightarrow> string \<Rightarrow> mode \<Rightarrow> 'b controller \<Rightarrow> 'w \<Rightarrow> error option \<times> 'b controller \<times> 'w" where
  "SetReplicaMode E address m c w =
     (if m = ERR \<or> m = RW then setReplicaModeNoLock E address m c w
      else (Some (Err ''Can not set to mode''), c, w))"

definition rmReplicaFromRegisteredReplicas :: "string \<Rightarrow> 'b controller \<Rightarrow> 'b controller" where
  "rmReplicaFromRegisteredReplicas address c =
     c\<lparr>RegisteredReplicas := filter (\<lambda>(a, _). a \<noteq> address) (RegisteredReplicas c), StartSignalled := False,
       MaxRevReplica := []\<rparr>"

end
