(* ===== verification/ControllerIO.thy ===== *)
theory ControllerIO
  imports Controller
begin

text \<open>
  The rest of \<open>controller/control.go\<close>: registration and the election of the replica that starts the
  volume, \<open>Start\<close>, the data path, snapshots, resizing, shutdown and the monitor of a backend.
\<close>

section \<open>Errors of backends\<close>

text \<open>The keys of \<open>BackendError.Errors\<close>, in the order of one \<open>range\<close> loop.\<close>

fun error_addresses :: "error \<Rightarrow> string list" where
  "error_addresses (BackendError errs) = map fst errs"
| "error_addresses _ = []"

fun set_all_err :: "('w, 'b) env \<Rightarrow> string list \<Rightarrow> 'b controller \<Rightarrow> 'w \<Rightarrow> error option \<times> 'b controller \<times> 'w" where
  "set_all_err E [] c w = (None, c, w)"
| "set_all_err E (a # as) c w =
     (case setReplicaModeNoLock E a ERR c w of
        (Some e, c1, w1) \<Rightarrow> (Some e, c1, w1)
      | (None, c1, w1) \<Rightarrow> set_all_err E as c1 w1)"

definition handleErrorNoLock ::
  "('w, 'b) env \<Rightarrow> error option \<Rightarrow> 'b controller \<Rightarrow> 'w \<Rightarrow> error option \<times> 'b controller \<times> 'w" where
  "handleErrorNoLock E err c w =
     (case err of
        None \<Rightarrow> (None, c, w)
      | Some e \<Rightarrow>
          if error_addresses e = [] then (Some e, c, w)
          else (case set_all_err E (error_addresses e) c w of
                  (Some f, c1, w1) \<Rightarrow> (Some f, c1, w1)
                | (None, c1, w1) \<Rightarrow>
                    (if list_ex (\<lambda>r. Mode r = RW) (replicas c1) then None else Some e, c1, w1)))"

text \<open>The loop that drops the replicas that failed; the errors of the removal are ignored, a panic is not.\<close>

fun remove_all :: "('w, 'b) env \<Rightarrow> string list \<Rightarrow> 'b controller \<Rightarrow> 'w \<Rightarrow> error option \<times> 'b controller \<times> 'w" where
  "remove_all E [] c w = (None, c, w)"
| "remove_all E (a # as) c w =
     (case RemoveReplicaNoLock E a c w of
        (Some (Panic m), c1, w1) \<Rightarrow> (Some (Panic m), c1, w1)
      | (_, c1, w1) \<Rightarrow> remove_all E as c1 w1)"

text \<open>
  What the data path does with the error of a request: handle it, drop the replicas, and give the error
  that is left.  A crash on the way is on the left.
\<close>

definition after_error ::
  "('w, 'b) env \<Rightarrow> error \<Rightarrow> 'b controller \<Rightarrow> 'w \<Rightarrow> (error + error option) \<times> 'b controller \<times> 'w" where
  "after_error E e c w =
     (case handleErrorNoLock E (Some e) c w of
        (Some (Fatal m), c1, w1) \<Rightarrow> (Inl (Fatal m), c1, w1)
      | (errh, c1, w1) \<Rightarrow>
          (case remove_all E (error_addresses e) c1 w1 of
             (Some p, c2, w2) \<Rightarrow> (Inl p, c2, w2)
           | (None, c2, w2) \<Rightarrow> (Inr errh, c2, w2)))"

section \<open>The data path\<close>

definition c_WriteAt ::
  "('w, 'b) env \<Rightarrow> byte list \<Rightarrow> int \<Rightarrow> 'b controller \<Rightarrow> 'w \<Rightarrow> (int \<times> error option) \<times> 'b controller \<times> 'w" where
  "c_WriteAt E b off c w =
     (if ReadOnly c then ((0, Some (Err ''Mode: ReadOnly'')), c, w)
      else if off < 0 \<or> i64 (off + int (length b)) > csize c
      then ((0, Some (Err ''EOF: Write is beyond volume size'')), c, w)
      else case rp_WriteAt (eB E) b off (backend c) w of
        ((n, None), w1) \<Rightarrow> ((n, None), c, w1)
      | ((n, Some e), w1) \<Rightarrow>
          (case after_error E e c w1 of
             (Inl p, c2, w2) \<Rightarrow> ((0, Some p), c2, w2)
           | (Inr errh, c2, w2) \<Rightarrow>
               if n = int (length b) \<and> errh = None then ((n, None), c2, w2) else ((n, errh), c2, w2)))"

text \<open>\<open>Sync\<close> and \<open>Unmap\<close> treat the result of the replicator in the same way.\<close>

definition c_through ::
  "('w, 'b) env \<Rightarrow> string \<Rightarrow> ('b replicator \<Rightarrow> 'w \<Rightarrow> (int \<times> error option) \<times> 'w) \<Rightarrow> 'b controller \<Rightarrow> 'w \<Rightarrow>
   (int \<times> error option) \<times> 'b controller \<times> 'w" where
  "c_through E failed f c w =
     (if ReadOnly c then ((-1, Some (Err ''Mode: ReadOnly'')), c, w)
      else case f (backend c) w of
        ((n, None), w1) \<Rightarrow> ((0, None), c, w1)
      | ((n, Some e), w1) \<Rightarrow>
          (case after_error E e c w1 of
             (Inl p, c2, w2) \<Rightarrow> ((-1, Some p), c2, w2)
           | (Inr errh, c2, w2) \<Rightarrow>
               if n = -1 then ((-1, Some (Err failed)), c2, w2) else ((0, errh), c2, w2)))"

definition c_Sync :: "('w, 'b) env \<Rightarrow> 'b controller \<Rightarrow> 'w \<Rightarrow> (int \<times> error option) \<times> 'b controller \<times> 'w" where
  "c_Sync E c w = c_through E ''Sync Failed'' (rp_Sync (eB E)) c w"

definition c_Unmap :: "('w, 'b) env \<Rightarrow> int \<Rightarrow> int \<Rightarrow> 'b controller \<Rightarrow> 'w \<Rightarrow> (int \<times> error option) \<times> 'b controller \<times> 'w" where
  "c_Unmap E offset len c w = c_through E ''Unmap Failed'' (rp_Unmap (eB E) offset len) c w"

definition c_ReadAt ::
  "('w, 'b) env \<Rightarrow> byte list \<Rightarrow> int \<Rightarrow> 'b controller \<Rightarrow> 'w \<Rightarrow>
   ((int \<times> error option) \<times> byte list) \<times> 'b controller \<times> 'w" where
  "c_ReadAt E b off c w =
     (if off < 0 \<or> i64 (off + int (length b)) > csize c
      then (((0, Some (Err ''EOF: Read is beyond volume size'')), b), c, w)
      else case replicas c of
        [] \<Rightarrow> (((0, Some (Err ''No backends available'')), b), c, w)
      | r # rs \<Rightarrow>
          if rs = [] \<and> Mode r = WO then (((0, Some (Err ''only WO replica available'')), b), c, w)
          else case rp_ReadAt (eB E) b off (backend c) w of
            (((n, None), b'), rp, w1) \<Rightarrow> (((n, None), b'), c\<lparr>backend := rp\<rparr>, w1)
          | (((n, Some e), b'), rp, w1) \<Rightarrow>
              (case after_error E e (c\<lparr>backend := rp\<rparr>) w1 of
                 (Inl p, c2, w2) \<Rightarrow> (((0, Some p), b'), c2, w2)
               | (Inr errh, c2, w2) \<Rightarrow> (((n, errh), b'), c2, w2)))"

section \<open>Registration\<close>

definition signalReplica :: "('w, 'b) env \<Rightarrow> 'b controller \<Rightarrow> 'w \<Rightarrow> error option \<times> 'b controller \<times> 'w" where
  "signalReplica E c w =
     (case fSignalToAdd (eF E) (MaxRevReplica c) ''start'' w of
        (Some e, w1) \<Rightarrow>
          (Some e, c\<lparr>RegisteredReplicas := filter (\<lambda>(a, _). a \<noteq> MaxRevReplica c) (RegisteredReplicas c),
                     MaxRevReplica := [], StartSignalled := False\<rparr>, w1)
      | (None, w1) \<Rightarrow> (None, c\<lparr>StartSignalled := True\<rparr>, w1))"

fun alive_loop :: "('w, 'b) env \<Rightarrow> string \<Rightarrow> nat \<Rightarrow> 'w \<Rightarrow> bool \<times> 'w" where
  "alive_loop E address 0 w = (False, w)"
| "alive_loop E address (Suc n) w =
     (case fVerifyReplicaAlive (eF E) address w of
        (True, w1) \<Rightarrow> (True, w1)
      | (False, w1) \<Rightarrow> alive_loop E address n w1)"

definition VerifyReplicaAlive :: "('w, 'b) env \<Rightarrow> 'b controller \<Rightarrow> 'w \<Rightarrow> bool \<times> 'w" where
  "VerifyReplicaAlive E c w = alive_loop E (MaxRevReplica c) 3 w"

definition rev_count :: "(string \<times> regReplica) list \<Rightarrow> string \<Rightarrow> int" where
  "rev_count regs a = (case map_of regs a of Some r \<Rightarrow> RevCount r | None \<Rightarrow> 0)"

text \<open>The election: the loop compares with every registered replica but stores the one that registers.\<close>

fun elect :: "(string \<times> regReplica) list \<Rightarrow> string \<Rightarrow> string list \<Rightarrow> string \<Rightarrow> string" where
  "elect regs self [] mx = mx"
| "elect regs self (a # as) mx =
     elect regs self as (if rev_count regs mx < rev_count regs a then self else mx)"

definition elect_and_signal ::
  "('w, 'b) env \<Rightarrow> regReplica \<Rightarrow> 'b controller \<Rightarrow> 'w \<Rightarrow> error option \<times> 'b controller \<times> 'w" where
  "elect_and_signal E register c w =
     (if RepState register = ''rebuilding'' then (None, c, w)
      else
        let m0 = (if MaxRevReplica c = [] then rrAddress register else MaxRevReplica c);
            m1 = elect (RegisteredReplicas c) (rrAddress register) (map fst (RegisteredReplicas c)) m0;
            c1 = c\<lparr>MaxRevReplica := m1\<rparr>;
            nr = int (length (RegisteredReplicas c1)); nq = int (length (RegisteredQuorumReplicas c1))
        in if nr \<ge> ReplicationFactor c1 sdiv 2 + 1 \<and>
              nr + nq \<ge> (quorumReplicaCount c1 + ReplicationFactor c1) sdiv 2 + 1
           then signalReplica E c1 w
           else (None, c1, w))"

definition put_reg :: "regReplica \<Rightarrow> (string \<times> regReplica) list \<Rightarrow> (string \<times> regReplica) list" where
  "put_reg register regs = AList.update (rrAddress register) register regs"

definition registerReplica ::
  "('w, 'b) env \<Rightarrow> regReplica \<Rightarrow> 'b controller \<Rightarrow> 'w \<Rightarrow> error option \<times> 'b controller \<times> 'w" where
  "registerReplica E register c w =
     (if rrUUID register = [] then (None, c, w)
      else if map_of (RegisteredReplicas c) (rrAddress register) = None \<and>
              map_of (RegisteredQuorumReplicas c) (rrAddress register) \<noteq> None then (None, c, w)
      else if RepType register = ''quorum''
      then (None, c\<lparr>RegisteredQuorumReplicas := put_reg register (RegisteredQuorumReplicas c)\<rparr>, w)
      else
        let others = filter (\<lambda>(a, reg). \<not> (rrUUID reg = rrUUID register \<and> a \<noteq> rrAddress register)) (RegisteredReplicas c);
            c1 = c\<lparr>RegisteredReplicas := put_reg register others\<rparr>
        in if replicas c1 \<noteq> [] then (None, c1, w)
           else if StartSignalled c1 then
             (if rrAddress register = MaxRevReplica c1 then
                (case signalReplica E c1 w of
                   (Some e, c2, w2) \<Rightarrow> (Some e, c2, w2)
                 | (None, c2, w2) \<Rightarrow> elect_and_signal E register c2 w2)
              else case VerifyReplicaAlive E c1 w of
                (True, w1) \<Rightarrow> (None, c1, w1)
              | (False, w1) \<Rightarrow>
                  elect_and_signal E register
                    (c1\<lparr>RegisteredReplicas := filter (\<lambda>(a, _). a \<noteq> MaxRevReplica c1) (RegisteredReplicas c1),
                        MaxRevReplica := [], StartSignalled := False\<rparr>) w1)
           else elect_and_signal E register c1 w)"

section \<open>Start\<close>

text \<open>
  The loop at the label \<open>getCloneStatus\<close> polls until the replica has an answer; the fuel bounds the number
  of polls and \<open>None\<close> means that the loop is still polling.
\<close>

fun poll_clone_status :: "('w, 'b) env \<Rightarrow> string \<Rightarrow> 'b controller \<Rightarrow> nat \<Rightarrow> 'w \<Rightarrow> (string result \<times> 'w) option" where
  "poll_clone_status E address c 0 w = None"
| "poll_clone_status E address c (Suc n) w =
     (case rp_GetCloneStatus (eB E) address (backend c) w of
        (Inl e, w1) \<Rightarrow> Some (Inl e, w1)
      | (Inr status, w1) \<Rightarrow>
          if status = [] \<or> status = ''inProgress'' then poll_clone_status E address c n w1
          else Some (Inr status, w1))"

text \<open>The error returned after \<open>RemoveReplicaNoLock\<close>, unless that panics.\<close>

definition remove_and_fail ::
  "('w, 'b) env \<Rightarrow> string \<Rightarrow> error \<Rightarrow> 'b controller \<Rightarrow> 'w \<Rightarrow> error option \<times> 'b controller \<times> 'w" where
  "remove_and_fail E address e c w =
     (case RemoveReplicaNoLock E address c w of
        (Some (Panic m), c1, w1) \<Rightarrow> (Some (Panic m), c1, w1)
      | (_, c1, w1) \<Rightarrow> (Some e, c1, w1))"

definition addReplicaDuringStartNoLock ::
  "('w, 'b) env \<Rightarrow> nat \<Rightarrow> string \<Rightarrow> 'b controller \<Rightarrow> 'w \<Rightarrow> (error option \<times> 'b controller \<times> 'w) option" where
  "addReplicaDuringStartNoLock E fuel address c w =
     (let fail = (\<lambda>e c w. Some (Some e, rmReplicaFromRegisteredReplicas address c, w)) in
      case fCreate (eF E) address w of
        (Inl e, w1) \<Rightarrow> fail e c w1
      | (Inr newBackend, w1) \<Rightarrow>
      (case bSize (eB E) newBackend w1 of
        (Inl e, w2) \<Rightarrow> fail e c w2
      | (Inr newSize, w2) \<Rightarrow>
      (case bSectorSize (eB E) newBackend w2 of
        (Inl e, w3) \<Rightarrow> fail e c w3
      | (Inr newSectorSize, w3) \<Rightarrow>
          let c1 = (if csize c = 2 ^ 63 - 1 then c\<lparr>csize := newSize, csectorSize := newSectorSize\<rparr> else c) in
          if csize c1 \<noteq> newSize then fail (Err ''Backend sizes do not match'') c1 w3
          else if csectorSize c1 \<noteq> newSectorSize then fail (Err ''Backend sizes do not match'') c1 w3
          else (case addReplicaNoLock E newBackend address False c1 w3 of
            (Some e, c2, w4) \<Rightarrow> fail e c2 w4
          | (None, c2, w4) \<Rightarrow>
              (case poll_clone_status E address c2 fuel w4 of
                 None \<Rightarrow> None
               | Some (Inl e, w5) \<Rightarrow> Some (remove_and_fail E address e c2 w5)
               | Some (Inr status, w5) \<Rightarrow>
                   if status = ''error'' then Some (remove_and_fail E address (Err ''Replica clone status returned error'') c2 w5)
                   else (case rp_SetReplicaMode (eB E) address RW (backend c2) w5 of
                           (Some e, w6) \<Rightarrow> Some (remove_and_fail E address (Err ''Fail to set replica mode'') c2 w6)
                         | (None, w6) \<Rightarrow> Some (setReplicaModeNoLock E address RW c2 w6)))))))"

fun add_all_during_start ::
  "('w, 'b) env \<Rightarrow> nat \<Rightarrow> string list \<Rightarrow> 'b controller \<Rightarrow> 'w \<Rightarrow> (error option \<times> 'b controller \<times> 'w) option" where
  "add_all_during_start E fuel [] c w = Some (None, c, w)"
| "add_all_during_start E fuel (a # as) c w =
     (case addReplicaDuringStartNoLock E fuel a c w of
        None \<Rightarrow> None
      | Some (Some e, c1, w1) \<Rightarrow> Some (Some e, c1, w1)
      | Some (None, c1, w1) \<Rightarrow> add_all_during_start E fuel as c1 w1)"

text \<open>The counters of the replicas in the order of \<open>c.replicas\<close>, and the largest (at least 0).\<close>

fun revision_counters ::
  "('w, 'b) env \<Rightarrow> 'b controller \<Rightarrow> replicaEntry list \<Rightarrow> 'w \<Rightarrow> (string \<times> int) list result \<times> 'w" where
  "revision_counters E c [] w = (Inr [], w)"
| "revision_counters E c (r # rs) w =
     (case rp_GetRevisionCounter (eB E) (Address r) (backend c) w of
        (Inl e, w1) \<Rightarrow> (Inl e, w1)
      | (Inr n, w1) \<Rightarrow>
          (case revision_counters E c rs w1 of
             (Inl e, w2) \<Rightarrow> (Inl e, w2)
           | (Inr ns, w2) \<Rightarrow> (Inr ((Address r, n) # ns), w2)))"

definition expected_revision :: "(string \<times> int) list \<Rightarrow> int" where
  "expected_revision ns = fold (\<lambda>(_, n) m. if n > m then n else m) ns 0"

text \<open>The signals to the registered replicas that are not attached; their errors are not looked at.\<close>

fun signal_others :: "('w, 'b) env \<Rightarrow> replicaEntry list \<Rightarrow> string list \<Rightarrow> 'w \<Rightarrow> 'w" where
  "signal_others E rs [] w = w"
| "signal_others E rs (regrep # as) w =
     signal_others E rs as
       (if list_ex (\<lambda>r. Address r = replica_addr regrep) rs then w
        else snd (fSignalToAdd (eF E) regrep ''add'' w))"

definition startFrontend :: "('w, 'b) env \<Rightarrow> 'b controller \<Rightarrow> 'w \<Rightarrow> error option \<times> 'w" where
  "startFrontend E c w =
     (case eFrontend E of
        Some fe \<Rightarrow>
          if replicas c \<noteq> [] then
            (case feStartup fe (cName c) (csize c) (csectorSize c) w of
               (Some e, w1) \<Rightarrow> (Some (Fatal ''Failed to start up frontend''), w1)
             | (None, w1) \<Rightarrow> (None, w1))
          else (None, w)
      | None \<Rightarrow> (None, w))"

text \<open>\<open>Start\<close> after the replicas have been added, and the whole with the deferred call of \<open>startFrontend\<close>.\<close>

definition start_rest :: "('w, 'b) env \<Rightarrow> 'b controller \<Rightarrow> 'w \<Rightarrow> error option \<times> 'b controller \<times> 'w" where
  "start_rest E c w =
     (case revision_counters E c (replicas c) w of
        (Inl e, w1) \<Rightarrow> (Some e, c, w1)
      | (Inr counters, w1) \<Rightarrow>
          (case set_all_err E (map fst (filter (\<lambda>(_, n). n \<noteq> expected_revision counters) counters)) c w1 of
             (Some e, c2, w2) \<Rightarrow> (Some e, c2, w2)
           | (None, c2, w2) \<Rightarrow>
               let w3 = signal_others E (replicas c2) (map fst (RegisteredReplicas c2)) w2;
                   w4 = signal_others E (quorumReplicas c2) (map fst (RegisteredQuorumReplicas c2)) w3;
                   (c5, w5) = UpdateCheckpoint E (UpdateVolStatus c2) w4
               in (None, c5, w5)))"

definition Start ::
  "('w, 'b) env \<Rightarrow> nat \<Rightarrow> string list \<Rightarrow> 'b controller \<Rightarrow> 'w \<Rightarrow> (error option \<times> 'b controller \<times> 'w) option" where
  "Start E fuel addresses c w =
     (case addresses of
        [] \<Rightarrow> Some (None, c, w)
      | a # _ \<Rightarrow>
          if replicas c \<noteq> [] then Some (None, c, w)
          else if a \<noteq> replica_addr (MaxRevReplica c) then Some (Some (Err ''Signalled replica to start''), c, w)
          else (case add_all_during_start E fuel addresses ((c_reset c)\<lparr>csize := 2 ^ 63 - 1\<rparr>) w of
                  None \<Rightarrow> None
                | Some (e1, c1, w1) \<Rightarrow>
                    let (e2, c2, w2) = (case e1 of Some e \<Rightarrow> (Some e, c1, w1) | None \<Rightarrow> start_rest E c1 w1) in
                    (case e2 of
                       Some (Fatal m) \<Rightarrow> Some (e2, c2, w2)
                     | Some (Panic m) \<Rightarrow> Some (e2, c2, w2)
                     | _ \<Rightarrow>
                         (case startFrontend E c2 w2 of
                            (Some (Fatal m), w3) \<Rightarrow> Some (Some (Fatal m), c2, w3)
                          | (_, w3) \<Rightarrow> Some (e2, c2, w3)))))"

section \<open>Snapshots and size\<close>

definition IsSnapShotExist :: "('w, 'b) env \<Rightarrow> string \<Rightarrow> string \<Rightarrow> 'w \<Rightarrow> bool result \<times> 'w" where
  "IsSnapShotExist E snapName addr w =
     (case clNew (eC E) addr of
        Some e \<Rightarrow> (Inl (Err ''Failed to get replica chain''), w)
      | None \<Rightarrow>
          (case clGetReplica (eC E) addr w of
             (Inl e, w1) \<Rightarrow> (Inl (Err ''Failed to get replica chain''), w1)
           | (Inr info, w1) \<Rightarrow>
               if riChain info = [] then (Inl (Err ''No chain list found in replica''), w1)
               else (Inr (list_ex (\<lambda>v. v = ''volume-snap-'' @ snapName @ ''.img'') (riChain info)), w1)))"

definition c_Snapshot ::
  "('w, 'b) env \<Rightarrow> string \<Rightarrow> 'b controller \<Rightarrow> 'w \<Rightarrow> (string \<times> error option) \<times> 'b controller \<times> 'w" where
  "c_Snapshot E name0 c w =
     (let (name, w0) = (if name0 = [] then eUUID E w else (name0, w)) in
      if RWReplicaCount c \<noteq> ReplicationFactor c then (([], Some (Err ''RWReplicaCount != ReplicationFactor'')), c, w0)
      else case rp_RemainSnapshots (eB E) (backend c) w0 of
        (Inl e, w1) \<Rightarrow> (([], Some e), c, w1)
      | (Inr remain, w1) \<Rightarrow>
          if remain \<le> 0 then (([], Some (Err ''Too many snapshots created'')), c, w1)
          else (case getRWReplica c of
             Inl e \<Rightarrow> ((name, Some e), c, w1)
           | Inr rw \<Rightarrow>
               (case IsSnapShotExist E name (Address rw) w1 of
                  (Inl e, w2) \<Rightarrow> ((name, Some (Err ''Failed to create snapshot'')), c, w2)
                | (Inr True, w2) \<Rightarrow> ((name, Some (Err ''Snapshot already exists'')), c, w2)
                | (Inr False, w2) \<Rightarrow>
                    (case eNow E w2 of (created, w3) \<Rightarrow>
                     case rp_Snapshot (eB E) name True created (backend c) w3 of (err, w4) \<Rightarrow>
                     case handleErrorNoLock E err c w4 of (e, c5, w5) \<Rightarrow> ((name, e), c5, w5)))))"

definition c_Resize ::
  "('w, 'b) env \<Rightarrow> string \<Rightarrow> string \<Rightarrow> 'b controller \<Rightarrow> 'w \<Rightarrow> error option \<times> 'b controller \<times> 'w" where
  "c_Resize E name sz c w =
     (if name \<noteq> cName c then (Some (Err ''Volume name didn't match''), c, w)
      else case (if sz \<noteq> [] then eRAMInBytes E sz else Inr 0) of
        Inl e \<Rightarrow> (Some e, c, w)
      | Inr sizeInBytes \<Rightarrow>
          if sizeInBytes < csize c then (Some (Err ''Size can only be increased, not reduced''), c, w)
          else if sizeInBytes = csize c then (Some (Err ''Volume size same as size mentioned''), c, w)
          else (case rp_Resize (eB E) name sz (backend c) w of (err, w1) \<Rightarrow>
             (case handleErrorNoLock E err c w1 of
                (Some e, c2, w2) \<Rightarrow> (Some (Err ''Failed to resize replica''), c2, w2)
              | (None, c2, w2) \<Rightarrow>
                  (case eFrontend E of
                     None \<Rightarrow> (None, c2\<lparr>csize := sizeInBytes\<rparr>, w2)
                   | Some fe \<Rightarrow>
                       (case feResize fe sizeInBytes w2 of
                          (Some e, w3) \<Rightarrow> (Some (Err ''Failed to resize from frontend''), c2, w3)
                        | (None, w3) \<Rightarrow> (None, c2\<lparr>csize := sizeInBytes\<rparr>, w3))))))"

section \<open>Shutdown and monitoring\<close>

definition shutdownFrontend :: "('w, 'b) env \<Rightarrow> 'w \<Rightarrow> error option \<times> 'w" where
  "shutdownFrontend E w = (case eFrontend E of None \<Rightarrow> (None, w) | Some fe \<Rightarrow> feShutdown fe w)"

definition shutdownBackend :: "('w, 'b) env \<Rightarrow> 'b controller \<Rightarrow> 'w \<Rightarrow> error option \<times> 'b controller \<times> 'w" where
  "shutdownBackend E c w = (case rp_Close (eB E) (backend c) w of (e, rp, w1) \<Rightarrow> (e, c_reset c, w1))"

definition Shutdown :: "('w, 'b) env \<Rightarrow> 'b controller \<Rightarrow> 'w \<Rightarrow> error option \<times> 'b controller \<times> 'w" where
  "Shutdown E c w =
     (case shutdownFrontend E w of (_, w1) \<Rightarrow>
      case shutdownBackend E c w1 of (_, c2, w2) \<Rightarrow> (None, c2, w2))"

text \<open>What \<open>monitoring\<close> does when the channel of the backend yields a value (an error, or none when it is stopped).\<close>

definition monitoring ::
  "('w, 'b) env \<Rightarrow> string \<Rightarrow> error option \<Rightarrow> 'b controller \<Rightarrow> 'w \<Rightarrow> error option \<times> 'b controller \<times> 'w" where
  "monitoring E address err c w =
     (case (if err \<noteq> None then setReplicaModeNoLock E address ERR c w else (None, c, w)) of
        (Some e, c1, w1) \<Rightarrow> (Some e, c1, w1)
      | (None, c1, w1) \<Rightarrow> RemoveReplicaNoLock E address c1 w1)"

end
