(* ===== verification/ControllerRebuild.thy ===== *)
theory ControllerRebuild
  imports ControllerIO
begin

text \<open>
  \<open>controller/rebuild.go\<close>, \<open>controller/revert.go\<close> and the removal of snapshots from
  \<open>controller/control.go\<close>: the operations of the controller that drive the replicas through their HTTP
  clients.
\<close>

section \<open>Rebuild\<close>

definition getReplicaChain :: "('w, 'b) env \<Rightarrow> string \<Rightarrow> 'w \<Rightarrow> string list result \<times> 'w" where
  "getReplicaChain E address w =
     (case clNew (eC E) address of
        Some e \<Rightarrow> (Inl (Err ''Cannot get replica client''), w)
      | None \<Rightarrow>
          (case clGetReplica (eC E) address w of
             (Inl e, w1) \<Rightarrow> (Inl (Err ''Cannot get replica''), w1)
           | (Inr rep, w1) \<Rightarrow> (Inr (riChain rep), w1)))"

definition getReplicaCheckpoint :: "('w, 'b) env \<Rightarrow> string \<Rightarrow> 'w \<Rightarrow> string result \<times> 'w" where
  "getReplicaCheckpoint E address w =
     (case clNew (eC E) address of
        Some e \<Rightarrow> (Inl (Err ''Cannot get replica client''), w)
      | None \<Rightarrow>
          (case clGetReplica (eC E) address w of
             (Inl e, w1) \<Rightarrow> (Inl (Err ''Cannot get replica''), w1)
           | (Inr rep, w1) \<Rightarrow> (Inr (riCheckpoint rep), w1)))"

definition getCurrentAndRWReplica :: "string \<Rightarrow> 'b controller \<Rightarrow> (replicaEntry \<times> replicaEntry) result" where
  "getCurrentAndRWReplica address c =
     (case List.find (\<lambda>r. Address r = address) (replicas c) of
        None \<Rightarrow> Inl (Err ''Cannot find replica'')
      | Some current \<Rightarrow>
          (case List.find (\<lambda>r. Mode r = RW) (replicas c) of
             None \<Rightarrow> Inl (Err ''Cannot find any healthy replica'')
           | Some rwReplica \<Rightarrow> Inr (current, rwReplica)))"

text \<open>\<open>util.ChainContainsSnapshot\<close>, and the index at which the loop over the chain stops.\<close>

fun ChainContainsSnapshot :: "string list \<Rightarrow> string \<Rightarrow> bool" where
  "ChainContainsSnapshot [] snapshot = False"
| "ChainContainsSnapshot (s # chain) snapshot = (if s = snapshot then True else ChainContainsSnapshot chain snapshot)"

fun stop_index :: "string \<Rightarrow> nat \<Rightarrow> nat \<Rightarrow> string list \<Rightarrow> nat" where
  "stop_index cp indx i [] = indx"
| "stop_index cp indx i (s # chain) = (if s = cp then i else stop_index cp i (i + 1) chain)"

text \<open>
  The comparison of the two chains.  A slice that ends after the end of the chain of the rebuilding
  replica fails: it either does not fit its capacity or has empty names in it.
\<close>

definition chains_match :: "string \<Rightarrow> string list \<Rightarrow> string list \<Rightarrow> error option" where
  "chains_match cp rwChain ch =
     (if cp \<noteq> [] \<and> \<not> ChainContainsSnapshot rwChain cp
      then Some (Err ''WO replica's checkpoint not present in rwReplica chain'')
      else let indx = stop_index cp 0 0 rwChain in
        if rwChain = [] \<or> length ch < indx + 1 then Some (Panic ''slice bounds out of range'')
        else if take indx (drop 1 rwChain) \<noteq> take indx (drop 1 ch)
        then Some (Err ''Replica's chain not equal to RW replica's chain'')
        else None)"

definition VerifyRebuildReplica ::
  "('w, 'b) env \<Rightarrow> string \<Rightarrow> 'b controller \<Rightarrow> 'w \<Rightarrow> error option \<times> 'b controller \<times> 'w" where
  "VerifyRebuildReplica E address c w =
     (case getCurrentAndRWReplica address c of
        Inl e \<Rightarrow> (Some e, c, w)
      | Inr (rep, rwReplica) \<Rightarrow>
          if Mode rep = RW then (None, c, w)
          else if Mode rep \<noteq> WO then (Some (Err ''Invalid mode for replica to check''), c, w)
          else (case getReplicaChain E (Address rwReplica) w of
             (Inl e, w1) \<Rightarrow> (Some e, c, w1)
           | (Inr rwChain, w1) \<Rightarrow>
          (case getReplicaChain E address w1 of
             (Inl e, w2) \<Rightarrow> (Some e, c, w2)
           | (Inr ch, w2) \<Rightarrow>
          (case getReplicaCheckpoint E address w2 of
             (Inl e, w3) \<Rightarrow> (Some e, c, w3)
           | (Inr cp, w3) \<Rightarrow>
          (case chains_match cp rwChain ch of
             Some e \<Rightarrow> (Some e, c, w3)
           | None \<Rightarrow>
          (case rp_GetRevisionCounter (eB E) (Address rwReplica) (backend c) w3 of
             (Inl e, w4) \<Rightarrow> (Some (Err ''Failed to get revision counter of RW Replica''), c, w4)
           | (Inr counter, w4) \<Rightarrow>
               if counter = -1 then (Some (Err ''Failed to get revision counter of RW Replica''), c, w4)
               else
          (case rp_SetReplicaMode (eB E) address RW (backend c) w4 of
             (Some e, w5) \<Rightarrow> (Some (Err ''Fail to set replica mode''), c, w5)
           | (None, w5) \<Rightarrow>
          (case rp_SetRevisionCounter (eB E) address counter (backend c) w5 of
             (Some e, w6) \<Rightarrow> (Some (Err ''Fail to set revision counter''), c, w6)
           | (None, w6) \<Rightarrow>
          (case setReplicaModeNoLock E address RW c w6 of
             (Some e, c7, w7) \<Rightarrow> (Some e, c7, w7)
           | (None, c7, w7) \<Rightarrow>
               let c8 = (if int (length (quorumReplicas c7)) > quorumReplicaCount c7
                         then c7\<lparr>quorumReplicaCount := int (length (quorumReplicas c7))\<rparr> else c7);
                   (c9, w9) = UpdateCheckpoint E (UpdateVolStatus c8) w7
               in (None, c9, w9))))))))))"

definition syncFile :: "('w, 'b) env \<Rightarrow> string \<Rightarrow> string \<Rightarrow> replicaEntry \<Rightarrow> replicaEntry \<Rightarrow> 'w \<Rightarrow> error option \<times> 'w" where
  "syncFile E from to0 fromReplica toReplica w =
     (let to' = (if to0 = [] then from else to0) in
      case clNew (eC E) (Address fromReplica) of
        Some e \<Rightarrow> (Some (Err ''Cannot get replica client''), w)
      | None \<Rightarrow>
          (case clNew (eC E) (Address toReplica) of
             Some e \<Rightarrow> (Some (Err ''Cannot get replica client''), w)
           | None \<Rightarrow>
               (case clLaunchReceiver (eC E) (Address toReplica) to' w of
                  (Inl e, w1) \<Rightarrow> (Some e, w1)
                | (Inr (host, port), w1) \<Rightarrow> clSendFile (eC E) (Address fromReplica) from host port w1)))"

definition PrepareRebuildReplica :: "('w, 'b) env \<Rightarrow> string \<Rightarrow> 'b controller \<Rightarrow> 'w \<Rightarrow> string list result \<times> 'w" where
  "PrepareRebuildReplica E address c w =
     (case getCurrentAndRWReplica address c of
        Inl e \<Rightarrow> (Inl e, w)
      | Inr (rep, rwReplica) \<Rightarrow>
          if Mode rep \<noteq> WO then (Inl (Err ''Invalid mode for replica to prepare rebuild''), w)
          else (case getReplicaChain E (Address rwReplica) w of
             (Inl e, w1) \<Rightarrow> (Inl e, w1)
           | (Inr rwChain, w1) \<Rightarrow>
               if rwChain = [] then (Inl (Panic ''index out of range''), w1)
               else (case getReplicaChain E address w1 of
                  (Inl e, w2) \<Rightarrow> (Inl e, w2)
                | (Inr ch, w2) \<Rightarrow>
                    if ch = [] then (Inl (Panic ''index out of range''), w2)
                    else (case syncFile E (hd rwChain @ ''.meta'') (hd ch @ ''.meta'') rwReplica rep w2 of
                            (Some e, w3) \<Rightarrow> (Inl e, w3)
                          | (None, w3) \<Rightarrow> (Inr (tl rwChain), w3)))))"

section \<open>Revert\<close>

fun revert_clients :: "('w, 'b) env \<Rightarrow> replicaEntry list \<Rightarrow> 'w \<Rightarrow> string list result \<times> 'w" where
  "revert_clients E [] w = (Inr [], w)"
| "revert_clients E (r # rs) w =
     (if Mode r = WO then (Inl (Err ''Cannot revert during rebuilding process''), w)
      else if Mode r \<noteq> RW then revert_clients E rs w
      else if \<not> has_prefix ''tcp://'' (Address r) then (Inl (Err ''Backend does not support revert''), w)
      else case clNew (eC E) (Address r) of
        Some e \<Rightarrow> (Inl e, w)
      | None \<Rightarrow>
          (case clGetReplica (eC E) (Address r) w of
             (Inl e, w1) \<Rightarrow> (Inl e, w1)
           | (Inr info, w1) \<Rightarrow>
               (case revert_clients E rs w1 of
                  (Inl e, w2) \<Rightarrow> (Inl e, w2)
                | (Inr as, w2) \<Rightarrow> (Inr (Address r # as), w2))))"

definition clientsAndSnapshot ::
  "('w, 'b) env \<Rightarrow> string \<Rightarrow> 'b controller \<Rightarrow> 'w \<Rightarrow> (string list \<times> string) result \<times> 'w" where
  "clientsAndSnapshot E name c w =
     (case revert_clients E (replicas c) w of
        (Inl e, w1) \<Rightarrow> (Inl e, w1)
      | (Inr as, w1) \<Rightarrow> (Inr (as, ''volume-snap-'' @ name @ ''.img''), w1))"

fun revert_all ::
  "('w, 'b) env \<Rightarrow> string \<Rightarrow> string \<Rightarrow> string list \<Rightarrow> bool \<Rightarrow> 'b controller \<Rightarrow> 'w \<Rightarrow> bool result \<times> 'b controller \<times> 'w" where
  "revert_all E name now [] ok c w = (Inr ok, c, w)"
| "revert_all E name now (a # as) ok c w =
     (case clRevert (eC E) a name now w of
        (None, w1) \<Rightarrow> revert_all E name now as True c w1
      | (Some e, w1) \<Rightarrow>
          (case setReplicaModeNoLock E a ERR c w1 of
             (Some f, c2, w2) \<Rightarrow> (Inl f, c2, w2)
           | (None, c2, w2) \<Rightarrow> revert_all E name now as ok c2 w2))"

text \<open>The part of \<open>Revert\<close> that holds the lock; the replicas have been looked at before.\<close>

definition revert_locked ::
  "('w, 'b) env \<Rightarrow> string list \<Rightarrow> string \<Rightarrow> 'b controller \<Rightarrow> 'w \<Rightarrow> error option \<times> 'b controller \<times> 'w" where
  "revert_locked E clients name c w =
     (case eNow E w of (now, w3) \<Rightarrow>
      (case revert_all E name now clients False c w3 of
         (Inl f, c4, w4) \<Rightarrow> (Some f, c4, w4)
       | (Inr False, c4, w4) \<Rightarrow> (Some (Err ''Fail to revert on all replicas''), c4, w4)
       | (Inr True, c4, w4) \<Rightarrow> (case startFrontend E c4 w4 of (e, w5) \<Rightarrow> (e, c4, w5))))"

definition revert_doable :: "'b controller \<Rightarrow> bool" where
  "revert_doable c =
     (let rw = list_ex (\<lambda>r. Mode r = RW) (replicas c); wo = list_ex (\<lambda>r. Mode r = WO) (replicas c) in rw \<and> \<not> wo)"

definition c_Revert :: "('w, 'b) env \<Rightarrow> string \<Rightarrow> 'b controller \<Rightarrow> 'w \<Rightarrow> error option \<times> 'b controller \<times> 'w" where
  "c_Revert E name c w =
     (if \<not> revert_doable c then (Some (Err ''Not valid state to revert''), c, w)
      else case clientsAndSnapshot E name c w of
        (Inl e, w1) \<Rightarrow> (Some e, c, w1)
      | (Inr (clients, name'), w1) \<Rightarrow>
          (case shutdownFrontend E w1 of
             (Some e, w2) \<Rightarrow> (Some e, c, w2)
           | (None, w2) \<Rightarrow> revert_locked E clients name' c w2))"

section \<open>Removal of snapshots\<close>

definition prepareRemoveSnapshot :: "('w, 'b) env \<Rightarrow> string \<Rightarrow> string \<Rightarrow> 'w \<Rightarrow> prepareRemoveAction list result \<times> 'w" where
  "prepareRemoveSnapshot E address snapshot w =
     (case clNew (eC E) address of Some e \<Rightarrow> (Inl e, w) | None \<Rightarrow> clPrepareRemoveDisk (eC E) address snapshot w)"

fun DeleteSnapshot :: "('w, 'b) env \<Rightarrow> string \<Rightarrow> replicaEntry list \<Rightarrow> 'w \<Rightarrow> error option \<times> 'w" where
  "DeleteSnapshot E snapshot [] w = (None, w)"
| "DeleteSnapshot E snapshot (r # rs) w =
     (case prepareRemoveSnapshot E (Address r) snapshot w of
        (Inl e, w1) \<Rightarrow> (Some e, w1)
      | (Inr _, w1) \<Rightarrow> DeleteSnapshot E snapshot rs w1)"

definition c_rmDisk :: "('w, 'b) env \<Rightarrow> string \<Rightarrow> string \<Rightarrow> 'w \<Rightarrow> error option \<times> 'w" where
  "c_rmDisk E address disk w =
     (case clNew (eC E) address of Some e \<Rightarrow> (Some e, w) | None \<Rightarrow> clRemoveDisk (eC E) address disk w)"

definition c_replaceDisk :: "('w, 'b) env \<Rightarrow> string \<Rightarrow> string \<Rightarrow> string \<Rightarrow> 'w \<Rightarrow> error option \<times> 'w" where
  "c_replaceDisk E address target source w =
     (case clNew (eC E) address of Some e \<Rightarrow> (Some e, w) | None \<Rightarrow> clReplaceDisk (eC E) address target source w)"

definition remove_step :: "('w, 'b) env \<Rightarrow> string \<Rightarrow> prepareRemoveAction \<Rightarrow> 'w \<Rightarrow> error option \<times> 'w" where
  "remove_step E address a w =
     (case paAction a of
        OpRemove \<Rightarrow>
          (case c_rmDisk E address (paSource a) w of
             (Some e, w1) \<Rightarrow> (Some (Err ''Failed to remove''), w1) | (None, w1) \<Rightarrow> (None, w1))
      | OpCoalesce \<Rightarrow>
          (case clCoalesce (eC E) address (paSource a) (paTarget a) w of
             (Some e, w1) \<Rightarrow> (Some (Err ''Failed to coalesce''), w1) | (None, w1) \<Rightarrow> (None, w1))
      | OpReplace \<Rightarrow>
          (case c_replaceDisk E address (paTarget a) (paSource a) w of
             (Some e, w1) \<Rightarrow> (Some (Err ''Failed to replace''), w1) | (None, w1) \<Rightarrow> (None, w1))
      | OpOther _ \<Rightarrow> (None, w))"

fun remove_steps :: "('w, 'b) env \<Rightarrow> string \<Rightarrow> prepareRemoveAction list \<Rightarrow> 'w \<Rightarrow> error option \<times> 'w" where
  "remove_steps E address [] w = (None, w)"
| "remove_steps E address (a # as) w =
     (case remove_step E address a w of (Some e, w1) \<Rightarrow> (Some e, w1) | (None, w1) \<Rightarrow> remove_steps E address as w1)"

definition processRemoveSnapshot ::
  "('w, 'b) env \<Rightarrow> string \<Rightarrow> prepareRemoveAction list \<Rightarrow> 'w \<Rightarrow> error option \<times> 'w" where
  "processRemoveSnapshot E address ops w =
     (if ops = [] then (None, w)
      else case clNew (eC E) address of Some e \<Rightarrow> (Some e, w) | None \<Rightarrow> remove_steps E address ops w)"

end
