(* ===== verification/ControllerInv.thy ===== *)
theory ControllerInv
  imports ControllerRebuild
begin

text \<open>
  The invariant of the controller and that its operations keep it: the table of replicas and the
  replicator name the same backends in the same modes, no address occurs twice, at most one replica
  is being rebuilt, and what the replicator derives from its backends is up to date.
\<close>

section \<open>The replicator\<close>

definition entries :: "'b replicator \<Rightarrow> (string \<times> mode) list" where
  "entries r = map (\<lambda>(a, b). (a, bw_mode b)) (backends r)"

definition built :: "'b replicator \<Rightarrow> bool" where
  "built r \<longleftrightarrow>
     writerIndex r = map fst (live (backends r)) \<and> readerIndex r = map fst (readable (backends r)) \<and>
     readers r = map (bw_backend \<circ> snd) (readable (backends r)) \<and>
     rwriter r = Some \<lparr>writers = map (bw_backend \<circ> snd) (live (backends r)),
                       updaters = map (bw_backend \<circ> snd) (live (quorumBackends r))\<rparr> \<and>
     backendsAvailable r = (readable (backends r) \<noteq> [])"

text \<open>A replicator is up to date, or new and without backends.\<close>

definition rp_ok :: "'b replicator \<Rightarrow> bool" where
  "rp_ok r \<longleftrightarrow> distinct (map fst (backends r)) \<and> (built r \<or> backends r = [] \<and> \<not> backendsAvailable r)"

lemma backends_build [simp]:
  "backends (buildReadWriters r) = backends r" "quorumBackends (buildReadWriters r) = quorumBackends r"
  by (simp_all add: buildReadWriters_def rp_reset_def Let_def)

lemma built_build [simp]: "built (buildReadWriters r)"
  by (auto simp: built_def buildReadWriters_def rp_reset_def Let_def)

lemma entries_build [simp]: "entries (buildReadWriters r) = entries r"
  by (simp add: entries_def)

lemma fst_entries [simp]: "map fst (entries r) = map fst (backends r)"
  by (simp add: entries_def case_prod_unfold)

lemma in_entries: "a \<in> fst ` set (entries r) \<longleftrightarrow> map_of (backends r) a \<noteq> None"
  by (force simp: entries_def map_of_eq_None_iff image_iff)

lemma rp_ok_AddBackend:
  "rp_ok r \<Longrightarrow> map_of (backends r) a = None \<Longrightarrow>
     rp_ok (AddBackend a b r) \<and> entries (AddBackend a b r) = entries r @ [(a, WO)]"
  by (auto simp: AddBackend_def rp_ok_def entries_def map_of_eq_None_iff)

lemma rp_ok_AddQuorumBackend: "rp_ok r \<Longrightarrow> rp_ok (AddQuorumBackend a b r) \<and> entries (AddQuorumBackend a b r) = entries r"
  by (auto simp: AddQuorumBackend_def rp_ok_def entries_def)

lemma filter_absent: "a \<notin> fst ` set xs \<Longrightarrow> filter (\<lambda>(k, _). k \<noteq> a) xs = xs"
  by (rule filter_True) force

lemma rp_ok_RemoveBackend:
  assumes "RemoveBackend B a r w = (r', w')" "rp_ok r"
  shows "rp_ok r' \<and> entries r' = filter (\<lambda>(k, _). k \<noteq> a) (entries r)"
proof -
  have e: "entries (r\<lparr>backends := filter (\<lambda>(k, _). k \<noteq> a) (backends r)\<rparr>) = filter (\<lambda>(k, _). k \<noteq> a) (entries r)"
    by (simp add: entries_def filter_map comp_def case_prod_unfold)
  have d: "distinct (map fst (filter (\<lambda>(k, _). k \<noteq> a) (backends r)))"
    using assms(2) by (simp add: rp_ok_def distinct_map_filter)
  show ?thesis
  proof (cases "map_of (backends r) a = None \<and> map_of (quorumBackends r) a = None")
    case True
    then have "a \<notin> fst ` set (entries r)" using in_entries by metis
    then show ?thesis using assms True by (simp add: RemoveBackend_def filter_absent)
  next
    case False
    then have "r' = buildReadWriters (r\<lparr>backends := filter (\<lambda>(k, _). k \<noteq> a) (backends r)\<rparr>)"
      using assms(1) by (auto simp: RemoveBackend_def split: option.splits prod.splits)
    then show ?thesis using e d by (simp add: rp_ok_def)
  qed
qed

definition put_mode :: "string \<Rightarrow> mode \<Rightarrow> (string \<times> mode) list \<Rightarrow> (string \<times> mode) list" where
  "put_mode a m es = map (\<lambda>(k, m'). (k, if k = a then m else m')) es"

lemma put_mode_absent: "a \<notin> fst ` set es \<Longrightarrow> put_mode a m es = es"
  by (force simp: put_mode_def intro!: map_idI)

lemma rp_ok_SetMode:
  assumes "SetMode B a m r w = (r', w')" "rp_ok r"
  shows "rp_ok r' \<and> entries r' = put_mode a m (entries r)"
proof (cases "map_of (backends r) a")
  case None
  then have "a \<notin> fst ` set (entries r)" using in_entries by metis
  then show ?thesis using assms None by (simp add: SetMode_def put_mode_absent)
next
  case (Some b)
  let ?bs = "map (\<lambda>(k, x). (k, if k = a then b\<lparr>bw_mode := m\<rparr> else x)) (backends r)"
  have "r' = buildReadWriters (r\<lparr>backends := ?bs\<rparr>)" using assms(1) Some by (simp add: SetMode_def Let_def)
  moreover have "distinct (map fst ?bs)"
    using assms(2) by (simp add: rp_ok_def comp_def case_prod_unfold)
  moreover have "entries (r\<lparr>backends := ?bs\<rparr>) = put_mode a m (entries r)"
    by (simp add: put_mode_def entries_def case_prod_unfold)
  ultimately show ?thesis by (simp add: rp_ok_def)
qed

lemma rp_ok_next [simp]: "rp_ok (r\<lparr>next_reader := n\<rparr>) = rp_ok r" "entries (r\<lparr>next_reader := n\<rparr>) = entries r"
  by (simp_all add: rp_ok_def built_def entries_def)

section \<open>The controller\<close>

definition reps :: "replicaEntry list \<Rightarrow> (string \<times> mode) list" where
  "reps rs = map (\<lambda>r. (Address r, Mode r)) rs"

definition wo_count :: "(string \<times> mode) list \<Rightarrow> nat" where
  "wo_count es = length (filter (\<lambda>(_, m). m = WO) es)"

definition ctl_inv :: "'b controller \<Rightarrow> bool" where
  "ctl_inv c \<longleftrightarrow>
     distinct (map Address (replicas c @ quorumReplicas c)) \<and> rp_ok (backend c) \<and>
     entries (backend c) = reps (replicas c) \<and> wo_count (reps (replicas c)) \<le> 1"

lemma ctl_inv_frame:
  assumes "ctl_inv c" "replicas c' = replicas c" "quorumReplicas c' = quorumReplicas c" "backend c' = backend c"
  shows "ctl_inv c'"
  using assms by (simp add: ctl_inv_def)

lemma fst_reps [simp]: "map fst (reps rs) = map Address rs" "fst ` set (reps rs) = Address ` set rs"
  by (auto simp: reps_def comp_def image_image)

lemma ctl_inv_addresses: "ctl_inv c \<Longrightarrow> fst ` set (backends (backend c)) = Address ` set (replicas c)"
proof -
  assume "ctl_inv c"
  then have "map fst (backends (backend c)) = map Address (replicas c)"
    using fst_entries [of "backend c"] by (simp add: ctl_inv_def)
  then show ?thesis by (metis list.set_map)
qed

lemma ctl_inv_UpdateVolStatus [simp]: "ctl_inv (UpdateVolStatus c) = ctl_inv c"
  by (simp add: ctl_inv_def UpdateVolStatus_def Let_def)

lemma UpdateCheckpoint_frame:
  assumes "UpdateCheckpoint E c w = (c', w')"
  shows "\<exists>cp. c' = c\<lparr>Checkpoint := cp\<rparr>"
  using assms by (auto simp: UpdateCheckpoint_def split: if_splits prod.splits sum.splits option.splits)

lemma ctl_inv_Checkpoint [simp]: "ctl_inv (c\<lparr>Checkpoint := cp\<rparr>) = ctl_inv c"
  by (simp add: ctl_inv_def)

lemma ctl_inv_UpdateCheckpoint: "UpdateCheckpoint E c w = (c', w') \<Longrightarrow> ctl_inv c' = ctl_inv c"
  by (drule UpdateCheckpoint_frame) auto

lemma rm_entry_eq:
  "distinct (map Address rs) \<Longrightarrow> rm_entry a rs = filter (\<lambda>r. Address r \<noteq> a) rs"
proof (induction rs)
  case (Cons r rs)
  moreover have "filter (\<lambda>x. Address x \<noteq> Address r) rs = rs" if "Address r \<notin> Address ` set rs"
    using that by (intro filter_True) (metis imageI)
  ultimately show ?case by auto
qed simp

lemma reps_filter: "reps (filter (\<lambda>r. Address r \<noteq> a) rs) = filter (\<lambda>(k, _). k \<noteq> a) (reps rs)"
  by (simp add: reps_def filter_map comp_def)

lemma wo_count_filter: "wo_count (filter P es) \<le> wo_count es"
proof -
  have "filter (\<lambda>(_, m). m = WO) (filter P es) = filter P (filter (\<lambda>(_, m). m = WO) es)"
    by (simp add: conj_commute)
  then show ?thesis unfolding wo_count_def by (metis length_filter_le)
qed

lemma rm_data_replica_inv:
  assumes inv: "ctl_inv c" and st: "rm_data_replica E fe a c w = (c', w')"
  shows "ctl_inv c' \<and> replicas c' = filter (\<lambda>r. Address r \<noteq> a) (replicas c) \<and> quorumReplicas c' = quorumReplicas c"
proof (cases "list_ex (\<lambda>r. Address r = a) (replicas c)")
  case False
  then have "filter (\<lambda>r. Address r \<noteq> a) (replicas c) = replicas c" by (auto simp: list_ex_iff intro!: filter_True)
  then show ?thesis using inv st False by (simp add: rm_data_replica_def)
next
  case True
  have d: "distinct (map Address (replicas c))" using inv by (simp add: ctl_inv_def)
  obtain rp w1 where rb: "RemoveBackend (eB E) a (backend c)
      (if length (replicas c) = 1 \<and> feState fe w then snd (feShutdown fe w) else w) = (rp, w1)" by fastforce
  have c': "replicas c' = filter (\<lambda>r. Address r \<noteq> a) (replicas c)" "quorumReplicas c' = quorumReplicas c" "backend c' = rp"
    using st True rb rm_entry_eq [OF d] by (auto simp: rm_data_replica_def Let_def split: if_splits prod.splits)
  have "rp_ok rp \<and> entries rp = filter (\<lambda>(k, _). k \<noteq> a) (entries (backend c))"
    using rp_ok_RemoveBackend [OF rb] inv by (simp add: ctl_inv_def)
  then show ?thesis
    using inv c' wo_count_filter [of "\<lambda>(k, _). k \<noteq> a" "reps (replicas c)"]
    by (auto simp: ctl_inv_def reps_filter distinct_map_filter)
qed

lemma rm_quorum_replica_inv:
  assumes inv: "ctl_inv c" and st: "rm_quorum_replica E a c w = (c', w')" and na: "a \<notin> Address ` set (replicas c)"
  shows "ctl_inv c' \<and> replicas c' = replicas c \<and> quorumReplicas c' = filter (\<lambda>r. Address r \<noteq> a) (quorumReplicas c)"
proof (cases "list_ex (\<lambda>r. Address r = a) (quorumReplicas c)")
  case False
  then have "filter (\<lambda>r. Address r \<noteq> a) (quorumReplicas c) = quorumReplicas c" by (auto simp: list_ex_iff intro!: filter_True)
  then show ?thesis using inv st False by (simp add: rm_quorum_replica_def)
next
  case True
  have d: "distinct (map Address (quorumReplicas c))" using inv by (simp add: ctl_inv_def)
  obtain rp w1 where rb: "RemoveBackend (eB E) a (backend c) w = (rp, w1)" by fastforce
  have c': "quorumReplicas c' = filter (\<lambda>r. Address r \<noteq> a) (quorumReplicas c)" "replicas c' = replicas c" "backend c' = rp"
    using st True rb rm_entry_eq [OF d] by (auto simp: rm_quorum_replica_def Let_def)
  have "rp_ok rp \<and> entries rp = filter (\<lambda>(k, _). k \<noteq> a) (entries (backend c))"
    using rp_ok_RemoveBackend [OF rb] inv by (simp add: ctl_inv_def)
  moreover have "filter (\<lambda>(k, _). k \<noteq> a) (entries (backend c)) = entries (backend c)"
    using inv na by (intro filter_absent) (simp add: ctl_inv_def)
  ultimately show ?thesis
    using inv c' by (auto simp: ctl_inv_def distinct_map_filter)
qed

text \<open>The result of a removal on the two lists of replicas.\<close>

lemma RemoveReplicaNoLock_inv:
  assumes inv: "ctl_inv c" and st: "RemoveReplicaNoLock E a c w = (e, c', w')"
  shows "ctl_inv c' \<and>
    (e = None \<longrightarrow> replicas c' = filter (\<lambda>r. Address r \<noteq> a) (replicas c) \<and>
        quorumReplicas c' = filter (\<lambda>r. Address r \<noteq> a) (quorumReplicas c)) \<and>
    (e \<noteq> None \<longrightarrow> (\<exists>m. e = Some (Panic m)) \<and> c' = c)"
proof (cases "eFrontend E")
  case None then show ?thesis using assms by (auto simp: RemoveReplicaNoLock_def)
next
  case (Some fe)
  show ?thesis
  proof (cases "hasReplica a c")
    case False
    then have "filter (\<lambda>r. Address r \<noteq> a) (replicas c) = replicas c"
      "filter (\<lambda>r. Address r \<noteq> a) (quorumReplicas c) = quorumReplicas c"
      by (auto simp: hasReplica_def list_ex_iff intro!: filter_True)
    then show ?thesis using assms Some False by (auto simp: RemoveReplicaNoLock_def)
  next
    case True
    obtain c1 w1 where 1: "rm_data_replica E fe a c w = (c1, w1)" by fastforce
    obtain c2 w2 where 2: "rm_quorum_replica E a c1 w1 = (c2, w2)" by fastforce
    obtain c3 w3 where 3: "UpdateCheckpoint E (UpdateVolStatus c2) w2 = (c3, w3)" by fastforce
    have r: "e = None" "c' = c3" using st Some True 1 2 3 by (auto simp: RemoveReplicaNoLock_def)
    have i1: "ctl_inv c1" "replicas c1 = filter (\<lambda>r. Address r \<noteq> a) (replicas c)" "quorumReplicas c1 = quorumReplicas c"
      using rm_data_replica_inv [OF inv 1] by auto
    moreover have i2: "ctl_inv c2" "replicas c2 = replicas c1"
        "quorumReplicas c2 = filter (\<lambda>r. Address r \<noteq> a) (quorumReplicas c1)"
      using rm_quorum_replica_inv [OF i1(1) 2] i1(2) by auto
    moreover have "ctl_inv c3" using ctl_inv_UpdateCheckpoint [OF 3] i2(1) by simp
    moreover have "replicas c3 = replicas c2" "quorumReplicas c3 = quorumReplicas c2"
      using UpdateCheckpoint_frame [OF 3] by (auto simp: UpdateVolStatus_def Let_def)
    ultimately show ?thesis using r by simp
  qed
qed

section \<open>Modes\<close>

definition upd_mode :: "string \<Rightarrow> mode \<Rightarrow> (string \<times> mode) list \<Rightarrow> (string \<times> mode) list" where
  "upd_mode a m es = map (\<lambda>(k, m'). (k, if k = a \<and> m' \<noteq> ERR then m else m')) es"

lemma reps_set_entry: "reps (set_entry a m rs) = upd_mode a m (reps rs)"
  by (simp add: reps_def set_entry_def upd_mode_def)

lemma Address_set_entry [simp]: "map Address (set_entry a m rs) = map Address rs"
  by (auto simp: set_entry_def)

lemma wo_count_upd_mode: "m \<noteq> WO \<Longrightarrow> wo_count (upd_mode a m es) \<le> wo_count es"
  by (induction es) (auto simp: wo_count_def upd_mode_def split: if_splits)

lemma filter_address_length:
  "distinct (map Address rs) \<Longrightarrow> length (filter (\<lambda>r. Address r = a) rs) \<le> 1"
proof (induction rs)
  case (Cons r rs)
  moreover have "filter (\<lambda>x. Address x = Address r) rs = []" if "Address r \<notin> Address ` set rs"
    using that by (auto simp: filter_empty_conv) (metis imageI)
  ultimately show ?case by auto
qed simp

lemma upd_mode_put:
  assumes "distinct (map fst es)" "(a, m') \<in> set es"
  shows "upd_mode a m es = (if m' = ERR then es else put_mode a m es)"
proof -
  have u: "m'' = m'" if "(a, m'') \<in> set es" for m'' using that assms by (meson eq_key_imp_eq_value)
  show ?thesis
    by (cases "m' = ERR") (auto simp: upd_mode_def put_mode_def dest: u intro!: map_idI)
qed

lemma singleton_list: "length xs \<le> 1 \<Longrightarrow> x \<in> set xs \<Longrightarrow> xs = [x]"
  by (cases xs) auto

lemma setReplicaModeNoLock_inv:
  assumes inv: "ctl_inv c" and m: "m \<noteq> WO" and st: "setReplicaModeNoLock E a m c w = (e, c', w')"
  shows "e = None \<and> ctl_inv c' \<and> replicas c' = set_entry a m (replicas c) \<and>
    quorumReplicas c' = set_entry a m (quorumReplicas c) \<and> quorumReplicaCount c' = quorumReplicaCount c"
proof -
  let ?here = "filter (\<lambda>r. Address r = a) (replicas c @ quorumReplicas c)"
  have d: "distinct (map Address (replicas c @ quorumReplicas c))" and ok: "rp_ok (backend c)"
    and en: "entries (backend c) = reps (replicas c)" using inv by (auto simp: ctl_inv_def)
  have l1: "length ?here \<le> 1" by (rule filter_address_length [OF d])
  define k where "k = length (filter (\<lambda>r. Mode r \<noteq> ERR) ?here)"
  have k1: "k \<le> 1" using l1 length_filter_le [of "\<lambda>r. Mode r \<noteq> ERR" ?here] by (simp add: k_def)
  obtain rp w1 where sm: "((\<lambda>(rp, w). SetMode (eB E) a m rp w) ^^ k) (backend c, w) = (rp, w1)" by fastforce
  have c': "e = None" "replicas c' = set_entry a m (replicas c)" "quorumReplicas c' = set_entry a m (quorumReplicas c)"
      "backend c' = rp" "quorumReplicaCount c' = quorumReplicaCount c"
    using st l1 sm unfolding setReplicaModeNoLock_def Let_def k_def by auto
  have "rp_ok rp \<and> entries rp = upd_mode a m (entries (backend c))"
  proof (cases "a \<in> fst ` set (entries (backend c))")
    case False
    then have "upd_mode a m (entries (backend c)) = entries (backend c)"
      by (force simp: upd_mode_def intro!: map_idI)
    moreover have "rp = backend c \<or> SetMode (eB E) a m (backend c) w = (rp, w1)" using sm k1 by (cases "k = 0") (auto simp: le_Suc_eq)
    ultimately show ?thesis using ok rp_ok_SetMode put_mode_absent [OF False] by metis
  next
    case True
    then obtain r where r: "r \<in> set (replicas c)" "Address r = a" using en by (auto simp: reps_def)
    have "r \<in> set ?here" using r by simp
    then have h: "?here = [r]" using singleton_list [OF l1] by blast
    have "(a, Mode r) \<in> set (entries (backend c))" using r en by (force simp: reps_def)
    then have u: "upd_mode a m (entries (backend c)) = (if Mode r = ERR then entries (backend c) else put_mode a m (entries (backend c)))"
      using ok by (intro upd_mode_put) (simp_all add: rp_ok_def)
    have "k = (if Mode r = ERR then 0 else 1)" unfolding k_def h by simp
    then show ?thesis using u ok sm rp_ok_SetMode [of "eB E" a m "backend c" w rp w1] by (auto split: if_splits)
  qed
  moreover have "wo_count (upd_mode a m (reps (replicas c))) \<le> 1"
    using inv wo_count_upd_mode [OF m, of a "reps (replicas c)"] by (simp add: ctl_inv_def)
  ultimately show ?thesis using c' d en by (simp add: ctl_inv_def reps_set_entry)
qed

section \<open>Adding\<close>

lemma hasWOReplica_None: "hasWOReplica c = None \<longleftrightarrow> wo_count (reps (replicas c)) = 0"
  by (auto simp: hasWOReplica_def find_None_iff wo_count_def reps_def filter_empty_conv)

text \<open>When \<open>canAdd\<close> agrees, the address is new and no replica is being rebuilt.\<close>

lemma canAdd_inv:
  assumes inv: "ctl_inv c" and st: "canAdd E a c w = (e, c', w')"
  shows "ctl_inv c' \<and> (e = None \<longrightarrow> a \<notin> Address ` set (replicas c' @ quorumReplicas c') \<and> wo_count (reps (replicas c')) = 0 \<and>
    \<not> IsSnapDeletionInProgress c')"
proof (cases "hasReplica a c")
  case True then show ?thesis using assms by (auto simp: canAdd_def)
next
  case new: False
  then have na: "a \<notin> Address ` set (replicas c @ quorumReplicas c)" by (auto simp: hasReplica_def list_ex_iff)
  show ?thesis
  proof (cases "hasWOReplica c")
    case None
    then have "wo_count (reps (replicas c)) = 0" by (simp add: hasWOReplica_None)
    then show ?thesis using assms new None na by (auto simp: canAdd_def Let_def)
  next
    case (Some wo)
    obtain g w1 where g: "hasGreaterRevisionCount E wo a c w = (g, w1)" by fastforce
    obtain e2 c2 w2 where rm: "RemoveReplicaNoLock E wo c w1 = (e2, c2, w2)" by (metis prod_cases3)
    note rmi = RemoveReplicaNoLock_inv [OF inv rm]
    show ?thesis
    proof (cases "g = Inr True \<and> e2 = None")
      case True
      then have c2: "ctl_inv c2" "replicas c2 = filter (\<lambda>r. Address r \<noteq> wo) (replicas c)"
          "quorumReplicas c2 = filter (\<lambda>r. Address r \<noteq> wo) (quorumReplicas c)" using rmi by auto
      obtain r where r: "r \<in> set (replicas c)" "Mode r = WO" "Address r = wo"
        using Some by (auto simp: hasWOReplica_def find_Some_iff) (metis nth_mem)
      let ?ws = "filter (\<lambda>r. Mode r = WO) (replicas c)"
      have "length ?ws \<le> 1" using inv by (simp add: ctl_inv_def wo_count_def reps_def filter_map comp_def)
      moreover have "r \<in> set ?ws" using r by simp
      ultimately have ws: "?ws = [r]" by (rule singleton_list)
      have "x = r" if "x \<in> set (replicas c)" "Mode x = WO" for x
      proof -
        have "x \<in> set ?ws" using that by simp
        then show ?thesis unfolding ws by simp
      qed
      then have "wo_count (reps (replicas c2)) = 0" using c2(2) r(3)
        by (auto simp: wo_count_def reps_def filter_empty_conv)
      moreover have "e = (if IsSnapDeletionInProgress c2 then Some (Err ''snapshot deletion is in progress'') else None)" "c' = c2"
        using st new Some g rm True by (auto simp: canAdd_def Let_def)
      ultimately show ?thesis using c2 na by (auto split: if_splits)
    next
      case False
      then have "e \<noteq> None \<and> (c' = c \<or> c' = c2)"
        using st new Some g rm by (cases g) (auto simp: canAdd_def Let_def split: bool.splits option.splits)
      then show ?thesis using inv rmi by auto
    qed
  qed
qed

lemma addReplicaNoLock_inv:
  assumes inv: "ctl_inv c" and st: "addReplicaNoLock E b a snap c w = (e, c', w')"
  shows "ctl_inv c'"
proof -
  obtain e1 c1 w1 where ca: "canAdd E a c w = (e1, c1, w1)" by (metis prod_cases3)
  note i1 = canAdd_inv [OF inv ca]
  show ?thesis
  proof (cases "e = None")
    case False
    then have "c' = c1" using st ca by (auto simp: addReplicaNoLock_def split: option.splits prod.splits)
    then show ?thesis using i1 by simp
  next
    case True
    then have e1: "e1 = None" and c': "c' = c1\<lparr>replicas := replicas c1 @ [\<lparr>Address = a, Mode = WO\<rparr>], backend := AddBackend a b (backend c1)\<rparr>"
      using st ca by (auto simp: addReplicaNoLock_def split: option.splits prod.splits)
    have n: "a \<notin> Address ` set (replicas c1 @ quorumReplicas c1)" "wo_count (reps (replicas c1)) = 0" "ctl_inv c1"
      using i1 e1 by auto
    have "map_of (backends (backend c1)) a = None"
      using n in_entries [of a "backend c1"] by (auto simp: ctl_inv_def)
    then have "rp_ok (AddBackend a b (backend c1))" "entries (AddBackend a b (backend c1)) = entries (backend c1) @ [(a, WO)]"
      using rp_ok_AddBackend [of "backend c1" a b] n(3) by (auto simp: ctl_inv_def)
    then show ?thesis using n c' by (auto simp: ctl_inv_def reps_def wo_count_def)
  qed
qed

lemma addQuorumReplicaNoLock_inv:
  assumes inv: "ctl_inv c" and st: "addQuorumReplicaNoLock E b a snap c w = (e, c', w')"
  shows "ctl_inv c'"
proof -
  obtain e1 c1 w1 where ca: "canAdd E a c w = (e1, c1, w1)" by (metis prod_cases3)
  note i1 = canAdd_inv [OF inv ca]
  show ?thesis
  proof (cases "e = None")
    case False
    then have "c' = c1" using st ca by (auto simp: addQuorumReplicaNoLock_def split: option.splits prod.splits)
    then show ?thesis using i1 by simp
  next
    case True
    then have e1: "e1 = None" and c': "replicas c' = replicas c1" "backend c' = AddQuorumBackend a b (backend c1)"
        "quorumReplicas c' = quorumReplicas c1 @ [\<lparr>Address = a, Mode = WO\<rparr>]"
      using st ca by (auto simp: addQuorumReplicaNoLock_def split: option.splits prod.splits)
    then show ?thesis using i1 rp_ok_AddQuorumBackend [of "backend c1" a b] by (auto simp: ctl_inv_def)
  qed
qed

section \<open>Errors and the data path\<close>

text \<open>Marking replicas, and removing them.\<close>

definition mark :: "string set \<Rightarrow> replicaEntry list \<Rightarrow> replicaEntry list" where
  "mark A rs = map (\<lambda>r. if Address r \<in> A then r\<lparr>Mode := ERR\<rparr> else r) rs"

lemma set_entry_ERR: "set_entry a ERR rs = mark {a} rs"
  by (auto simp: set_entry_def mark_def)

lemma mark_mark: "mark A (mark B rs) = mark (A \<union> B) rs"
  by (auto simp: mark_def)

lemma filter_mark: "A \<inter> B = {} \<or> A \<subseteq> B \<Longrightarrow> filter (\<lambda>r. Address r \<notin> B) (mark A rs) = (if A \<subseteq> B then filter (\<lambda>r. Address r \<notin> B) rs else mark A (filter (\<lambda>r. Address r \<notin> B) rs))"
  by (induction rs) (auto simp: mark_def)

lemma set_all_err_inv:
  "ctl_inv c \<Longrightarrow> set_all_err E as c w = (e, c', w') \<Longrightarrow>
     e = None \<and> ctl_inv c' \<and> quorumReplicaCount c' = quorumReplicaCount c \<and>
     replicas c' = mark (set as) (replicas c) \<and> quorumReplicas c' = mark (set as) (quorumReplicas c)"
proof (induction as arbitrary: c w)
  case (Cons a as)
  obtain e1 c1 w1 where 1: "setReplicaModeNoLock E a ERR c w = (e1, c1, w1)" by (metis prod_cases3)
  have i1: "e1 = None" "ctl_inv c1" "replicas c1 = mark {a} (replicas c)" "quorumReplicas c1 = mark {a} (quorumReplicas c)"
      "quorumReplicaCount c1 = quorumReplicaCount c"
    using setReplicaModeNoLock_inv [OF Cons.prems(1) _ 1] by (auto simp: set_entry_ERR)
  have "set_all_err E as c1 w1 = (e, c', w')" using Cons.prems(2) 1 i1(1) by simp
  then show ?case using Cons.IH [OF i1(2)] i1 by (simp add: mark_mark)
qed (simp add: mark_def)

lemma handleErrorNoLock_inv:
  assumes inv: "ctl_inv c" and st: "handleErrorNoLock E (Some x) c w = (e, c', w')"
  shows "ctl_inv c' \<and> quorumReplicaCount c' = quorumReplicaCount c \<and>
    replicas c' = mark (set (error_addresses x)) (replicas c) \<and>
    quorumReplicas c' = mark (set (error_addresses x)) (quorumReplicas c) \<and>
    e = (if error_addresses x \<noteq> [] \<and> list_ex (\<lambda>r. Mode r = RW) (replicas c') then None else Some x)"
proof (cases "error_addresses x = []")
  case True then show ?thesis using assms by (auto simp: handleErrorNoLock_def mark_def)
next
  case False
  obtain e1 c1 w1 where 1: "set_all_err E (error_addresses x) c w = (e1, c1, w1)" by (metis prod_cases3)
  then show ?thesis using set_all_err_inv [OF inv 1] st False by (auto simp: handleErrorNoLock_def)
qed

lemma remove_all_inv:
  "ctl_inv c \<Longrightarrow> remove_all E as c w = (e, c', w') \<Longrightarrow>
     ctl_inv c' \<and> (e = None \<longrightarrow> replicas c' = filter (\<lambda>r. Address r \<notin> set as) (replicas c) \<and>
        quorumReplicas c' = filter (\<lambda>r. Address r \<notin> set as) (quorumReplicas c))"
proof (induction as arbitrary: c w)
  case (Cons a as)
  obtain e1 c1 w1 where 1: "RemoveReplicaNoLock E a c w = (e1, c1, w1)" by (metis prod_cases3)
  note i1 = RemoveReplicaNoLock_inv [OF Cons.prems(1) 1]
  show ?case
  proof (cases "e1 = None")
    case True
    then have "remove_all E as c1 w1 = (e, c', w')" using Cons.prems(2) 1 by simp
    then show ?thesis using Cons.IH i1 True by (auto simp: conj_commute intro!: filter_cong)
  next
    case False
    then show ?thesis using Cons.prems 1 i1 by auto
  qed
qed simp

lemma after_error_inv:
  assumes inv: "ctl_inv c" and st: "after_error E x c w = (res, c', w')"
  shows "ctl_inv c' \<and>
    (\<forall>e. res = Inr e \<longrightarrow> replicas c' = filter (\<lambda>r. Address r \<notin> set (error_addresses x)) (replicas c) \<and>
       (e = None \<longleftrightarrow> error_addresses x \<noteq> [] \<and> list_ex (\<lambda>r. Mode r = RW) (replicas c')) \<and> (e \<noteq> None \<longrightarrow> e = Some x))"
proof -
  obtain e1 c1 w1 where 1: "handleErrorNoLock E (Some x) c w = (e1, c1, w1)" by (metis prod_cases3)
  obtain e2 c2 w2 where 2: "remove_all E (error_addresses x) c1 w1 = (e2, c2, w2)" by (metis prod_cases3)
  have h: "ctl_inv c1" "replicas c1 = mark (set (error_addresses x)) (replicas c)"
      "e1 = (if error_addresses x \<noteq> [] \<and> list_ex (\<lambda>r. Mode r = RW) (replicas c1) then None else Some x)"
    using handleErrorNoLock_inv [OF inv 1] by auto
  note r = remove_all_inv [OF h(1) 2]
  have "list_ex (\<lambda>r. Mode r = RW) (replicas c1) = list_ex (\<lambda>r. Mode r = RW) (filter (\<lambda>r. Address r \<notin> set (error_addresses x)) (replicas c))"
    unfolding h(2) by (auto simp: list_ex_iff mark_def)
  moreover have "filter (\<lambda>r. Address r \<notin> set (error_addresses x)) (replicas c1) =
      filter (\<lambda>r. Address r \<notin> set (error_addresses x)) (replicas c)" unfolding h(2) by (simp add: filter_mark)
  ultimately show ?thesis
    using st 1 2 h r by (auto simp: after_error_def split: option.splits error.splits if_splits)
qed

lemma ctl_inv_next: "ctl_inv c \<Longrightarrow> ctl_inv (c\<lparr>backend := (backend c)\<lparr>next_reader := n\<rparr>\<rparr>)"
  by (simp add: ctl_inv_def)

lemma rp_ReadAt_frame: "rp_ReadAt B buf off r w = (res, r', w') \<Longrightarrow> \<exists>n. r' = r\<lparr>next_reader := n\<rparr>"
  by (auto simp: rp_ReadAt_def Let_def split: if_splits prod.splits intro: exI [of _ "next_reader r"])

text \<open>With a frontend nothing on the way can end the process.\<close>

lemma remove_all_None:
  "eFrontend E \<noteq> None \<Longrightarrow> fst (remove_all E as c w) = None"
proof (induction as arbitrary: c w)
  case (Cons a as)
  then show ?case by (auto simp: RemoveReplicaNoLock_def Let_def case_prod_unfold split: option.splits)
qed simp

lemma after_error_Inr:
  assumes inv: "ctl_inv c" and fe: "eFrontend E \<noteq> None" and st: "after_error E (BackendError errs) c w = (res, c', w')"
  shows "\<exists>e. res = Inr e"
proof -
  obtain e1 c1 w1 where 1: "handleErrorNoLock E (Some (BackendError errs)) c w = (e1, c1, w1)" by (metis prod_cases3)
  have "e1 = None \<or> e1 = Some (BackendError errs)" using handleErrorNoLock_inv [OF inv 1] by auto
  moreover obtain c2 w2 where "remove_all E (error_addresses (BackendError errs)) c1 w1 = (None, c2, w2)"
    using remove_all_None [OF fe] by (metis prod.collapse)
  ultimately show ?thesis using st 1 by (auto simp: after_error_def)
qed

section \<open>The backends that stay\<close>

text \<open>Marking and removing some addresses leaves the backends of the others as they were.\<close>

definition distinct_handles :: "'b replicator \<Rightarrow> bool" where
  "distinct_handles r \<longleftrightarrow> distinct (map (bw_backend \<circ> snd) (backends r @ quorumBackends r))"

definition kept :: "string set \<Rightarrow> 'b replicator \<Rightarrow> 'b replicator \<Rightarrow> bool" where
  "kept A r r' \<longleftrightarrow>
     (\<forall>k b. (k, b) \<in> set (backends r') \<longrightarrow> k \<notin> A \<longrightarrow> (k, b) \<in> set (backends r)) \<and>
     (distinct_handles r \<longrightarrow> distinct_handles r')"

lemma kept_refl [simp]: "kept A r r"
  by (simp add: kept_def)

lemma kept_trans: "kept A r r' \<Longrightarrow> kept A' r' r'' \<Longrightarrow> kept (A \<union> A') r r''"
  by (auto simp: kept_def)

lemma distinct_handles_build [simp]: "distinct_handles (buildReadWriters r) = distinct_handles r"
  by (simp add: distinct_handles_def)

lemma distinct_handles_cong:
  "map (bw_backend \<circ> snd) (backends r') = map (bw_backend \<circ> snd) (backends r) \<Longrightarrow> quorumBackends r' = quorumBackends r \<Longrightarrow>
     distinct_handles r' = distinct_handles r"
  unfolding distinct_handles_def map_append by (simp only:)

lemma distinct_handles_filter:
  assumes "distinct_handles r"
  shows "distinct_handles (r\<lparr>backends := filter P (backends r)\<rparr>)"
proof -
  have "set (map (bw_backend \<circ> snd) (filter P (backends r))) \<subseteq> set (map (bw_backend \<circ> snd) (backends r))" by auto
  then show ?thesis using assms unfolding distinct_handles_def map_append distinct_append
    by (auto intro: distinct_map_filter simp del: set_map)
qed

lemma kept_RemoveBackend: "RemoveBackend B a r w = (r', w') \<Longrightarrow> kept {} r r'"
  using distinct_handles_filter by (auto simp: RemoveBackend_def kept_def split: option.splits prod.splits)

lemma kept_SetMode:
  assumes "SetMode B a m r w = (r', w')" "rp_ok r"
  shows "kept {a} r r'"
proof (cases "map_of (backends r) a")
  case None then show ?thesis using assms by (simp add: SetMode_def)
next
  case (Some b)
  let ?bs = "map (\<lambda>(k, x). (k, if k = a then b\<lparr>bw_mode := m\<rparr> else x)) (backends r)"
  have r': "r' = buildReadWriters (r\<lparr>backends := ?bs\<rparr>)" using assms(1) Some by (simp add: SetMode_def Let_def)
  have "x = b" if "(a, x) \<in> set (backends r)" for x
    using that Some assms(2) by (simp add: rp_ok_def map_of_is_SomeI)
  then have "map (bw_backend \<circ> snd) ?bs = map (bw_backend \<circ> snd) (backends r)" by auto
  then have "distinct_handles (r\<lparr>backends := ?bs\<rparr>) = distinct_handles r" by (intro distinct_handles_cong) simp_all
  then show ?thesis using r' by (auto simp: kept_def split: if_splits)
qed

lemma kept_setReplicaModeNoLock:
  assumes inv: "ctl_inv c" and st: "setReplicaModeNoLock E a m c w = (e, c', w')"
  shows "kept {a} (backend c) (backend c')"
proof -
  have "kept {a} r (fst (((\<lambda>(rp, w). SetMode (eB E) a m rp w) ^^ k) (r, w))) \<and>
      rp_ok (fst (((\<lambda>(rp, w). SetMode (eB E) a m rp w) ^^ k) (r, w)))" if "rp_ok r" for k r
  proof (induction k)
    case (Suc k)
    obtain r1 w1 where 1: "((\<lambda>(rp, w). SetMode (eB E) a m rp w) ^^ k) (r, w) = (r1, w1)" by fastforce
    obtain r2 w2 where 2: "SetMode (eB E) a m r1 w1 = (r2, w2)" by fastforce
    show ?case using Suc 1 2 kept_SetMode [OF 2] rp_ok_SetMode [OF 2] kept_trans [of "{a}" r r1 "{a}" r2] by simp
  qed (use that in simp)
  note k = this
  have "\<exists>k. backend c' = fst (((\<lambda>(rp, w). SetMode (eB E) a m rp w) ^^ k) (backend c, w))"
    using st by (auto simp: setReplicaModeNoLock_def Let_def case_prod_unfold)
  then show ?thesis using k [of "backend c"] inv by (auto simp: ctl_inv_def)
qed

lemma kept_set_all_err:
  "ctl_inv c \<Longrightarrow> set_all_err E as c w = (e, c', w') \<Longrightarrow> kept (set as) (backend c) (backend c')"
proof (induction as arbitrary: c w)
  case (Cons a as)
  obtain e1 c1 w1 where 1: "setReplicaModeNoLock E a ERR c w = (e1, c1, w1)" by (metis prod_cases3)
  have i1: "e1 = None" "ctl_inv c1" using setReplicaModeNoLock_inv [OF Cons.prems(1) _ 1] by auto
  have "kept (set as) (backend c1) (backend c')" using Cons.IH [OF i1(2)] Cons.prems(2) 1 i1(1) by simp
  with kept_setReplicaModeNoLock [OF Cons.prems(1) 1] show ?case using kept_trans by fastforce
qed simp

lemma kept_RemoveReplicaNoLock:
  assumes "RemoveReplicaNoLock E a c w = (e, c', w')"
  shows "kept {} (backend c) (backend c')"
proof (cases "eFrontend E = None \<or> \<not> hasReplica a c")
  case True then show ?thesis using assms by (auto simp: RemoveReplicaNoLock_def split: option.splits)
next
  case False
  then obtain fe where fe: "eFrontend E = Some fe" by auto
  obtain c1 w1 where 1: "rm_data_replica E fe a c w = (c1, w1)" by fastforce
  obtain c2 w2 where 2: "rm_quorum_replica E a c1 w1 = (c2, w2)" by fastforce
  obtain c3 w3 where 3: "UpdateCheckpoint E (UpdateVolStatus c2) w2 = (c3, w3)" by fastforce
  have "c' = c3" using assms fe False 1 2 3 by (auto simp: RemoveReplicaNoLock_def)
  moreover have "kept {} (backend c) (backend c1)"
    using 1 kept_RemoveBackend by (fastforce simp: rm_data_replica_def Let_def split: if_splits prod.splits)
  moreover have "kept {} (backend c1) (backend c2)"
    using 2 kept_RemoveBackend by (fastforce simp: rm_quorum_replica_def Let_def split: if_splits prod.splits)
  moreover have "backend c3 = backend c2" using UpdateCheckpoint_frame [OF 3] by (auto simp: UpdateVolStatus_def Let_def)
  ultimately show ?thesis using kept_trans [of "{}" "backend c" "backend c1" "{}" "backend c2"] by simp
qed

lemma kept_remove_all: "remove_all E as c w = (e, c', w') \<Longrightarrow> kept {} (backend c) (backend c')"
proof (induction as arbitrary: c w)
  case (Cons a as)
  obtain e1 c1 w1 where 1: "RemoveReplicaNoLock E a c w = (e1, c1, w1)" by (metis prod_cases3)
  note k1 = kept_RemoveReplicaNoLock [OF 1]
  have "c' = c1 \<or> remove_all E as c1 w1 = (e, c', w')"
    using Cons.prems 1 by (auto split: option.splits error.splits)
  then show ?case using k1 Cons.IH [of c1 w1] kept_trans [OF k1] by fastforce
qed simp

lemma kept_after_error:
  assumes inv: "ctl_inv c" and st: "after_error E x c w = (res, c', w')"
  shows "kept (set (error_addresses x)) (backend c) (backend c')"
proof -
  obtain e1 c1 w1 where 1: "handleErrorNoLock E (Some x) c w = (e1, c1, w1)" by (metis prod_cases3)
  obtain e2 c2 w2 where 2: "remove_all E (error_addresses x) c1 w1 = (e2, c2, w2)" by (metis prod_cases3)
  have k1: "kept (set (error_addresses x)) (backend c) (backend c1)"
    using 1 kept_set_all_err [OF inv] by (fastforce simp: handleErrorNoLock_def split: if_splits prod.splits option.splits)
  have "c' = c1 \<or> c' = c2" using st 1 2 by (auto simp: after_error_def split: option.splits error.splits)
  then show ?thesis using k1 kept_trans [OF k1 kept_remove_all [OF 2]] by auto
qed

end
