(* ===== verification/OneCopy.thy ===== *)
theory OneCopy
  imports ControllerInv DiffDiskWrite
begin

text \<open>
  The controller as one volume.  A replica promises little: a write without error overwrites its bytes, a
  read without error returns them, a failed call may leave its own bytes in any state.  From that and
  from its bookkeeping, the controller keeps all its \<open>RW\<close> replicas equal, and a read it answers returns
  the bytes of the last writes.
\<close>

lemma by_address_set:
  "length errs = length idx \<Longrightarrow> a \<in> fst ` set (by_address idx errs) \<longleftrightarrow> (\<exists>i<length idx. idx ! i = a \<and> errs ! i \<noteq> None)"
proof (induction errs idx rule: list_induct2)
  case (Cons e es a0 as0)
  then show ?case by (cases e) (auto simp: by_address_def map_filter_simps less_Suc_eq_0_disj)
qed (simp add: by_address_def map_filter_simps)

text \<open>A write through the replicator: one call per data replica, one per quorum replica, errors by address.\<close>

lemma rp_WriteAt_calls:
  assumes bt: "built r" "backendsAvailable r" and st: "rp_WriteAt B p off r w = ((n, err), w')"
  obtains res w1 qs where
    "run_all (\<lambda>b. bWriteAt B b p off) (map (bw_backend \<circ> snd) (live (backends r))) w = (res, w1)"
    "run_all (\<lambda>b. bWriteAt B b [] 0) (map (bw_backend \<circ> snd) (live (quorumBackends r))) w1 = (qs, w')"
    "length res = length (live (backends r))"
    "\<forall>e\<in>set res. e = None \<or> err = Some (BackendError (by_address (map fst (live (backends r))) res))"
proof -
  let ?ws = "map (bw_backend \<circ> snd) (live (backends r))" and ?us = "map (bw_backend \<circ> snd) (live (quorumBackends r))"
  let ?m = "\<lparr>writers = ?ws, updaters = ?us\<rparr>"
  obtain res w1 where 1: "run_all (\<lambda>b. bWriteAt B b p off) ?ws w = (res, w1)" by fastforce
  obtain qs w2 where 2: "run_all (\<lambda>b. bWriteAt B b [] 0) ?us w1 = (qs, w2)" by fastforce
  have len: "length res = length (live (backends r))"
    using length_run_all [of "\<lambda>b. bWriteAt B b p off" ?ws w] 1 by simp
  obtain k e w3 where m: "mw_WriteAt B ?m p off w = ((k, e), w3)" by (metis prod.exhaust)
  have w3: "w3 = w2" and e: "err_count res \<noteq> 0 \<Longrightarrow> e = Some (MultiWriterError res [])"
    using m 1 2 by (auto simp: mw_WriteAt_def Let_def split: if_splits)
  have wr: "rwriter r = Some ?m" "writerIndex r = map fst (live (backends r))" using bt(1) unfolding built_def by blast+
  have "w' = w3" and err: "err = map_option (backend_error r) e"
    using st bt(2) m wr(1) by (auto simp: rp_WriteAt_def rp_through_def split: option.splits)
  then have 2: "run_all (\<lambda>b. bWriteAt B b [] 0) ?us w1 = (qs, w')" using 2 w3 by simp
  have "err = Some (BackendError (by_address (map fst (live (backends r))) res))" if "x \<in> set res" "x \<noteq> None" for x
  proof -
    have "err_count res \<noteq> 0" using that unfolding err_count_0 by blast
    then show ?thesis using e err wr(2) by (simp add: backend_error_def)
  qed
  then show ?thesis using that [OF 1 2 len] by blast
qed

section \<open>The contract of a replica\<close>

locale replica_backend =
  fixes B :: "('w, 'b) backend_ops"
    and vol :: "'w \<Rightarrow> 'b \<Rightarrow> int \<Rightarrow> byte"
    and wfw :: "'w \<Rightarrow> bool"
    and sz :: int
  assumes write_vol:
    "\<And>w b p off n w' x. wfw w \<Longrightarrow> 0 \<le> off \<Longrightarrow> off + int (length p) \<le> sz \<Longrightarrow> length p < 2 ^ 32 \<Longrightarrow>
       bWriteAt B b p off w = ((n, None), w') \<Longrightarrow> 0 \<le> x \<Longrightarrow> x < sz \<Longrightarrow>
       vol w' b x = overwrite (vol w b) off p x"
  and write_other:
    "\<And>w b b' p off. b' \<noteq> b \<Longrightarrow> vol (snd (bWriteAt B b p off w)) b' = vol w b'"
  and write_wf: "\<And>w b p off. wfw w \<Longrightarrow> 0 \<le> off \<Longrightarrow> off + int (length p) \<le> sz \<Longrightarrow> length p < 2 ^ 32 \<Longrightarrow> wfw (snd (bWriteAt B b p off w))"
  and read_vol:
    "\<And>w b buf off n buf' w'. wfw w \<Longrightarrow> 0 \<le> off \<Longrightarrow> off + int (length buf) \<le> sz \<Longrightarrow> length buf < 2 ^ 32 \<Longrightarrow>
       bReadAt B b buf off w = (((n, None), buf'), w') \<Longrightarrow>
       n = int (length buf) \<and> buf' = bytes_at (vol w b) off (length buf)"
  and read_len: "\<And>w b buf off ne buf' w'. bReadAt B b buf off w = ((ne, buf'), w') \<Longrightarrow> length buf' = length buf"
  and read_same:
    "\<And>w b buf off b'. wfw w \<Longrightarrow> 0 \<le> off \<Longrightarrow> off + int (length buf) \<le> sz \<Longrightarrow> length buf < 2 ^ 32 \<Longrightarrow>
       wfw (snd (bReadAt B b buf off w)) \<and>
       (\<forall>x. 0 \<le> x \<and> x < sz \<longrightarrow> vol (snd (bReadAt B b buf off w)) b' x = vol w b' x)"
  and sync_same: "\<And>w b. wfw w \<Longrightarrow> wfw (snd (bSync B b w)) \<and> vol (snd (bSync B b w)) = vol w"
  and close_same: "\<And>w b. wfw w \<Longrightarrow> wfw (snd (bClose B b w)) \<and> vol (snd (bClose B b w)) = vol w"
  and stop_same: "\<And>w b. wfw w \<Longrightarrow> wfw (bStopMonitoring B b w) \<and> vol (bStopMonitoring B b w) = vol w"
  and chain_same: "\<And>w b. wfw w \<Longrightarrow> wfw (snd (bGetReplicaChain B b w)) \<and> vol (snd (bGetReplicaChain B b w)) = vol w"
  and checkpoint_same:
    "\<And>w b s. wfw w \<Longrightarrow> wfw (snd (bSetCheckpoint B b s w)) \<and> vol (snd (bSetCheckpoint B b s w)) = vol w"
begin

text \<open>Writing to every replica of a list, each of them once.\<close>

lemma run_all_write:
  assumes "distinct bs" "wfw w" "0 \<le> off" "off + int (length p) \<le> sz" "length p < 2 ^ 32"
    "run_all (\<lambda>b. bWriteAt B b p off) bs w = (errs, w')"
  shows "wfw w' \<and> (\<forall>b. b \<notin> set bs \<longrightarrow> vol w' b = vol w b) \<and>
    (\<forall>i<length bs. errs ! i = None \<longrightarrow> (\<forall>x. 0 \<le> x \<and> x < sz \<longrightarrow> vol w' (bs ! i) x = overwrite (vol w (bs ! i)) off p x))"
  using assms
proof (induction bs arbitrary: w errs w')
  case (Cons b bs)
  obtain n e w1 where 1: "bWriteAt B b p off w = ((n, e), w1)" by (metis prod.exhaust)
  obtain es w2 where 2: "run_all (\<lambda>b. bWriteAt B b p off) bs w1 = (es, w2)" by fastforce
  have r: "errs = e # es" "w' = w2" using Cons.prems(6) 1 2 by simp_all
  have wf1: "wfw w1" using write_wf [OF Cons.prems(2,3,4,5), of b] 1 by simp
  have o1: "vol w1 b' = vol w b'" if "b' \<noteq> b" for b' using write_other [OF that, of p off w] 1 by simp
  have ih: "wfw w2" "\<And>b. b \<notin> set bs \<Longrightarrow> vol w2 b = vol w1 b"
      "\<And>i x. i < length bs \<Longrightarrow> es ! i = None \<Longrightarrow> 0 \<le> x \<Longrightarrow> x < sz \<Longrightarrow> vol w2 (bs ! i) x = overwrite (vol w1 (bs ! i)) off p x"
    using Cons.IH [OF _ wf1 Cons.prems(3,4,5) 2] Cons.prems(1) by auto
  have "vol w2 ((b # bs) ! i) x = overwrite (vol w ((b # bs) ! i)) off p x"
    if "i < length (b # bs)" "errs ! i = None" "0 \<le> x" "x < sz" for i x
  proof (cases i)
    case 0
    then show ?thesis using write_vol [OF Cons.prems(2,3,4,5)] 1 that r ih(2) Cons.prems(1) by simp
  next
    case (Suc j)
    then have "bs ! j \<noteq> b" using that Cons.prems(1) by auto
    then show ?thesis using ih(3) [of j x] that r Suc o1 [of "bs ! j"] by simp
  qed
  then show ?case using ih o1 r by auto
qed simp

lemma read_loop_mem:
  "rp_read_loop B r off k index n buf errs w = ((n', errs', buf'), w') \<Longrightarrow> set errs \<subseteq> set errs'"
proof (induction k arbitrary: index n buf errs w)
  case (Suc k)
  then show ?case by (fastforce split: prod.splits option.splits)
qed simp

text \<open>The loop of a read: some reader's bytes, or every reader has an error.\<close>

lemma read_loop:
  assumes "wfw w" "0 \<le> off" "off + int (length buf) \<le> sz" "length buf < 2 ^ 32" "index < length (readers r)"
    "rp_read_loop B r off k index n buf errs w = ((n', errs', buf'), w')"
  shows "wfw w' \<and> (\<forall>b x. 0 \<le> x \<and> x < sz \<longrightarrow> vol w' b x = vol w b x) \<and>
    ((\<exists>b\<in>set (readers r). n' = int (length buf) \<and> buf' = bytes_at (vol w b) off (length buf)) \<or>
     (\<forall>i<k. readerIndex r ! ((index + i) mod length (readers r)) \<in> fst ` set errs'))"
  using assms
proof (induction k arbitrary: index n buf errs w)
  case (Suc k)
  let ?N = "length (readers r)"
  obtain m e buf1 w1 where 1: "bReadAt B (readers r ! index) buf off w = (((m, e), buf1), w1)" by (metis prod.exhaust)
  have s1: "wfw w1" "\<And>b x. 0 \<le> x \<Longrightarrow> x < sz \<Longrightarrow> vol w1 b x = vol w b x"
    using read_same [OF Suc.prems(1-4), of "readers r ! index"] 1 by auto
  have l1: "length buf1 = length buf" using read_len [OF 1] .
  show ?case
  proof (cases e)
    case None
    then have "n' = int (length buf)" "buf' = bytes_at (vol w (readers r ! index)) off (length buf)" "w' = w1"
      using Suc.prems(6) 1 read_vol [OF Suc.prems(1-4), of "readers r ! index" m buf1 w1] by auto
    then show ?thesis using s1 Suc.prems(5) by auto
  next
    case (Some x)
    have lp: "rp_read_loop B r off k ((index + 1) mod ?N) m buf1 (errs @ [(readerIndex r ! index, x)]) w1 = ((n', errs', buf'), w')"
      using Suc.prems(6) 1 Some by simp
    have ix: "(index + 1) mod ?N < ?N" by (rule mod_less_divisor) (use Suc.prems(5) in linarith)
    from Suc.IH [OF s1(1) Suc.prems(2) _ _ ix lp] l1 Suc.prems(3,4) have ih: "wfw w'" "\<And>b x. 0 \<le> x \<Longrightarrow> x < sz \<Longrightarrow> vol w' b x = vol w1 b x"
      "(\<exists>b\<in>set (readers r). n' = int (length buf) \<and> buf' = bytes_at (vol w1 b) off (length buf)) \<or>
       (\<forall>i<k. readerIndex r ! (((index + 1) mod ?N + i) mod ?N) \<in> fst ` set errs')" by auto
    have "bytes_at (vol w1 b) off (length buf) = bytes_at (vol w b) off (length buf)" for b
      by (rule bytes_at_cong) (use s1(2) Suc.prems(2,3) in auto)
    moreover have "readerIndex r ! index \<in> fst ` set errs'" using read_loop_mem [OF lp] by force
    then have "\<forall>i<Suc k. readerIndex r ! ((index + i) mod ?N) \<in> fst ` set errs'"
      if "\<forall>i<k. readerIndex r ! (((index + 1) mod ?N + i) mod ?N) \<in> fst ` set errs'"
      using that Suc.prems(5) by (auto simp: less_Suc_eq_0_disj mod_simps)
    ultimately show ?thesis using ih s1 by auto
  qed
qed simp

end

section \<open>What the bookkeeping leaves alone\<close>

locale volume_env = replica_backend "eB E" vol wfw sz
  for E :: "('w, 'b) env" and vol :: "'w \<Rightarrow> 'b \<Rightarrow> int \<Rightarrow> byte" and wfw sz +
  assumes shutdown_same:
    "\<And>fe w. eFrontend E = Some fe \<Longrightarrow> wfw w \<Longrightarrow> wfw (snd (feShutdown fe w)) \<and> vol (snd (feShutdown fe w)) = vol w"
begin

definition same :: "'w \<Rightarrow> 'w \<Rightarrow> bool" where
  "same w w' \<longleftrightarrow> (wfw w \<longrightarrow> wfw w' \<and> vol w' = vol w)"

lemma same_refl [simp]: "same w w"
  by (simp add: same_def)

lemma same_trans: "same w w' \<Longrightarrow> same w' w'' \<Longrightarrow> same w w''"
  by (auto simp: same_def)

lemma same_calls:
  "same w (snd (bClose (eB E) b w))" "same w (bStopMonitoring (eB E) b w)"
  "same w (snd (bGetReplicaChain (eB E) b w))" "same w (snd (bSetCheckpoint (eB E) b s w))"
  "eFrontend E = Some fe \<Longrightarrow> same w (snd (feShutdown fe w))"
  using close_same stop_same chain_same checkpoint_same shutdown_same by (auto simp: same_def)

lemma each_backend_same:
  "(\<And>b w. same w (snd (f b w))) \<Longrightarrow> same w (snd (each_backend f bs w))"
proof (induction bs arbitrary: w)
  case (Cons ab bs)
  obtain a b where ab: "ab = (a, b)" by fastforce
  have "same w (snd (f (bw_backend b) w))" using Cons.prems .
  moreover have "same (snd (f (bw_backend b) w)) (snd (each_backend f bs (snd (f (bw_backend b) w))))" using Cons by blast
  ultimately show ?case using same_trans ab by (simp add: case_prod_unfold split: sum.splits)
qed simp

lemma UpdateCheckpoint_same: "same w (snd (UpdateCheckpoint E c w))"
proof -
  have 1: "same w (snd (GetLatestSnapshot (eB E) r w))" for r w
    using each_backend_same [of "bGetReplicaChain (eB E)" w "rw_prefix (backends r)"] same_calls(3)
    by (simp add: GetLatestSnapshot_def case_prod_unfold)
  have 2: "same w (snd (rp_SetCheckpoint (eB E) s r w))" for s r w
    using each_backend_same [of "\<lambda>b w. of_error (bSetCheckpoint (eB E) b s w)" w "rw_prefix (backends r)"] same_calls(4)
    by (simp add: rp_SetCheckpoint_def case_prod_unfold of_error_def)
  obtain x w1 where g: "GetLatestSnapshot (eB E) (backend c) w = (x, w1)" by fastforce
  then have s1: "same w w1" using 1 [of w "backend c"] by simp
  have "same w w2" if "rp_SetCheckpoint (eB E) s (backend c) w1 = (e, w2)" for s e w2
    using same_trans [OF s1 2 [of w1 s "backend c"]] that by simp
  with s1 g show ?thesis by (auto simp: UpdateCheckpoint_def split: prod.splits sum.splits option.splits)
qed

lemma RemoveBackend_same: "same w (snd (RemoveBackend (eB E) a r w))"
  using same_calls(1) by (simp add: RemoveBackend_def case_prod_unfold split: option.splits)

lemma rm_data_replica_same: "eFrontend E = Some fe \<Longrightarrow> same w (snd (rm_data_replica E fe a c w))"
  using same_trans [OF same_calls(5) RemoveBackend_same] RemoveBackend_same
  by (simp add: rm_data_replica_def Let_def case_prod_unfold)

lemma rm_quorum_replica_same: "same w (snd (rm_quorum_replica E a c w))"
  using RemoveBackend_same by (simp add: rm_quorum_replica_def Let_def case_prod_unfold)

lemma RemoveReplicaNoLock_same: "same w (snd (snd (RemoveReplicaNoLock E a c w)))"
proof (cases "eFrontend E")
  case (Some fe)
  then show ?thesis
    using same_trans [OF same_trans [OF rm_data_replica_same [OF Some] rm_quorum_replica_same] UpdateCheckpoint_same]
    by (simp add: RemoveReplicaNoLock_def Let_def case_prod_unfold)
qed (simp add: RemoveReplicaNoLock_def)

lemma SetMode_same: "same w (snd (SetMode (eB E) a m r w))"
  using same_calls(2) by (simp add: SetMode_def Let_def split: option.splits)

lemma setReplicaModeNoLock_same: "same w (snd (snd (setReplicaModeNoLock E a m c w)))"
proof -
  have "same w (snd (((\<lambda>(rp, w). SetMode (eB E) a m rp w) ^^ k) (r, w)))" for k r
    by (induction k) (auto simp: case_prod_unfold intro: same_trans [OF _ SetMode_same])
  then show ?thesis by (simp add: setReplicaModeNoLock_def Let_def case_prod_unfold)
qed

lemma set_all_err_same: "same w (snd (snd (set_all_err E as c w)))"
proof (induction as arbitrary: c w)
  case (Cons a as)
  obtain e c1 w1 where 1: "setReplicaModeNoLock E a ERR c w = (e, c1, w1)" by (metis prod_cases3)
  then have "same w w1" using setReplicaModeNoLock_same [of w a ERR c] by simp
  then show ?case using 1 Cons [of w1 c1] same_trans by (cases e) auto
qed simp

lemma remove_all_same: "same w (snd (snd (remove_all E as c w)))"
proof (induction as arbitrary: c w)
  case (Cons a as)
  obtain e c1 w1 where 1: "RemoveReplicaNoLock E a c w = (e, c1, w1)" by (metis prod_cases3)
  then have s: "same w w1" using RemoveReplicaNoLock_same [of w a c] by simp
  then show ?case using 1 same_trans [OF s Cons [of w1 c1]] by (auto split: option.splits error.splits)
qed simp

lemma after_error_same: "same w (snd (snd (after_error E x c w)))"
proof -
  obtain e c1 w1 where 1: "handleErrorNoLock E (Some x) c w = (e, c1, w1)" by (metis prod_cases3)
  have "same w w1" using 1 set_all_err_same [of w "error_addresses x" c]
    by (auto simp: handleErrorNoLock_def split: if_splits prod.splits option.splits)
  then show ?thesis using 1 same_trans [OF _ remove_all_same [of w1 "error_addresses x" c1]]
    by (auto simp: after_error_def split: prod.splits option.splits error.splits)
qed

section \<open>Writes\<close>

lemma rp_WriteAt_reaches:
  assumes bt: "built r" "backendsAvailable r" and dh: "distinct_handles r" and wf: "wfw w"
    and rng: "0 \<le> off" "off + int (length p) \<le> sz" "length p < 2 ^ 32"
    and st: "rp_WriteAt (eB E) p off r w = ((n, err), w')"
    and ab: "(a, b) \<in> set (backends r)" "bw_mode b \<noteq> ERR" "case err of None \<Rightarrow> True | Some e \<Rightarrow> a \<notin> set (error_addresses e)"
    and x: "0 \<le> x" "x < sz"
  shows "vol w' (bw_backend b) x = overwrite (vol w (bw_backend b)) off p x"
proof -
  let ?ws = "live (backends r)" and ?us = "live (quorumBackends r)"
  let ?hw = "map (bw_backend \<circ> snd) ?ws" and ?hu = "map (bw_backend \<circ> snd) ?us"
  obtain res w1 qs where 1: "run_all (\<lambda>b. bWriteAt (eB E) b p off) ?hw w = (res, w1)"
    and 2: "run_all (\<lambda>b. bWriteAt (eB E) b [] 0) ?hu w1 = (qs, w')"
    and len: "length res = length ?ws"
    and er: "\<forall>e\<in>set res. e = None \<or> err = Some (BackendError (by_address (map fst ?ws) res))"
    using rp_WriteAt_calls [OF bt st] by blast
  have d: "distinct ?hw" "distinct ?hu" "set ?hw \<inter> set ?hu = {}"
    using dh by (auto simp: distinct_handles_def live_def distinct_map_filter)
  note r1 = run_all_write [OF d(1) wf rng 1]
  have "(a, b) \<in> set ?ws" using ab(1,2) by (simp add: live_def)
  then obtain i where i: "i < length ?ws" "?ws ! i = (a, b)" by (meson in_set_conv_nth)
  have hi: "?hw ! i = bw_backend b" "i < length ?hw" using i by simp_all
  have ri: "res ! i = None"
  proof (rule ccontr)
    assume ne: "res ! i \<noteq> None"
    have "res ! i \<in> set res" using i(1) len by (metis nth_mem)
    with er have "res ! i = None \<or> err = Some (BackendError (by_address (map fst ?ws) res))" by (rule bspec)
    then have "err = Some (BackendError (by_address (map fst ?ws) res))" using ne by simp
    moreover have "map fst ?ws ! i = a" "i < length (map fst ?ws)" using i by simp_all
    then have "a \<in> fst ` set (by_address (map fst ?ws) res)"
      using by_address_set [of res "map fst ?ws" a] len ne by (metis length_map)
    ultimately show False using ab(3) by simp
  qed
  have "bw_backend b \<notin> set ?hu" using d(3) nth_mem [OF hi(2)] unfolding hi(1) by blast
  moreover have "0 \<le> sz" using rng by linarith
  ultimately have "vol w' (bw_backend b) = vol w1 (bw_backend b)"
    using run_all_write [OF d(2) conjunct1 [OF r1] _ _ _ 2] by simp
  then show ?thesis using r1 hi ri x by metis
qed

lemma rp_WriteAt_wf:
  assumes bt: "built r" and dh: "distinct_handles r" and wf: "wfw w"
    and rng: "0 \<le> off" "off + int (length p) \<le> sz" "length p < 2 ^ 32"
    and st: "rp_WriteAt (eB E) p off r w = ((n, err), w')"
  shows "wfw w'"
proof (cases "backendsAvailable r")
  case True
  obtain res w1 qs where
    1: "run_all (\<lambda>b. bWriteAt (eB E) b p off) (map (bw_backend \<circ> snd) (live (backends r))) w = (res, w1)" and
    2: "run_all (\<lambda>b. bWriteAt (eB E) b [] 0) (map (bw_backend \<circ> snd) (live (quorumBackends r))) w1 = (qs, w')"
    by (rule rp_WriteAt_calls [OF bt True st])
  have d: "distinct (map (bw_backend \<circ> snd) (live (backends r)))" "distinct (map (bw_backend \<circ> snd) (live (quorumBackends r)))"
    using dh by (auto simp: distinct_handles_def live_def distinct_map_filter)
  have "wfw w1" using run_all_write [OF d(1) wf rng 1] by simp
  then show ?thesis using run_all_write [OF d(2) _ _ _ _ 2] rng by simp
qed (use st wf in \<open>simp add: rp_WriteAt_def rp_through_def\<close>)

text \<open>
  A write that reaches the replicas leaves every replica that is still attached with the write done,
  whatever it answers.
\<close>

lemma c_WriteAt_cases:
  assumes "c_WriteAt E b off c w = ((n, err), c', w')" "\<not> ReadOnly c" "0 \<le> off" "off + int (length b) \<le> csize c" "csize c < 2 ^ 63"
  obtains "rp_WriteAt (eB E) b off (backend c) w = ((n, None), w')" "c' = c" "err = None"
  | m e w1 res where "rp_WriteAt (eB E) b off (backend c) w = ((m, Some e), w1)" "after_error E e c w1 = (res, c', w')"
      "err = None \<longrightarrow> res = Inr None \<and> n = m"
proof -
  have "i64 (off + int (length b)) = off + int (length b)" using assms(3-5) by (intro i64_id) simp_all
  then have rng: "\<not> (off < 0 \<or> i64 (off + int (length b)) > csize c)" using assms(3,4) by simp
  obtain m e w1 where rp: "rp_WriteAt (eB E) b off (backend c) w = ((m, e), w1)" by (metis prod.exhaust)
  show ?thesis
  proof (cases e)
    case None then show ?thesis using that(1) assms(1,2) rng rp by (simp add: c_WriteAt_def)
  next
    case (Some x)
    obtain res c2 w2 where ae: "after_error E x c w1 = (res, c2, w2)" by (metis prod_cases3)
    then have "c' = c2 \<and> w' = w2 \<and> (err = None \<longrightarrow> res = Inr None \<and> n = m)"
      using assms(1,2) rng rp Some by (auto simp: c_WriteAt_def split: sum.splits if_splits)
    then show ?thesis using that(2) rp Some ae by blast
  qed
qed

lemma c_WriteAt_one_copy:
  assumes inv: "ctl_inv c" and dh: "distinct_handles (backend c)" and wf: "wfw w" and ro: "\<not> ReadOnly c"
    and rng: "0 \<le> off" "off + int (length b) \<le> csize c" "csize c = sz" "sz < 2 ^ 63" "length b < 2 ^ 32"
    and av: "backendsAvailable (backend c)" and fe: "eFrontend E \<noteq> None"
    and st: "c_WriteAt E b off c w = ((n, err), c', w')"
  shows "ctl_inv c' \<and> distinct_handles (backend c') \<and> wfw w' \<and>
    (\<forall>a bw x. (a, bw) \<in> set (backends (backend c')) \<longrightarrow> bw_mode bw \<noteq> ERR \<longrightarrow> 0 \<le> x \<longrightarrow> x < sz \<longrightarrow>
       (a, bw) \<in> set (backends (backend c)) \<and> vol w' (bw_backend bw) x = overwrite (vol w (bw_backend bw)) off b x)"
proof -
  have bt: "built (backend c)" using inv av by (auto simp: ctl_inv_def rp_ok_def)
  have rng': "off + int (length b) \<le> sz" using rng by simp
  note reach = rp_WriteAt_reaches [OF bt av dh wf rng(1) rng' rng(5)] and wfp = rp_WriteAt_wf [OF bt dh wf rng(1) rng' rng(5)]
  have sz63: "csize c < 2 ^ 63" using rng by simp
  from st ro rng(1,2) sz63 show ?thesis
  proof (cases rule: c_WriteAt_cases)
    case 1
    then show ?thesis using inv dh wfp [OF 1(1)] reach [OF 1(1)] by auto
  next
    case (2 m e w1 res)
    have s: "wfw w'" "vol w' = vol w1" using after_error_same [of w1 e c] 2(2) wfp [OF 2(1)] by (auto simp: same_def)
    have k: "kept (set (error_addresses e)) (backend c) (backend c')" by (rule kept_after_error [OF inv 2(2)])
    have ci: "ctl_inv c'" using after_error_inv [OF inv 2(2)] by blast
    obtain errs where "e = BackendError errs"
      using 2(1) bt av by (auto simp: rp_WriteAt_def rp_through_def built_def backend_error_def split: prod.splits option.splits error.splits)
    then have "\<exists>x. res = Inr x" using after_error_Inr [OF inv fe] 2(2) by blast
    then have rp: "replicas c' = filter (\<lambda>r. Address r \<notin> set (error_addresses e)) (replicas c)"
      using after_error_inv [OF inv 2(2)] by blast
    have na: "a \<notin> set (error_addresses e)" if "(a, bw) \<in> set (backends (backend c'))" for a bw
    proof -
      have "a \<in> Address ` set (replicas c')" unfolding ctl_inv_addresses [OF ci, symmetric] using that by force
      then show ?thesis using rp by auto
    qed
    have "(a, bw) \<in> set (backends (backend c)) \<and> vol w' (bw_backend bw) x = overwrite (vol w (bw_backend bw)) off b x"
      if "(a, bw) \<in> set (backends (backend c'))" "bw_mode bw \<noteq> ERR" "0 \<le> x" "x < sz" for a bw x
    proof -
      have "(a, bw) \<in> set (backends (backend c))" using k na [OF that(1)] that(1) by (simp add: kept_def)
      then show ?thesis using reach [OF 2(1) _ that(2) _ that(3,4)] na [OF that(1)] by (simp add: s(2))
    qed
    then show ?thesis using ci s(1) k dh by (simp add: kept_def)
  qed
qed

end

end
