(* ===== verification/OneCopyTrace.thy ===== *)
theory OneCopyTrace
  imports OneCopy
begin

text \<open>
  Requests to the controller in any order, while replicas fail and are dropped: the volume behaves as one
  array of bytes.
\<close>

section \<open>Requests and what a client may expect\<close>

datatype creq =
    CRead nat int
  | CWrite "byte list" int
  | CSync
  | CRemove string
  | CMonitor string "error option"

datatype cout =
    CGotRead int "error option" "byte list"
  | CGotWrite int "error option"
  | CGotSync int "error option"
  | CDone "error option"

fun ctl_io :: "('w, 'b) env \<Rightarrow> creq \<Rightarrow> 'b controller \<times> 'w \<Rightarrow> cout \<times> 'b controller \<times> 'w" where
  "ctl_io E (CRead n off) (c, w) =
     (case c_ReadAt E (replicate n 0) off c w of (((k, err), buf), s) \<Rightarrow> (CGotRead k err buf, s))"
| "ctl_io E (CWrite bs off) (c, w) = (case c_WriteAt E bs off c w of ((k, err), s) \<Rightarrow> (CGotWrite k err, s))"
| "ctl_io E CSync (c, w) = (case c_Sync E c w of ((k, err), s) \<Rightarrow> (CGotSync k err, s))"
| "ctl_io E (CRemove a) (c, w) = (case RemoveReplicaNoLock E a c w of (err, s) \<Rightarrow> (CDone err, s))"
| "ctl_io E (CMonitor a x) (c, w) = (case monitoring E a x c w of (err, s) \<Rightarrow> (CDone err, s))"

fun ctl_run :: "('w, 'b) env \<Rightarrow> creq list \<Rightarrow> 'b controller \<times> 'w \<Rightarrow> cout list \<times> 'b controller \<times> 'w" where
  "ctl_run E [] s = ([], s)"
| "ctl_run E (r # rs) s =
     (case ctl_io E r s of (out, s') \<Rightarrow> case ctl_run E rs s' of (outs, s'') \<Rightarrow> (out # outs, s''))"

text \<open>
  A read without an error has the bytes of the array; a write without an error has changed the array; a
  write with an error has changed it as a whole or not at all.
\<close>

fun one_array :: "creq list \<Rightarrow> cout list \<Rightarrow> (int \<Rightarrow> byte) \<Rightarrow> bool" where
  "one_array [] [] V \<longleftrightarrow> True"
| "one_array (CRead n off # rs) (CGotRead k err buf # os) V \<longleftrightarrow>
     (err = None \<longrightarrow> k = int n \<and> buf = bytes_at V off n) \<and> one_array rs os V"
| "one_array (CWrite bs off # rs) (CGotWrite k err # os) V \<longleftrightarrow>
     one_array rs os (overwrite V off bs) \<or> err \<noteq> None \<and> one_array rs os V"
| "one_array (CSync # rs) (CGotSync k err # os) V \<longleftrightarrow> one_array rs os V"
| "one_array (CRemove a # rs) (CDone err # os) V \<longleftrightarrow> one_array rs os V"
| "one_array (CMonitor a x # rs) (CDone err # os) V \<longleftrightarrow> one_array rs os V"
| "one_array _ _ V \<longleftrightarrow> False"

text \<open>Requests whose end is an \<open>int64\<close> and whose length fits the length field of a message.\<close>

fun creq_ok :: "creq \<Rightarrow> bool" where
  "creq_ok (CRead n off) \<longleftrightarrow> 0 \<le> off \<and> off + int n < 2 ^ 63 \<and> n < 2 ^ 32"
| "creq_ok (CWrite bs off) \<longleftrightarrow> 0 \<le> off \<and> off + int (length bs) < 2 ^ 63 \<and> length bs < 2 ^ 32"
| "creq_ok _ \<longleftrightarrow> True"

section \<open>The size of the volume\<close>

lemma setReplicaModeNoLock_csize: "setReplicaModeNoLock E a m c w = (e, c', w') \<Longrightarrow> csize c' = csize c"
  by (auto simp: setReplicaModeNoLock_def Let_def split: prod.splits)

lemma UpdateCheckpoint_csize: "csize (fst (UpdateCheckpoint E c w)) = csize c"
proof -
  obtain c' w' where "UpdateCheckpoint E c w = (c', w')" by fastforce
  then show ?thesis using UpdateCheckpoint_frame by fastforce
qed

lemma rm_csize:
  "rm_data_replica E fe a c w = (c', w') \<Longrightarrow> csize c' = csize c"
  "rm_quorum_replica E a c w = (c', w') \<Longrightarrow> csize c' = csize c"
  by (auto simp: rm_data_replica_def rm_quorum_replica_def Let_def split: if_splits prod.splits)

lemma RemoveReplicaNoLock_csize:
  assumes st: "RemoveReplicaNoLock E a c w = (e, c', w')"
  shows "csize c' = csize c"
proof (cases "eFrontend E = None \<or> \<not> hasReplica a c")
  case True then show ?thesis using st by (auto simp: RemoveReplicaNoLock_def split: option.splits)
next
  case False
  then obtain fe where fe: "eFrontend E = Some fe" by auto
  obtain c1 w1 where 1: "rm_data_replica E fe a c w = (c1, w1)" by fastforce
  obtain c2 w2 where 2: "rm_quorum_replica E a c1 w1 = (c2, w2)" by fastforce
  have "c' = fst (UpdateCheckpoint E (UpdateVolStatus c2) w2)"
    using st fe False 1 2 by (auto simp: RemoveReplicaNoLock_def split: prod.splits)
  then show ?thesis using rm_csize(1) [OF 1] rm_csize(2) [OF 2] by (simp add: UpdateCheckpoint_csize UpdateVolStatus_def Let_def)
qed

lemma set_all_err_csize: "set_all_err E as c w = (e, c', w') \<Longrightarrow> csize c' = csize c"
proof (induction as arbitrary: c w)
  case (Cons a as)
  then show ?case by (auto split: prod.splits option.splits dest!: setReplicaModeNoLock_csize)
qed simp

lemma remove_all_csize: "remove_all E as c w = (e, c', w') \<Longrightarrow> csize c' = csize c"
proof (induction as arbitrary: c w)
  case (Cons a as)
  obtain e1 c1 w1 where 1: "RemoveReplicaNoLock E a c w = (e1, c1, w1)" by (metis prod_cases3)
  have "csize c1 = csize c" by (rule RemoveReplicaNoLock_csize [OF 1])
  moreover have "c' = c1 \<or> remove_all E as c1 w1 = (e, c', w')"
    using Cons.prems 1 by (auto split: option.splits error.splits)
  ultimately show ?case using Cons.IH [of c1 w1] by auto
qed simp

lemma after_error_csize:
  assumes "after_error E x c w = (res, c', w')"
  shows "csize c' = csize c"
proof -
  obtain e1 c1 w1 where 1: "handleErrorNoLock E (Some x) c w = (e1, c1, w1)" by (metis prod_cases3)
  obtain e2 c2 w2 where 2: "remove_all E (error_addresses x) c1 w1 = (e2, c2, w2)" by (metis prod_cases3)
  obtain e0 c0 w0 where 0: "set_all_err E (error_addresses x) c w = (e0, c0, w0)" by (metis prod_cases3)
  have "c1 = c \<or> c1 = c0" using 1 0 by (auto simp: handleErrorNoLock_def split: if_splits option.splits)
  then have "csize c1 = csize c" using set_all_err_csize [OF 0] by auto
  moreover have "c' = c1 \<or> c' = c2" using assms 1 2 by (cases e1) (auto simp: after_error_def split: option.splits error.splits)
  ultimately show ?thesis using remove_all_csize [OF 2] by auto
qed

section \<open>One copy\<close>

text \<open>Every replica in mode \<open>RW\<close> has the bytes of the array.\<close>

definition holds_copy :: "('w \<Rightarrow> 'b \<Rightarrow> int \<Rightarrow> byte) \<Rightarrow> int \<Rightarrow> 'b controller \<Rightarrow> 'w \<Rightarrow> (int \<Rightarrow> byte) \<Rightarrow> bool" where
  "holds_copy vol sz c w V \<longleftrightarrow>
     (\<forall>a bw. (a, bw) \<in> set (backends (backend c)) \<longrightarrow> bw_mode bw = RW \<longrightarrow>
        (\<forall>x. 0 \<le> x \<and> x < sz \<longrightarrow> vol w (bw_backend bw) x = V x))"

lemma holds_copy_kept:
  assumes "holds_copy vol sz c w V" "kept A (backend c) (backend c')"
    "\<And>b x. 0 \<le> x \<Longrightarrow> x < sz \<Longrightarrow> vol w' b x = vol w b x"
    "\<And>a bw. (a, bw) \<in> set (backends (backend c')) \<Longrightarrow> bw_mode bw = RW \<Longrightarrow> a \<notin> A"
  shows "holds_copy vol sz c' w' V"
proof -
  have "vol w' (bw_backend bw) x = V x"
    if "(a, bw) \<in> set (backends (backend c'))" "bw_mode bw = RW" "0 \<le> x" "x < sz" for a bw x
  proof -
    have "(a, bw) \<in> set (backends (backend c))" using assms(2) assms(4) [OF that(1,2)] that(1) by (simp add: kept_def)
    then show ?thesis using assms(1) that(2,3,4) assms(3) [OF that(3,4)] by (simp add: holds_copy_def)
  qed
  then show ?thesis by (simp add: holds_copy_def)
qed

lemma mode_of_backend:
  assumes "ctl_inv c" "(a, bw) \<in> set (backends (backend c))"
  shows "\<exists>r\<in>set (replicas c). Address r = a \<and> Mode r = bw_mode bw"
proof -
  have "(a, bw_mode bw) \<in> set (entries (backend c))" using assms(2) by (force simp: entries_def)
  then have "(a, bw_mode bw) \<in> set (reps (replicas c))" using assms(1) by (simp add: ctl_inv_def)
  then show ?thesis by (auto simp: reps_def)
qed

lemma backend_of_mode:
  assumes "ctl_inv c" "r \<in> set (replicas c)"
  shows "\<exists>bw. (Address r, bw) \<in> set (backends (backend c)) \<and> bw_mode bw = Mode r"
proof -
  have "(Address r, Mode r) \<in> set (reps (replicas c))" using assms(2) by (auto simp: reps_def)
  then have "(Address r, Mode r) \<in> set (entries (backend c))" using assms(1) by (simp add: ctl_inv_def)
  then show ?thesis by (auto simp: entries_def)
qed

lemma after_error_gone:
  assumes "ctl_inv c" "after_error E x c w = (Inr e, c', w')" "(a, bw) \<in> set (backends (backend c'))"
  shows "a \<notin> set (error_addresses x)"
proof -
  have "ctl_inv c'" "replicas c' = filter (\<lambda>r. Address r \<notin> set (error_addresses x)) (replicas c)"
    using after_error_inv [OF assms(1,2)] by auto
  then show ?thesis using mode_of_backend [OF _ assms(3)] by auto
qed

lemma set_entry_ERR_mode:
  assumes "q \<in> set (set_entry a ERR rs)" "Address q = a"
  shows "Mode q = ERR"
proof -
  obtain r where "q = (if Address r = a \<and> Mode r \<noteq> ERR then r\<lparr>Mode := ERR\<rparr> else r)"
    using assms(1) unfolding set_entry_def set_map by blast
  then show ?thesis using assms(2) by (cases "Address r = a \<and> Mode r \<noteq> ERR") simp_all
qed

context volume_env
begin

definition ctl_rel :: "'b controller \<Rightarrow> 'w \<Rightarrow> (int \<Rightarrow> byte) \<Rightarrow> bool" where
  "ctl_rel c w V \<longleftrightarrow> ctl_inv c \<and> distinct_handles (backend c) \<and> wfw w \<and> csize c = sz \<and> holds_copy vol sz c w V"

lemma ctl_rel_after_error:
  assumes r: "ctl_rel c w V" and fe: "eFrontend E \<noteq> None"
    and st: "after_error E (BackendError es) c w = (res, c', w')"
  shows "ctl_rel c' w' V"
proof -
  have inv: "ctl_inv c" and wf: "wfw w" using r by (auto simp: ctl_rel_def)
  obtain e where e: "res = Inr e" using after_error_Inr [OF inv fe st] by blast
  have k: "kept (set (error_addresses (BackendError es))) (backend c) (backend c')" by (rule kept_after_error [OF inv st])
  have s: "wfw w'" "vol w' = vol w" using after_error_same [of w "BackendError es" c] st wf by (auto simp: same_def)
  have "holds_copy vol sz c' w' V"
  proof (rule holds_copy_kept [OF _ k])
    show "holds_copy vol sz c w V" using r by (simp add: ctl_rel_def)
    show "a \<notin> set (error_addresses (BackendError es))" if "(a, bw) \<in> set (backends (backend c'))" for a bw
      by (rule after_error_gone [OF inv st [unfolded e] that])
  qed (simp add: s)
  then show ?thesis using r s k after_error_inv [OF inv st] after_error_csize [OF st] by (auto simp: ctl_rel_def kept_def)
qed

lemma after_error_no_address:
  assumes st: "after_error E x c w = (res, c', w')" and x: "error_addresses x = []" "\<And>m. x \<noteq> Fatal m"
  shows "c' = c \<and> w' = w \<and> res = Inr (Some x)"
  using st x by (cases x) (auto simp: after_error_def handleErrorNoLock_def)

text \<open>A read: every reader that answers has the bytes of the array, and one has answered when no error is left.\<close>

lemma rp_ReadAt_copy:
  assumes r: "ctl_rel c w V" and rng: "0 \<le> off" "off + int (length b) \<le> sz" "length b < 2 ^ 32"
    and st: "rp_ReadAt (eB E) b off (backend c) w = (((n, err), b'), rp, w')"
  shows "wfw w' \<and> (\<forall>b x. 0 \<le> x \<and> x < sz \<longrightarrow> vol w' b x = vol w b x) \<and>
    (err = Some ErrNoBackend \<or> n = int (length b) \<and> b' = bytes_at V off (length b) \<or>
     (\<exists>es. err = Some (BackendError es) \<and> (\<forall>a bw. (a, bw) \<in> set (backends (backend c)) \<longrightarrow> bw_mode bw = RW \<longrightarrow> a \<in> fst ` set es)))"
proof (cases "backendsAvailable (backend c)")
  case False then show ?thesis using r st by (auto simp: rp_ReadAt_def ctl_rel_def)
next
  case True
  let ?r = "backend c"
  have bt: "built ?r" and wf: "wfw w" using r True by (auto simp: ctl_rel_def ctl_inv_def rp_ok_def)
  have rs: "readers ?r = map (bw_backend \<circ> snd) (readable (backends ?r))" "readerIndex ?r = map fst (readable (backends ?r))"
    "readable (backends ?r) \<noteq> []" using bt True unfolding built_def by auto
  let ?N = "length (readers ?r)" and ?i = "(next_reader ?r + 1) mod length (readers ?r)"
  have N: "0 < ?N" using rs by simp
  obtain m es buf w1 where lp: "rp_read_loop (eB E) ?r off ?N ?i 0 b [] w = ((m, es, buf), w1)" by (metis prod.exhaust)
  have q: "n = m" "err = (if es \<noteq> [] then Some (BackendError es) else None)" "b' = buf" "w' = w1"
    using st True lp by (auto simp: rp_ReadAt_def Let_def)
  have ix: "?i < ?N" by (rule mod_less_divisor [OF N])
  have rl: "wfw w1" "\<And>b x. 0 \<le> x \<Longrightarrow> x < sz \<Longrightarrow> vol w1 b x = vol w b x"
    "(\<exists>h\<in>set (readers ?r). m = int (length b) \<and> buf = bytes_at (vol w h) off (length b)) \<or>
     (\<forall>i<?N. readerIndex ?r ! ((?i + i) mod ?N) \<in> fst ` set es)"
    using read_loop [OF wf rng ix lp] by auto
  from rl(3) have "n = int (length b) \<and> b' = bytes_at V off (length b) \<or>
     (\<exists>es. err = Some (BackendError es) \<and> (\<forall>a bw. (a, bw) \<in> set (backends ?r) \<longrightarrow> bw_mode bw = RW \<longrightarrow> a \<in> fst ` set es))"
  proof
    assume "\<exists>h\<in>set (readers ?r). m = int (length b) \<and> buf = bytes_at (vol w h) off (length b)"
    then obtain h where h: "h \<in> set (readers ?r)" "m = int (length b)" "buf = bytes_at (vol w h) off (length b)" by blast
    then obtain a bw where "(a, bw) \<in> set (backends ?r)" "bw_mode bw = RW" "h = bw_backend bw"
      unfolding rs(1) readable_def by auto
    then have "vol w h x = V x" if "0 \<le> x" "x < sz" for x using r that unfolding ctl_rel_def holds_copy_def by blast
    then have "bytes_at (vol w h) off (length b) = bytes_at V off (length b)" by (intro bytes_at_cong) (use rng in auto)
    then show ?thesis using h q by simp
  next
    assume al: "\<forall>i<?N. readerIndex ?r ! ((?i + i) mod ?N) \<in> fst ` set es"
    have "readerIndex ?r ! j \<in> fst ` set es" if j: "j < ?N" for j
    proof -
      have "(?i + (?N + j - ?i) mod ?N) mod ?N = (?i + (?N + j - ?i)) mod ?N" by (simp add: mod_simps)
      also have "\<dots> = j" using ix j by simp
      finally show ?thesis using al N by (metis mod_less_divisor)
    qed
    moreover have "length (readerIndex ?r) = ?N" using rs by simp
    ultimately have all: "set (readerIndex ?r) \<subseteq> fst ` set es" by (metis in_set_conv_nth subsetI)
    have "a \<in> fst ` set es" if "(a, bw) \<in> set (backends ?r)" "bw_mode bw = RW" for a bw
      using that all unfolding rs(2) readable_def by force
    moreover have "es \<noteq> []" using all rs by (cases "readable (backends ?r)") auto
    ultimately show ?thesis using q by auto
  qed
  then show ?thesis using rl q by auto
qed

lemma ctl_rel_next:
  assumes "ctl_rel c w V" "wfw w'" "\<And>b x. 0 \<le> x \<Longrightarrow> x < sz \<Longrightarrow> vol w' b x = vol w b x"
  shows "ctl_rel (c\<lparr>backend := (backend c)\<lparr>next_reader := k\<rparr>\<rparr>) w' V"
  using assms ctl_inv_next [of c k] by (auto simp: ctl_rel_def holds_copy_def distinct_handles_def)

lemma c_ReadAt_copy:
  assumes r: "ctl_rel c w V" and fe: "eFrontend E \<noteq> None" and rng: "0 \<le> off" "off + int (length b) < 2 ^ 63" "length b < 2 ^ 32"
    and st: "c_ReadAt E b off c w = (((n, err), b'), c', w')"
  shows "ctl_rel c' w' V \<and> (err = None \<longrightarrow> n = int (length b) \<and> b' = bytes_at V off (length b))"
proof -
  obtain m e buf rp w1 where rd: "rp_ReadAt (eB E) b off (backend c) w = (((m, e), buf), rp, w1)" by (metis prod.exhaust)
  obtain k where k: "rp = (backend c)\<lparr>next_reader := k\<rparr>" using rp_ReadAt_frame [OF rd] by blast
  let ?c = "c\<lparr>backend := rp\<rparr>"
  have inv: "ctl_inv c" and cs: "csize c = sz" using r by (auto simp: ctl_rel_def)
  have i64: "i64 (off + int (length b)) = off + int (length b)" by (rule i64_id) (use rng in auto)
  consider "c' = c" "w' = w" "err \<noteq> None"
    | "off + int (length b) \<le> sz" "e = None" "c' = ?c" "w' = w1" "n = m" "b' = buf" "err = None"
    | x res where "off + int (length b) \<le> sz" "e = Some x" "after_error E x ?c w1 = (res, c', w')" "b' = buf"
        "\<And>y. res = Inr y \<Longrightarrow> err = y \<and> n = m" "\<And>p. res = Inl p \<Longrightarrow> err \<noteq> None"
    using st rd i64 cs by (auto simp: c_ReadAt_def split: if_splits list.splits option.splits prod.splits sum.splits)
  then show ?thesis
  proof cases
    case 1 then show ?thesis using r by auto
  next
    case 2
    then show ?thesis using rp_ReadAt_copy [OF r rng(1) 2(1) rng(3) rd] ctl_rel_next [OF r] k by auto
  next
    case (3 x res)
    note cp = rp_ReadAt_copy [OF r rng(1) 3(1) rng(3) rd]
    have r1: "ctl_rel ?c w1 V" using cp ctl_rel_next [OF r, of w1 k] k by simp
    have inv1: "ctl_inv ?c" using r1 by (simp add: ctl_rel_def)
    have "x = ErrNoBackend \<or> (\<exists>es. x = BackendError es)" using rd 3(2) by (auto simp: rp_ReadAt_def Let_def split: if_splits prod.splits)
    then show ?thesis
    proof
      assume x: "x = ErrNoBackend"
      show ?thesis using after_error_no_address [OF 3(3)] x 3(5) r1 by auto
    next
      assume "\<exists>es. x = BackendError es"
      then obtain es where x: "x = BackendError es" ..
      have r2: "ctl_rel c' w' V" by (rule ctl_rel_after_error [OF r1 fe 3(3) [unfolded x]])
      obtain y where y: "res = Inr y" using after_error_Inr [OF inv1 fe 3(3) [unfolded x]] by blast
      have "n = int (length b) \<and> b' = bytes_at V off (length b)" if "y = None"
      proof -
        have "list_ex (\<lambda>r. Mode r = RW) (replicas c')" and c': "replicas c' = filter (\<lambda>r. Address r \<notin> set (error_addresses x)) (replicas c)"
          using after_error_inv [OF inv1 3(3)] y that by auto
        then obtain q where q: "q \<in> set (replicas c)" "Mode q = RW" "Address q \<notin> fst ` set es"
          unfolding list_ex_iff c' by (auto simp: x)
        then obtain bw where "(Address q, bw) \<in> set (backends (backend c))" "bw_mode bw = RW" using backend_of_mode [OF inv] by metis
        then show ?thesis using cp q(3) 3(2,4,5) x y by auto
      qed
      then show ?thesis using r2 3(5) y by auto
    qed
  qed
qed

text \<open>A write: all of the bytes in every replica that stays, or no call at all.\<close>

lemma c_WriteAt_copy:
  assumes r: "ctl_rel c w V" and fe: "eFrontend E \<noteq> None" and rng: "0 \<le> off" "off + int (length b) < 2 ^ 63" "length b < 2 ^ 32" and sz: "sz < 2 ^ 63"
    and st: "c_WriteAt E b off c w = ((n, err), c', w')"
  shows "ctl_rel c' w' (overwrite V off b) \<or> err \<noteq> None \<and> ctl_rel c' w' V"
proof -
  have inv: "ctl_inv c" and cs: "csize c = sz" and dh: "distinct_handles (backend c)" and wf: "wfw w"
    using r by (auto simp: ctl_rel_def)
  have i64: "i64 (off + int (length b)) = off + int (length b)" by (rule i64_id) (use rng in auto)
  show ?thesis
  proof (cases "ReadOnly c \<or> off + int (length b) > sz")
    case True
    have "c' = c" "w' = w" "err \<noteq> None" using st True by (auto simp: c_WriteAt_def cs i64 simp del: not_None_eq split: if_splits)
    then show ?thesis using r by simp
  next
    case False
    then have ro: "\<not> ReadOnly c" and le: "off + int (length b) \<le> csize c" using cs by auto
    show ?thesis
    proof (cases "backendsAvailable (backend c)")
      case av: True
      note oc = c_WriteAt_one_copy [OF inv dh wf ro rng(1) le cs sz rng(3) av fe st]
      have "vol w' (bw_backend bw) x = overwrite V off b x"
        if "(a, bw) \<in> set (backends (backend c'))" "bw_mode bw = RW" "0 \<le> x" "x < sz" for a bw x
      proof -
        have "(a, bw) \<in> set (backends (backend c))" "vol w' (bw_backend bw) x = overwrite (vol w (bw_backend bw)) off b x"
          using oc that by auto
        then show ?thesis using r that unfolding ctl_rel_def holds_copy_def overwrite_def by metis
      qed
      moreover have "csize c' = sz"
        using st cs by (auto simp: c_WriteAt_def split: if_splits prod.splits option.splits sum.splits dest!: after_error_csize)
      ultimately show ?thesis using oc by (auto simp: ctl_rel_def holds_copy_def)
    next
      case False
      have rp: "rp_WriteAt (eB E) b off (backend c) w = ((-1, Some ErrNoBackend), w) \<or> rp_WriteAt (eB E) b off (backend c) w = ((0, Some ErrNoBackend), w)"
        using False by (auto simp: rp_WriteAt_def rp_through_def)
      obtain res c2 w2 where ae: "after_error E ErrNoBackend c w = (res, c2, w2)" by (metis prod_cases3)
      then have "c2 = c \<and> w2 = w \<and> res = Inr (Some ErrNoBackend)" using after_error_no_address by fastforce
      then show ?thesis using rp ae st ro le cs i64 r by (auto simp: c_WriteAt_def split: if_splits)
    qed
  qed
qed

lemma run_all_same: "(\<And>b w. same w (snd (f b w))) \<Longrightarrow> same w (snd (run_all f bs w))"
proof (induction bs arbitrary: w)
  case (Cons b bs)
  then show ?case using same_trans [OF Cons.prems Cons.IH] by (simp add: case_prod_unfold)
qed simp

lemma ctl_rel_same: "ctl_rel c w V \<Longrightarrow> same w w' \<Longrightarrow> ctl_rel c w' V"
  by (auto simp: ctl_rel_def same_def holds_copy_def)

lemma c_Sync_copy:
  assumes r: "ctl_rel c w V" and fe: "eFrontend E \<noteq> None" and st: "c_Sync E c w = (res, c', w')"
  shows "ctl_rel c' w' V"
proof -
  have s: "same w (snd (bSync (eB E) b w))" for b w using sync_same by (simp add: same_def)
  obtain n e w1 where rs: "rp_Sync (eB E) (backend c) w = ((n, e), w1)" by (metis prod.exhaust)
  have "rwriter (backend c) \<noteq> None" if "backendsAvailable (backend c)"
    using r that by (auto simp: ctl_rel_def ctl_inv_def rp_ok_def built_def)
  then have w1: "same w w1" and e: "\<And>x. e = Some x \<Longrightarrow> x = ErrNoBackend \<or> (\<exists>es. x = BackendError es)"
    using rs run_all_same [OF s]
    by (auto simp: rp_Sync_def rp_through_def mw_Sync_def mw_all_def backend_error_def case_prod_unfold Let_def
        split: if_splits option.splits prod.splits)
  have r1: "ctl_rel c w1 V" by (rule ctl_rel_same [OF r w1])
  have "(c' = c \<and> (w' = w \<or> w' = w1)) \<or> (\<exists>x res. e = Some x \<and> after_error E x c w1 = (res, c', w'))"
    using st rs by (auto simp: c_Sync_def c_through_def split: if_splits option.splits prod.splits sum.splits)
  then show ?thesis
  proof
    assume "\<exists>x res. e = Some x \<and> after_error E x c w1 = (res, c', w')"
    then obtain x res where x: "e = Some x" "after_error E x c w1 = (res, c', w')" by blast
    from e [OF x(1)] show ?thesis
    proof
      assume "x = ErrNoBackend" then show ?thesis using after_error_no_address [OF x(2)] r1 by auto
    next
      assume "\<exists>es. x = BackendError es" then show ?thesis using ctl_rel_after_error [OF r1 fe] x(2) by blast
    qed
  qed (use r r1 in auto)
qed

lemma RemoveReplica_copy:
  assumes r: "ctl_rel c w V" and st: "RemoveReplicaNoLock E a c w = (e, c', w')"
  shows "ctl_rel c' w' V"
proof -
  have s: "wfw w'" "vol w' = vol w" using RemoveReplicaNoLock_same [of w a c] st r by (auto simp: same_def ctl_rel_def)
  have k: "kept {} (backend c) (backend c')" by (rule kept_RemoveReplicaNoLock [OF st])
  have "holds_copy vol sz c' w' V" by (rule holds_copy_kept [OF _ k]) (use r s in \<open>auto simp: ctl_rel_def\<close>)
  then show ?thesis
    using r s k RemoveReplicaNoLock_inv [of c E a w e c' w'] st RemoveReplicaNoLock_csize [OF st] by (auto simp: ctl_rel_def kept_def)
qed

lemma setERR_copy:
  assumes r: "ctl_rel c w V" and st: "setReplicaModeNoLock E a ERR c w = (e, c', w')"
  shows "ctl_rel c' w' V"
proof -
  have inv: "ctl_inv c" using r by (simp add: ctl_rel_def)
  have s: "wfw w'" "vol w' = vol w" using setReplicaModeNoLock_same [of w a ERR c] st r by (auto simp: same_def ctl_rel_def)
  have k: "kept {a} (backend c) (backend c')" by (rule kept_setReplicaModeNoLock [OF inv st])
  have c': "ctl_inv c'" "replicas c' = set_entry a ERR (replicas c)" using setReplicaModeNoLock_inv [OF inv _ st] by auto
  have "holds_copy vol sz c' w' V"
  proof (rule holds_copy_kept [OF _ k])
    show "holds_copy vol sz c w V" using r by (simp add: ctl_rel_def)
    show "b \<notin> {a}" if "(b, bw) \<in> set (backends (backend c'))" "bw_mode bw = RW" for b bw
    proof -
      note m = mode_of_backend [OF c'(1) that(1)] and rw = that(2)
      obtain q where "q \<in> set (set_entry a ERR (replicas c))" "Address q = b" "Mode q = bw_mode bw"
        using m unfolding c'(2) by blast
      then show ?thesis using set_entry_ERR_mode [of q a "replicas c"] rw by auto
    qed
  qed (simp add: s)
  moreover have "distinct_handles (backend c')" "csize c' = sz"
    using r k setReplicaModeNoLock_csize [OF st] by (simp_all add: ctl_rel_def kept_def)
  ultimately show ?thesis using s(1) c'(1) by (simp add: ctl_rel_def)
qed

lemma monitoring_copy:
  assumes r: "ctl_rel c w V" and st: "monitoring E a x c w = (e, c', w')"
  shows "ctl_rel c' w' V"
proof -
  obtain e1 c1 w1 where 1: "(if x \<noteq> None then setReplicaModeNoLock E a ERR c w else (None, c, w)) = (e1, c1, w1)"
    by (metis prod_cases3)
  have r1: "ctl_rel c1 w1 V" using 1 setERR_copy [OF r] r by (auto split: if_splits)
  have "(c' = c1 \<and> w' = w1) \<or> RemoveReplicaNoLock E a c1 w1 = (e, c', w')"
    using st 1 by (auto simp: monitoring_def split: option.splits)
  then show ?thesis using RemoveReplica_copy [OF r1] r1 by auto
qed

lemma ctl_io_copy:
  assumes r: "ctl_rel c w V" and fe: "eFrontend E \<noteq> None" and sz: "sz < 2 ^ 63" and q: "creq_ok q"
    and st: "ctl_io E q (c, w) = (out, c', w')"
  shows "\<exists>V'. ctl_rel c' w' V' \<and> (\<forall>rs os. one_array rs os V' \<longrightarrow> one_array (q # rs) (out # os) V)"
proof (cases q)
  case (CRead n off)
  then show ?thesis using st q c_ReadAt_copy [OF r fe, of off "replicate n 0"]
    by (intro exI [of _ V]) (auto split: prod.splits)
next
  case (CWrite bs off)
  obtain n err where w: "c_WriteAt E bs off c w = ((n, err), c', w')" and o: "out = CGotWrite n err"
    using st CWrite by (auto split: prod.splits)
  from q CWrite have "0 \<le> off" "off + int (length bs) < 2 ^ 63" "length bs < 2 ^ 32" by auto
  from c_WriteAt_copy [OF r fe this sz w] show ?thesis unfolding o CWrite by (elim disjE) auto
next
  case CSync
  then show ?thesis using st c_Sync_copy [OF r fe] by (intro exI [of _ V]) (auto split: prod.splits)
next
  case (CRemove a)
  then show ?thesis using st RemoveReplica_copy [OF r] by (intro exI [of _ V]) (auto split: prod.splits)
next
  case (CMonitor a x)
  then show ?thesis using st monitoring_copy [OF r] by (intro exI [of _ V]) (auto split: prod.splits)
qed

lemma ctl_run_copy:
  "ctl_rel c w V \<Longrightarrow> eFrontend E \<noteq> None \<Longrightarrow> sz < 2 ^ 63 \<Longrightarrow> \<forall>q\<in>set rs. creq_ok q \<Longrightarrow>
   ctl_run E rs (c, w) = (os, c', w') \<Longrightarrow> one_array rs os V"
proof (induction rs arbitrary: c w V os)
  case (Cons q rs)
  obtain out c1 w1 where 1: "ctl_io E q (c, w) = (out, c1, w1)" by (metis prod_cases3)
  obtain os2 s2 where 2: "ctl_run E rs (c1, w1) = (os2, s2)" by (metis prod.exhaust)
  have o: "os = out # os2" "s2 = (c', w')" using Cons.prems(5) 1 2 by auto
  from Cons.prems(4) have q: "creq_ok q" "\<forall>q\<in>set rs. creq_ok q" by auto
  obtain V' where V': "ctl_rel c1 w1 V'" "\<forall>rs os. one_array rs os V' \<longrightarrow> one_array (q # rs) (out # os) V"
    using ctl_io_copy [OF Cons.prems(1-3) q(1) 1] by blast
  have "one_array rs os2 V'" by (rule Cons.IH [OF V'(1) Cons.prems(2,3) q(2)]) (use 2 o in simp)
  then show ?case using V'(2) o by blast
qed simp

end

end
