(* ===== verification/Cluster.thy ===== *)
theory Cluster
  imports Remote ReplicaFrame OneCopyTrace
begin

text \<open>
  The controller over its real backends: remote replicas, reached by HTTP for control and by RPC for data,
  each of them a server with a diff disk in a directory.  A cluster satisfies the contract that the
  controller's proof relies on, whatever the network does to messages and whenever a host dies, so the
  whole system behaves as one array.
\<close>

section \<open>One host\<close>

definition vol_inodes :: "replica \<Rightarrow> nat set" where
  "vol_inodes r = {i. Some i \<in> set (files (rVolume r))}"

text \<open>A host is in order when its replica is closed, or open with a usable volume of the size \<open>sz\<close>.\<close>

definition nd_ok :: "int \<Rightarrow> server \<Rightarrow> fs \<Rightarrow> bool" where
  "nd_ok sz s w \<longleftrightarrow>
     (case sR s of
        None \<Rightarrow> True
      | Some r \<Rightarrow> rep_ok fs_avail r w \<and> vol_size (rVolume r) = sz \<and> fs_clean (vol_inodes r) (the (revisionFile r)) w)"

definition nd_byte :: "int \<Rightarrow> server \<Rightarrow> fs \<Rightarrow> int \<Rightarrow> byte" where
  "nd_byte sz s w x =
     (if 0 \<le> x \<and> x < sz then (case sR s of None \<Rightarrow> 0 | Some r \<Rightarrow> rep_byte fs_content fs_alloc r w x) else 0)"

lemma fs_clean_write: "fs_clean D rf (snd (fWriteAt fs_ops f bs off w)) = fs_clean D rf w"
  by (rule fs_clean_cong) (simp_all add: fs_ops_def sp_ops_def)

text \<open>What an operation that leaves the volume alone keeps.\<close>

lemma rep_ok_keeps:
  assumes ok: "rep_ok fs_avail r w" and s: "same_data r r'" and k: "keeps (vol_inodes r) (the (revisionFile r)) w w'"
    and c: "fs_clean (vol_inodes r) (the (revisionFile r)) w"
  shows "rep_ok fs_avail r' w' \<and> fs_clean (vol_inodes r') (the (revisionFile r')) w' \<and>
    (\<forall>x. 0 \<le> x \<and> x < vol_size (rVolume r) \<longrightarrow> rep_byte fs_content fs_alloc r' w' x = rep_byte fs_content fs_alloc r w x)"
proof -
  have d: "ino_data w' i = ino_data w i" if "Some i \<in> set (files (rVolume r))" for i
    using k c that by (auto simp: keeps_def vol_inodes_def)
  have l: "slen (ino_data w (the (revisionFile r))) \<le> slen (ino_data w' (the (revisionFile r)))"
    and c': "fs_clean (vol_inodes r) (the (revisionFile r)) w'" using k c by (auto simp: keeps_def)
  obtain f where f: "revisionFile r = Some f" "Some f \<notin> set (files (rVolume r))" "fs_avail w f 4096"
    and wf: "wf_disk (fs_avail w) (rVolume r)" and sf: "all_safe (rVolume r, w, rChan r)" and ro: "\<not> readOnly r" "rReplicaType r \<noteq> ''quorum''"
    using ok by (auto simp: rep_ok_def)
  have "Some (the (files (rVolume r) ! i)) \<in> set (files (rVolume r))" if "1 \<le> i" "i < length (files (rVolume r))" for i
    using wf_disk_file [OF wf that] nth_mem [OF that(2)] by force
  then have "wf_disk (fs_avail w') (rVolume r)" using wf d by (auto simp: wf_disk_def fs_avail_def sp_avail_def)
  moreover have "fs_avail w' f 4096" using f l by (simp add: fs_avail_def sp_avail_def)
  ultimately have "rep_ok fs_avail r' w'" using s f sf ro by (auto simp: rep_ok_def same_data_def all_safe_def)
  moreover have "rep_byte fs_content fs_alloc r' w' x = rep_byte fs_content fs_alloc r w x" if "0 \<le> x" "x < vol_size (rVolume r)" for x
    using vol_byte_other [OF wf that, of "fs_content w'" "fs_content w" "fs_alloc w'" "fs_alloc w"] d s
    by (simp add: rep_byte_def same_data_def fs_content_def fs_alloc_def sp_content_def sp_alloc_def)
  ultimately show ?thesis using c' s by (simp add: same_data_def vol_inodes_def)
qed

lemma nd_tame:
  assumes ok: "nd_ok sz s w" and t: "\<And>D rf. tameS D rf m" and st: "m (s, w) = (x, s', w')"
  shows "nd_ok sz s' w' \<and> nd_byte sz s' w' = nd_byte sz s w"
proof (cases "sR s")
  case None
  then have "sR s' = None" using tameSD [OF t st, of "{}" 0] by (simp add: same_open_def split: option.splits)
  then show ?thesis using None by (simp add: nd_ok_def nd_byte_def fun_eq_iff)
next
  case (Some r)
  let ?D = "vol_inodes r" and ?f = "the (revisionFile r)"
  obtain r' where r': "sR s' = Some r'" "same_data r r'" "keeps ?D ?f w w'"
    using tameSD [OF t st, of ?D ?f] Some by (auto simp: same_open_def split: option.splits)
  have "rep_ok fs_avail r w" "vol_size (rVolume r) = sz" "fs_clean ?D ?f w" using ok Some by (auto simp: nd_ok_def)
  with rep_ok_keeps [OF this(1) r'(2,3) this(3)] r' Some show ?thesis
    by (auto simp: nd_ok_def nd_byte_def fun_eq_iff same_data_def)
qed

text \<open>A write at the server.\<close>

lemma nd_write:
  assumes ok: "nd_ok sz s w" and rng: "0 \<le> off" "off + int (length p) \<le> sz" and E: "reF (seR E) = fs_ops"
    and st: "s_WriteAt E p off (s, w) = ((c, err), s', w')"
  shows "nd_ok sz s' w' \<and>
    (err = None \<longrightarrow> (\<forall>x. 0 \<le> x \<and> x < sz \<longrightarrow> nd_byte sz s' w' x = overwrite (nd_byte sz s w) off p x)) \<and>
    (\<forall>e. err = Some e \<longrightarrow> (\<exists>m. e = Err m \<and> length m < 100))"
proof (cases "sR s")
  case None then show ?thesis using st ok by (auto simp: s_WriteAt_def with_data_def)
next
  case (Some r)
  let ?P = "fs_clean (vol_inodes r) (the (revisionFile r))"
  have k: "rep_ok fs_avail r w" "vol_size (rVolume r) = sz" "?P w" using ok Some by (auto simp: nd_ok_def)
  obtain e r' w1 where w: "r_WriteAt (renv_of E s) p off (r, w) = ((write_count off (length p), e), r', w1)"
      "rep_ok fs_avail r' w1" "?P w1" "advances (rVolume r) (rVolume r')" "revisionFile r' = revisionFile r"
      "\<forall>x. 0 \<le> x \<and> x < vol_size (rVolume r) \<longrightarrow> rep_byte fs_content fs_alloc r' w1 x = overwrite (rep_byte fs_content fs_alloc r w) off p x"
      "\<forall>x. e = Some x \<longrightarrow> x = Err ''write happening on invalid rep state''"
    using fso.r_WriteAt_any [OF k(1), of off p "renv_of E s" ?P] rng k(2,3) E by (auto simp: renv_of_def fs_clean_write)
  have r: "err = e" "s' = s\<lparr>sR := Some r'\<rparr>" "w' = w1" using st Some w(1) by (auto simp: s_WriteAt_def with_data_def)
  have "vol_size (rVolume r') = sz" "vol_inodes r' = vol_inodes r" using w(4) k(2) by (auto simp: advances_def vol_size_def vol_inodes_def)
  moreover have "overwrite (rep_byte fs_content fs_alloc r w) off p x = overwrite (nd_byte sz s w) off p x" if "0 \<le> x" "x < sz" for x
    using that Some by (simp add: overwrite_def nd_byte_def)
  ultimately show ?thesis using w r k(2) by (auto simp: nd_ok_def nd_byte_def)
qed

lemma nd_read:
  assumes ok: "nd_ok sz s w" and rng: "0 \<le> off" "off + int (length p) \<le> sz" and E: "reF (seR E) = fs_ops"
    and st: "s_ReadAt E p off (s, w) = (((c, err), bs), s', w')"
  shows "nd_ok sz s' w' \<and> nd_byte sz s' w' = nd_byte sz s w \<and> length bs = length p \<and>
    (err = None \<longrightarrow> bs = bytes_at (nd_byte sz s w) off (length p)) \<and> (\<forall>e. err = Some e \<longrightarrow> (\<exists>m. e = Err m \<and> length m < 100))"
proof (cases "sR s")
  case None then show ?thesis using st ok by (auto simp: s_ReadAt_def)
next
  case (Some r)
  let ?P = "fs_clean (vol_inodes r) (the (revisionFile r))"
  have k: "rep_ok fs_avail r w" "vol_size (rVolume r) = sz" "?P w" using ok Some by (auto simp: nd_ok_def)
  obtain r' d where w: "r_ReadAt (renv_of E s) p off (r, w) =
      (((int (length p), None), bytes_at (rep_byte fs_content fs_alloc r w) off (length p)), r', w)"
      "rep_ok fs_avail r' w" "r' = r\<lparr>rVolume := d\<rparr>" "agrees (fs_alloc w) (rVolume r) d"
      "\<forall>x. 0 \<le> x \<and> x < vol_size (rVolume r) \<longrightarrow> rep_byte fs_content fs_alloc r' w x = rep_byte fs_content fs_alloc r w x"
    using fso.r_ReadAt_ok [OF k(1), of off p "renv_of E s"] rng k(2,3) E by (auto simp: renv_of_def)
  have r: "err = None" "s' = s\<lparr>sR := Some r'\<rparr>" "w' = w" "bs = bytes_at (rep_byte fs_content fs_alloc r w) off (length p)"
    using st Some w(1) by (auto simp: s_ReadAt_def)
  have "bs = bytes_at (nd_byte sz s w) off (length p)" unfolding r(4) by (rule bytes_at_cong) (use rng Some in \<open>simp add: nd_byte_def\<close>)
  moreover have "vol_size (rVolume r') = sz" "vol_inodes r' = vol_inodes r"
    using w(3) agrees_frame [OF w(4)] k(2) by (auto simp: vol_size_def vol_inodes_def)
  moreover have "nd_byte sz s' w' = nd_byte sz s w" using w(5) r Some k(2) by (simp add: nd_byte_def fun_eq_iff)
  ultimately show ?thesis using w r k Some by (simp add: nd_ok_def)
qed

lemma nd_sync:
  assumes ok: "nd_ok sz s w" and E: "reF (seR E) = fs_ops" and st: "s_Sync E (s, w) = (x, s', w')"
  shows "nd_ok sz s' w' \<and> nd_byte sz s' w' = nd_byte sz s w"
proof (cases "sR s")
  case None then show ?thesis using st ok by (auto simp: s_Sync_def with_data_def)
next
  case (Some r)
  have "snd (Sync fs_ops (d, w, ch)) = (d, w, ch)" for d ch by (simp add: Sync_def fs_ops_def Let_def split: option.splits)
  then obtain n e where "Sync fs_ops (rVolume r, w, rChan r) = ((n, e), rVolume r, w, rChan r)" by (metis prod.exhaust_sel)
  then have "\<exists>i. s' = s\<lparr>sR := Some (r\<lparr>rInfo := i\<rparr>)\<rparr> \<and> w' = w"
    using st Some E by (auto simp: s_Sync_def with_data_def r_Sync_def renv_of_def split: if_splits intro: exI [of _ "rInfo r"])
  then show ?thesis using ok Some by (auto simp: nd_ok_def nd_byte_def rep_ok_def rep_byte_def vol_inodes_def fun_eq_iff)
qed

section \<open>All hosts\<close>

definition cl_vol :: "int \<Rightarrow> cluster \<Rightarrow> nat \<Rightarrow> int \<Rightarrow> byte" where
  "cl_vol sz w b = nd_byte sz (ndServer (nodes w b)) (ndFs (nodes w b))"

definition cl_ok :: "int \<Rightarrow> cluster \<Rightarrow> bool" where
  "cl_ok sz w \<longleftrightarrow> (\<forall>b. nd_ok sz (ndServer (nodes w b)) (ndFs (nodes w b)))"

lemma cl_same_nodes:
  assumes "\<And>b'. b' \<noteq> b \<Longrightarrow> nodes w' b' = nodes w b'"
    "nd_ok sz (ndServer (nodes w' b)) (ndFs (nodes w' b))"
    "nd_byte sz (ndServer (nodes w' b)) (ndFs (nodes w' b)) = nd_byte sz (ndServer (nodes w b)) (ndFs (nodes w b))" "cl_ok sz w"
  shows "cl_ok sz w' \<and> cl_vol sz w' = cl_vol sz w"
proof -
  have "nd_ok sz (ndServer (nodes w' b')) (ndFs (nodes w' b'))" for b' using assms by (cases "b' = b") (auto simp: cl_ok_def)
  moreover have "cl_vol sz w' b' = cl_vol sz w b'" for b' using assms by (cases "b' = b") (auto simp: cl_vol_def)
  ultimately show ?thesis by (auto simp: cl_ok_def)
qed

lemma cl_nodes_cong: "nodes w' = nodes w \<Longrightarrow> cl_ok sz w' = cl_ok sz w \<and> cl_vol sz w' = cl_vol sz w"
  by (auto simp: cl_ok_def cl_vol_def)

text \<open>A handler that leaves volumes alone leaves them alone over the network too.\<close>

lemma http_do_same:
  assumes ok: "cl_ok sz w" and t: "\<And>D rf. tameS D rf (f (ceS E b))" and st: "http_do E b f w = (x, w')"
  shows "cl_ok sz w' \<and> cl_vol sz w' = cl_vol sz w"
proof -
  obtain y s' g' where y: "f (ceS E b) (ndServer (nodes w b), ndFs (nodes w b)) = (y, s', g')" by (metis prod.exhaust)
  have n: "nd_ok sz (ndServer (nodes w b)) (ndFs (nodes w b))" using ok by (simp add: cl_ok_def)
  note r = nd_tame [where m = "f (ceS E b)", OF n t y]
  have "nodes w' = nodes w \<or> (\<exists>up. nodes w' = (nodes w)(b := \<lparr>ndServer = s', ndFs = g', ndUp = up\<rparr>))"
    using st y by (auto simp: http_do_def next_fate_def put_node_def split: sum.splits if_splits)
  then show ?thesis
  proof
    assume "nodes w' = nodes w" then show ?thesis using ok cl_nodes_cong by metis
  next
    assume "\<exists>up. nodes w' = (nodes w)(b := \<lparr>ndServer = s', ndFs = g', ndUp = up\<rparr>)"
    then obtain up where "nodes w' = (nodes w)(b := \<lparr>ndServer = s', ndFs = g', ndUp = up\<rparr>)" ..
    then show ?thesis using r ok by (intro cl_same_nodes) auto
  qed
qed

text \<open>A request for data: nothing happens at the host, or what \<open>rpc_call\<close> says; a lost response hides the result.\<close>

lemma remote_op_cases:
  assumes "remote_op E b op buf off len w = (((n, err), buf'), w')"
  obtains (none) "nodes w' = nodes w" "err \<noteq> None" "buf' = buf"
  | (served) sq x s' g' up where
      "rpc_call (srv_data (ceS E b)) sq op buf off len (ndServer (nodes w b), ndFs (nodes w b)) = (x, s', g')"
      "nodes w' = (nodes w)(b := \<lparr>ndServer = s', ndFs = g', ndUp = up\<rparr>)"
      "((n, err), buf') = x \<or> err \<noteq> None \<and> buf' = buf"
proof -
  let ?sq = "lkSeq (links w b) + 1" and ?st = "(ndServer (nodes w b), ndFs (nodes w b))"
  obtain y s' g' where y: "rpc_serve (srv_data (ceS E b)) ?sq op buf off len ?st = (y, s', g')" by (metis prod.exhaust)
  have nf: "nodes (fail_link b e w) = nodes w" for e w by (simp add: fail_link_def)
  consider (err) e where "lkErr (links w b) = Some e" | (lost) "lkErr (links w b) = None" "\<not> ndUp (nodes w b) \<or> net w (msgs w) = Lost"
    | (up) "lkErr (links w b) = None" "ndUp (nodes w b)" "net w (msgs w) \<noteq> Lost" by fastforce
  then show thesis
  proof cases
    case (err e)
    then have "(((n, err), buf'), w') = (((0, Some e), buf), w)" using assms by (simp add: remote_op_def)
    then show thesis using none by simp
  next
    case lost
    then have "nodes w' = nodes w \<and> err \<noteq> None \<and> buf' = buf" using assms by (auto simp: remote_op_def next_fate_def Let_def nf)
    then show thesis using none by blast
  next
    case up
    let ?x = "fst (rpc_call (srv_data (ceS E b)) ?sq op buf off len ?st)"
    have c: "rpc_call (srv_data (ceS E b)) ?sq op buf off len ?st = (?x, s', g')"
      using y by (auto simp: rpc_call_def split: sum.splits)
    show thesis
    proof (rule served [OF c])
      show "nodes w' = (nodes w)(b := \<lparr>ndServer = s', ndFs = g', ndUp = (case y of Inl _ \<Rightarrow> False | Inr _ \<Rightarrow> True)\<rparr>)"
        using up assms y by (auto simp: remote_op_def next_fate_def Let_def nf put_node_def split: sum.splits if_splits)
      show "((n, err), buf') = ?x \<or> err \<noteq> None \<and> buf' = buf"
        using up assms y by (auto simp: remote_op_def rpc_call_def next_fate_def Let_def split: sum.splits if_splits)
    qed
  qed
qed

lemma rpc_sync_state: "snd (rpc_call D sq TypeSync [] 0 0 s) = snd (dpSync D s)"
proof -
  let ?q = "(request_of TypeSync [] 0 0)\<lparr>MsgMagicVersion := MagicVersion, Seq := sq\<rparr>"
  have q: "fits ?q" by (simp add: fits_def request_of_def type_defs)
  have "snd (handle D ?q s) = snd (dpSync D s)" by (simp add: handle_defs type_defs request_of_def case_prod_unfold)
  then show ?thesis by (simp add: rpc_call_def rpc_serve_def wire_Read_Write_self [OF q] case_prod_unfold split: sum.splits)
qed

lemma remote_write_served:
  assumes E: "reF (seR (ceS E b)) = fs_ops" and ok: "cl_ok sz w" and rng: "0 \<le> off" "off + int (length p) \<le> sz" "sz < 2 ^ 63" "length p < 2 ^ 32"
    and c: "rpc_call (srv_data (ceS E b)) sq TypeWrite p off (int (length p)) (ndServer (nodes w b), ndFs (nodes w b)) = (((n, err), buf'), s', g')"
  shows "nd_ok sz s' g' \<and> (err = None \<longrightarrow> (\<forall>x. 0 \<le> x \<and> x < sz \<longrightarrow>
    nd_byte sz s' g' x = overwrite (nd_byte sz (ndServer (nodes w b)) (ndFs (nodes w b))) off p x))"
proof -
  obtain k e s1 g1 where wr: "s_WriteAt (ceS E b) p off (ndServer (nodes w b), ndFs (nodes w b)) = ((k, e), s1, g1)" by (metis prod.exhaust)
  have n: "nd_ok sz (ndServer (nodes w b)) (ndFs (nodes w b))" using ok by (simp add: cl_ok_def)
  note r = nd_write [OF n rng(1,2) E wr]
  have t: "\<forall>x. e = Some x \<longrightarrow> length (error_text x) < 2 ^ 32" using r by fastforce
  have "dpWriteAt (srv_data (ceS E b)) p off (ndServer (nodes w b), ndFs (nodes w b)) = ((k, e), s1, g1)" using wr by (simp add: srv_data_def)
  from rpc_write [OF rng(4) _ _ this t, of sq] have "s' = s1" "g' = g1" "err = sent_error e" using c rng by auto
  then show ?thesis using r by (auto simp: sent_error_def split: option.splits if_splits)
qed

lemma remote_read_served:
  assumes E: "reF (seR (ceS E b)) = fs_ops" and ok: "cl_ok sz w" and rng: "0 \<le> off" "off + int (length p) \<le> sz" "sz < 2 ^ 63" "length p < 2 ^ 32"
    and c: "rpc_call (srv_data (ceS E b)) sq TypeRead p off (int (length p)) (ndServer (nodes w b), ndFs (nodes w b)) = (((n, err), buf'), s', g')"
  shows "nd_ok sz s' g' \<and> nd_byte sz s' g' = nd_byte sz (ndServer (nodes w b)) (ndFs (nodes w b)) \<and>
    (err = None \<longrightarrow> n = int (length p) \<and> buf' = bytes_at (nd_byte sz (ndServer (nodes w b)) (ndFs (nodes w b))) off (length p))"
proof -
  let ?z = "replicate (length p) (0 :: byte)"
  obtain k e bs s1 g1 where rd: "s_ReadAt (ceS E b) ?z off (ndServer (nodes w b), ndFs (nodes w b)) = (((k, e), bs), s1, g1)" by (metis prod.exhaust)
  have n: "nd_ok sz (ndServer (nodes w b)) (ndFs (nodes w b))" using ok by (simp add: cl_ok_def)
  have rz: "off + int (length ?z) \<le> sz" using rng by simp
  note r = nd_read [OF n rng(1) rz E rd]
  have t: "\<forall>x. e = Some x \<longrightarrow> length (error_text x) < 2 ^ 32" "e \<noteq> Some EOF" using r by fastforce+
  have d: "dpReadAt (srv_data (ceS E b)) ?z off (ndServer (nodes w b), ndFs (nodes w b)) = (((k, e), bs), s1, g1)" using rd by (simp add: srv_data_def)
  have "length bs = length p" using r by simp
  from rpc_read [OF rng(4) _ _ d this t(2,1), of sq] have "s' = s1" "g' = g1" "err = sent_error e" "n = (if e = None then int (length p) else 0)"
    "buf' = (if e = None then bs else p)" using c rng by auto
  then show ?thesis using r by (auto simp: sent_error_def split: option.splits if_splits)
qed

section \<open>The contract\<close>

locale cluster_hosts =
  fixes C :: cenv and sz :: int
  assumes disks: "\<And>b. reF (seR (ceS C b)) = fs_ops"
    and size: "sz < 2 ^ 63"
begin

lemma read_cases:
  assumes ok: "cl_ok sz w" and rng: "0 \<le> off" "off + int (length p) \<le> sz" "length p < 2 ^ 32"
    and st: "remote_ReadAt C b p off w = (((n, err), buf'), w')"
  shows "cl_ok sz w' \<and> cl_vol sz w' = cl_vol sz w \<and> (err = None \<longrightarrow> n = int (length p) \<and> buf' = bytes_at (cl_vol sz w b) off (length p))"
  using st unfolding remote_ReadAt_def
proof (cases rule: remote_op_cases)
  case none then show ?thesis using ok cl_nodes_cong [of w' w sz] by auto
next
  case (served sq x s' g' up)
  obtain n1 e1 b1 where x: "x = ((n1, e1), b1)" by (metis prod.exhaust)
  note r = remote_read_served [OF disks ok rng(1,2) size rng(3) served(1) [unfolded x]]
  have "cl_ok sz w' \<and> cl_vol sz w' = cl_vol sz w" by (rule cl_same_nodes [of b]) (use served(2) r ok in auto)
  then show ?thesis using served(3) x r by (auto simp: cl_vol_def)
qed

lemma write_cases:
  assumes ok: "cl_ok sz w" and rng: "0 \<le> off" "off + int (length p) \<le> sz" "length p < 2 ^ 32"
    and st: "remote_WriteAt C b p off w = ((n, err), w')"
  shows "cl_ok sz w' \<and> (err = None \<longrightarrow> (\<forall>x. 0 \<le> x \<and> x < sz \<longrightarrow> cl_vol sz w' b x = overwrite (cl_vol sz w b) off p x))"
proof -
  obtain bf where "remote_op C b TypeWrite p off (int (length p)) w = (((n, err), bf), w')"
    using st by (auto simp: remote_WriteAt_def split: prod.splits)
  then show ?thesis
  proof (cases rule: remote_op_cases)
    case none then show ?thesis using ok cl_nodes_cong [of w' w sz] by auto
  next
    case (served sq x s' g' up)
    obtain n1 e1 b1 where x: "x = ((n1, e1), b1)" by (metis prod.exhaust)
    note r = remote_write_served [OF disks ok rng(1,2) size rng(3) served(1) [unfolded x]]
    have "cl_ok sz w'" using served(2) r ok by (auto simp: cl_ok_def)
    then show ?thesis using served(2,3) x r by (auto simp: cl_vol_def)
  qed
qed

lemma sync_cases:
  assumes ok: "cl_ok sz w" and st: "remote_Sync C b w = (x, w')"
  shows "cl_ok sz w' \<and> cl_vol sz w' = cl_vol sz w"
proof -
  obtain n err bf where "remote_op C b TypeSync [] 0 0 w = (((n, err), bf), w')"
    using st by (auto simp: remote_Sync_def split: prod.splits)
  then show ?thesis
  proof (cases rule: remote_op_cases)
    case none then show ?thesis using ok cl_nodes_cong [of w' w sz] by auto
  next
    case (served sq x s' g' up)
    obtain y s1 g1 where y: "s_Sync (ceS C b) (ndServer (nodes w b), ndFs (nodes w b)) = (y, s1, g1)" by (metis prod.exhaust)
    have s: "s1 = s'" "g1 = g'"
      using rpc_sync_state [of "srv_data (ceS C b)" sq "(ndServer (nodes w b), ndFs (nodes w b))"] served(1) y by (simp_all add: srv_data_def)
    have "nd_ok sz (ndServer (nodes w b)) (ndFs (nodes w b))" using ok by (simp add: cl_ok_def)
    from nd_sync [OF this disks y] show ?thesis by (intro cl_same_nodes [of b]) (use served(2) ok s in auto)
  qed
qed

lemma read_length: "remote_ReadAt C b p off w = ((ne, buf'), w') \<Longrightarrow> length buf' = length p"
proof -
  have sp: "length (splice 0 xs ys) = length ys" for xs ys :: "byte list" by (simp add: splice_def)
  have "length (snd (fst (remote_op C b op buf off l w))) = length buf" for op buf off l
    by (auto simp: remote_op_def op_result_def Let_def sp split: option.splits prod.splits sum.splits if_splits)
  from this [of TypeRead p off "int (length p)"] show "remote_ReadAt C b p off w = ((ne, buf'), w') \<Longrightarrow> length buf' = length p"
    by (simp add: remote_ReadAt_def)
qed

lemma chain_cases:
  assumes ok: "cl_ok sz w" and st: "remote_GetReplicaChain C b w = (x, w')"
  shows "cl_ok sz w' \<and> cl_vol sz w' = cl_vol sz w"
proof -
  obtain y where "http_do C b GetReplica w = (y, w')"
    using st by (auto simp: remote_GetReplicaChain_def with_info_def remote_info_def split: prod.splits sum.splits)
  then show ?thesis using http_do_same [where f = GetReplica, OF ok tameS_GetReplica [OF disks]] by blast
qed

lemma checkpoint_cases:
  assumes ok: "cl_ok sz w" and st: "remote_SetCheckpoint C b name w = (x, w')"
  shows "cl_ok sz w' \<and> cl_vol sz w' = cl_vol sz w"
proof -
  obtain y where "http_do C b (\<lambda>S. checkAction S (ASetCheckpoint name)) w = (y, w')"
    using st by (auto simp: remote_SetCheckpoint_def doAction_def split: prod.splits sum.splits unit.splits)
  then show ?thesis
    using http_do_same [where f = "\<lambda>S. checkAction S (ASetCheckpoint name)", OF ok tameS_checkAction [OF disks tameS_SetCheckpoint]] by blast
qed

end

sublocale cluster_hosts \<subseteq> replica_backend "remote_ops C" "cl_vol sz" "cl_ok sz" sz
proof (unfold_locales, goal_cases)
  case (1 w b p off n w' x) then show ?case using write_cases [of w off p b n None w'] by (simp add: remote_ops_def)
next
  case (2 w b b' p off)
  obtain n err bf w' where r: "remote_op C b TypeWrite p off (int (length p)) w = (((n, err), bf), w')" by (metis prod.exhaust)
  then have "nodes w' b' = nodes w b'" by (cases rule: remote_op_cases) (use 2 in auto)
  then show ?case using r by (simp add: remote_ops_def remote_WriteAt_def cl_vol_def)
next
  case (3 w b p off)
  obtain n err w' where "remote_WriteAt C b p off w = ((n, err), w')" by (metis prod.exhaust)
  then show ?case using write_cases 3 by (simp add: remote_ops_def)
next
  case (4 w b buf off n buf' w') then show ?case using read_cases [of w off buf b n None buf' w'] by (simp add: remote_ops_def)
next
  case (5 w b buf off ne buf' w') then show ?case using read_length by (simp add: remote_ops_def)
next
  case (6 w b buf off b')
  obtain n err bf w' where "remote_ReadAt C b buf off w = (((n, err), bf), w')" by (metis prod.exhaust)
  then show ?case using read_cases 6 by (simp add: remote_ops_def)
next
  case (7 w b)
  obtain x w' where "remote_Sync C b w = (x, w')" by (metis prod.exhaust)
  then show ?case using sync_cases 7 by (simp add: remote_ops_def)
next
  case (8 w b) then show ?case using cl_nodes_cong [of "remote_StopMonitoring b w" w sz] by (simp add: remote_ops_def remote_Close_def remote_StopMonitoring_def)
next
  case (9 w b) then show ?case using cl_nodes_cong [of "remote_StopMonitoring b w" w sz] by (simp add: remote_ops_def remote_StopMonitoring_def)
next
  case (10 w b)
  obtain x w' where "remote_GetReplicaChain C b w = (x, w')" by (metis prod.exhaust)
  then show ?case using chain_cases 10 by (simp add: remote_ops_def)
next
  case (11 w b s)
  obtain x w' where "remote_SetCheckpoint C b s w = (x, w')" by (metis prod.exhaust)
  then show ?case using checkpoint_cases 11 by (simp add: remote_ops_def)
qed

section \<open>The whole system\<close>

text \<open>One turn of the goroutine that punches holes, on a host.\<close>

definition host_holes :: "cenv \<Rightarrow> nat \<Rightarrow> cluster \<Rightarrow> cluster" where
  "host_holes C b w =
     (case sR (ndServer (nodes w b)) of
        None \<Rightarrow> w
      | Some r \<Rightarrow>
          (case CreateHoles (reF (seR (ceS C b))) (rDrainOps r, rChan r) (ndFs (nodes w b)) of (err, (ops, ch), g) \<Rightarrow>
             put_node b ((ndServer (nodes w b))\<lparr>sR := Some (r\<lparr>rDrainOps := ops, rChan := ch\<rparr>)\<rparr>, g)
               (ndUp (nodes w b) \<and> err = None) w))"

text \<open>The end of a host's process at any time.\<close>

definition host_dies :: "nat \<Rightarrow> cluster \<Rightarrow> cluster" where
  "host_dies b w = put_node b (ndServer (nodes w b), ndFs (nodes w b)) False w"

datatype cl_event = EvRequest creq | EvHoles nat | EvDies nat | EvPing nat

fun cl_run :: "(cluster, nat) env \<Rightarrow> cenv \<Rightarrow> cl_event list \<Rightarrow> nat controller \<times> cluster \<Rightarrow> cout list \<times> nat controller \<times> cluster" where
  "cl_run E C [] s = ([], s)"
| "cl_run E C (EvRequest q # es) s = (case ctl_io E q s of (out, s') \<Rightarrow> case cl_run E C es s' of (outs, s'') \<Rightarrow> (out # outs, s''))"
| "cl_run E C (EvHoles b # es) (c, w) = cl_run E C es (c, host_holes C b w)"
| "cl_run E C (EvDies b # es) (c, w) = cl_run E C es (c, host_dies b w)"
| "cl_run E C (EvPing b # es) (c, w) = cl_run E C es (c, snd (monitorPing C b w))"

fun requests_of :: "cl_event list \<Rightarrow> creq list" where
  "requests_of [] = []"
| "requests_of (EvRequest q # es) = q # requests_of es"
| "requests_of (_ # es) = requests_of es"

lemma CreateHoles_fs:
  assumes "CreateHoles fs_ops (ops, ch) w = (err, st, w')"
  shows "dirents w' = dirents w \<and> next_ino w' = next_ino w \<and> (\<forall>i. slen (ino_data w' i) = slen (ino_data w i))"
  using assms
  by (auto simp: CreateHoles_def fs_ops_def sp_ops_def numeral_eq_Suc split: list.splits option.splits if_splits)

lemma nd_holes:
  assumes ok: "nd_ok sz s w" and r: "sR s = Some r" and st: "CreateHoles fs_ops (rDrainOps r, rChan r) w = (err, (ops, ch), w')"
  shows "nd_ok sz (s\<lparr>sR := Some (r\<lparr>rDrainOps := ops, rChan := ch\<rparr>)\<rparr>) w' \<and>
    nd_byte sz (s\<lparr>sR := Some (r\<lparr>rDrainOps := ops, rChan := ch\<rparr>)\<rparr>) w' = nd_byte sz s w"
proof -
  have k: "rep_ok fs_avail r w" "vol_size (rVolume r) = sz" "fs_clean (vol_inodes r) (the (revisionFile r)) w"
    using ok r by (auto simp: nd_ok_def)
  then have wf: "wf_disk (fs_avail w) (rVolume r)" "all_safe (rVolume r, w, rChan r)" by (auto simp: rep_ok_def)
  have h: "wf_disk (fs_avail w') (rVolume r)" "all_safe (rVolume r, w', ch)"
      "\<And>p. 0 \<le> p \<Longrightarrow> p < vol_size (rVolume r) \<Longrightarrow>
         vol_byte (fs_content w') (fs_alloc w') (rVolume r) p = vol_byte (fs_content w) (fs_alloc w) (rVolume r) p"
    using fso.CreateHoles_ok [OF wf, of "rDrainOps r"] st by auto
  note f = CreateHoles_fs [OF st]
  have "rep_ok fs_avail (r\<lparr>rDrainOps := ops, rChan := ch\<rparr>) w'"
    using k(1) h(1,2) f by (auto simp: rep_ok_def fs_avail_def sp_avail_def)
  moreover have "fs_clean (vol_inodes r) (the (revisionFile r)) w'" using k(3) f fs_clean_cong by metis
  ultimately show ?thesis
    using h(3) k(2) r by (auto simp: nd_ok_def nd_byte_def fun_eq_iff rep_byte_def vol_inodes_def)
qed

lemma rpc_ping_state: "snd (rpc_call D sq TypePing [] 0 0 s) = snd (dpPingResponse D s)"
proof -
  let ?q = "(request_of TypePing [] 0 0)\<lparr>MsgMagicVersion := MagicVersion, Seq := sq\<rparr>"
  have q: "fits ?q" by (simp add: fits_def request_of_def type_defs)
  have "snd (handle D ?q s) = snd (dpPingResponse D s)" by (simp add: handle_defs type_defs request_of_def case_prod_unfold)
  then show ?thesis by (simp add: rpc_call_def rpc_serve_def wire_Read_Write_self [OF q] case_prod_unfold split: sum.splits)
qed

context cluster_hosts
begin

lemma holes_same:
  assumes ok: "cl_ok sz w"
  shows "cl_ok sz (host_holes C b w) \<and> cl_vol sz (host_holes C b w) = cl_vol sz w"
proof (cases "sR (ndServer (nodes w b))")
  case None then show ?thesis using ok by (simp add: host_holes_def)
next
  case (Some r)
  obtain err ops ch g where h: "CreateHoles fs_ops (rDrainOps r, rChan r) (ndFs (nodes w b)) = (err, (ops, ch), g)" by (metis prod.exhaust)
  have "nd_ok sz (ndServer (nodes w b)) (ndFs (nodes w b))" using ok by (simp add: cl_ok_def)
  from nd_holes [OF this Some h] show ?thesis
    by (intro cl_same_nodes [of b]) (use ok h Some disks in \<open>auto simp: host_holes_def put_node_def\<close>)
qed

lemma dies_same: "cl_ok sz w \<Longrightarrow> cl_ok sz (host_dies b w) \<and> cl_vol sz (host_dies b w) = cl_vol sz w"
  by (auto simp: cl_ok_def cl_vol_def host_dies_def put_node_def fun_eq_iff)

lemma ping_same:
  assumes ok: "cl_ok sz w"
  shows "cl_ok sz (snd (monitorPing C b w)) \<and> cl_vol sz (snd (monitorPing C b w)) = cl_vol sz w"
proof -
  obtain n err bf w1 where p: "remote_op C b TypePing [] 0 0 w = (((n, err), bf), w1)" by (metis prod.exhaust)
  have f: "nodes (fail_link b e w1) = nodes w1" for e by (simp add: fail_link_def)
  have "nodes (snd (monitorPing C b w)) = nodes w1" using p f by (simp add: monitorPing_def split: option.splits)
  moreover from p have "cl_ok sz w1 \<and> cl_vol sz w1 = cl_vol sz w"
  proof (cases rule: remote_op_cases)
    case none then show ?thesis using ok cl_nodes_cong [of w1 w sz] by auto
  next
    case (served sq x s' g' up)
    let ?s = "ndServer (nodes w b)" and ?g = "ndFs (nodes w b)"
    have s: "s' = ?s" "g' = snd (Status (?s, ?g))"
      using rpc_ping_state [of "srv_data (ceS C b)" sq "(?s, ?g)"] served(1) by (auto simp: srv_data_def PingResponse_def case_prod_unfold)
    have t: "tameS D rf (\<lambda>(s, w). (Inr (), s, snd (Status (s, w))))" for D rf by (rule tameSI) (auto simp: keeps_Status)
    have "nd_ok sz ?s ?g" using ok by (simp add: cl_ok_def)
    from nd_tame [where m = "\<lambda>(s, w). (Inr (), s, snd (Status (s, w)))", OF this t] s
    show ?thesis by (intro cl_same_nodes [of b]) (use served(2) ok in auto)
  qed
  ultimately show ?thesis using cl_nodes_cong [of "snd (monitorPing C b w)" w1 sz] by simp
qed

end

text \<open>The iSCSI target is not part of the cluster: its shutdown does not touch the hosts.\<close>

locale cluster_volume = cluster_hosts C sz for C :: cenv and sz :: int +
  fixes E :: "(cluster, nat) env"
  assumes remote: "eB E = remote_ops C"
    and target: "\<And>fe w. eFrontend E = Some fe \<Longrightarrow> nodes (snd (feShutdown fe w)) = nodes w"

sublocale cluster_volume \<subseteq> cv: volume_env E "cl_vol sz" "cl_ok sz" sz
proof -
  have "replica_backend (eB E) (cl_vol sz) (cl_ok sz) sz" using replica_backend_axioms by (simp add: remote)
  moreover have "cl_ok sz (snd (feShutdown fe w)) \<and> cl_vol sz (snd (feShutdown fe w)) = cl_vol sz w"
    if "eFrontend E = Some fe" "cl_ok sz w" for fe w using target [OF that(1), of w] that(2) cl_nodes_cong by metis
  ultimately show "volume_env E (cl_vol sz) (cl_ok sz) sz" by (simp add: volume_env_def volume_env_axioms_def)
qed

context cluster_volume
begin

lemma ctl_rel_world:
  "cv.ctl_rel c w V \<Longrightarrow> cl_ok sz w' \<Longrightarrow> cl_vol sz w' = cl_vol sz w \<Longrightarrow> cv.ctl_rel c w' V"
  by (simp add: cv.ctl_rel_def holds_copy_def)

lemma cl_run_copy:
  "cv.ctl_rel c w V \<Longrightarrow> eFrontend E \<noteq> None \<Longrightarrow> \<forall>q\<in>set (requests_of es). creq_ok q \<Longrightarrow>
   cl_run E C es (c, w) = (os, s') \<Longrightarrow> one_array (requests_of es) os V"
proof (induction es arbitrary: c w V os)
  case (Cons ev es)
  have ok: "cl_ok sz w" using Cons.prems(1) by (simp add: cv.ctl_rel_def)
  show ?case
  proof (cases ev)
    case (EvRequest q)
    obtain out c1 w1 where 1: "ctl_io E q (c, w) = (out, c1, w1)" by (metis prod_cases3)
    obtain os2 s2 where 2: "cl_run E C es (c1, w1) = (os2, s2)" by (metis prod.exhaust)
    have o: "os = out # os2" "s2 = s'" using Cons.prems(4) 1 2 EvRequest by auto
    from Cons.prems(3) EvRequest have q: "creq_ok q" "\<forall>q\<in>set (requests_of es). creq_ok q" by auto
    obtain V' where V': "cv.ctl_rel c1 w1 V'" "\<forall>rs os. one_array rs os V' \<longrightarrow> one_array (q # rs) (out # os) V"
      using cv.ctl_io_copy [OF Cons.prems(1,2) size q(1) 1] by blast
    have "one_array (requests_of es) os2 V'" by (rule Cons.IH [OF V'(1) Cons.prems(2) q(2) 2 [unfolded o(2)]])
    then show ?thesis using V'(2) o(1) EvRequest by auto
  next
    case (EvHoles b)
    have "cv.ctl_rel c (host_holes C b w) V" using ctl_rel_world [OF Cons.prems(1)] holes_same [OF ok] by blast
    then show ?thesis using Cons.IH [OF _ Cons.prems(2)] Cons.prems(3,4) EvHoles by simp
  next
    case (EvDies b)
    have "cv.ctl_rel c (host_dies b w) V" using ctl_rel_world [OF Cons.prems(1)] dies_same [OF ok] by blast
    then show ?thesis using Cons.IH [OF _ Cons.prems(2)] Cons.prems(3,4) EvDies by simp
  next
    case (EvPing b)
    have "cv.ctl_rel c (snd (monitorPing C b w)) V" using ctl_rel_world [OF Cons.prems(1)] ping_same [OF ok] by blast
    then show ?thesis using Cons.IH [OF _ Cons.prems(2)] Cons.prems(3,4) EvPing by simp
  qed
qed simp

lemma cl_array:
  assumes "ctl_inv c" "distinct_handles (backend c)" "csize c = sz" "cl_ok sz w" "holds_copy (cl_vol sz) sz c w V"
    "eFrontend E \<noteq> None" "\<forall>q\<in>set (requests_of es). creq_ok q"
  shows "one_array (requests_of es) (fst (cl_run E C es (c, w))) V"
proof -
  have "cv.ctl_rel c w V" using assms by (simp add: cv.ctl_rel_def)
  then show ?thesis using cl_run_copy assms(6,7) by (metis prod.collapse)
qed

end

section \<open>A cluster of two hosts\<close>

text \<open>Volumes of two sectors with a head over one snapshot, and the environment of the controller.\<close>

definition two_renv :: renv where
  "two_renv = \<lparr>reF = fs_ops, reMetaSize = (\<lambda>_. 0), reMaxChainLength = 512, rePunch = True, reFuel = 10, reRAMInBytes = ParseInt\<rparr>"

definition two_cenv :: cenv where
  "two_cenv = \<lparr>ceS = (\<lambda>_. \<lparr>seR = two_renv, seProbe = (\<lambda>_ _. None), seUUID = id, seNow = ''now''\<rparr>),
     ceHost = map_of [(''a:9502'', 0), (''b:9502'', 1)]\<rparr>"

definition two_fs :: fs where
  "two_fs = \<lparr>dirents = [''volume-snap-s0.img'' \<mapsto> 1, ''volume-head-001.img'' \<mapsto> 2, ''revision.counter'' \<mapsto> 3],
     ino_data = (\<lambda>f. \<lparr>sdata = (\<lambda>p. 0), salloc = (\<lambda>s. f = 1 \<and> s = 0), slen = 8192\<rparr>), ino_meta = (\<lambda>_. None), next_ino = 4,
     have_dir = True, tick = 0, faults = (\<lambda>_. None)\<rparr>"

definition two_disk :: "nat diffDisk" where
  "two_disk = \<lparr>location = [0, 0], UsedLogicalBlocks = 0, UsedBlocks = 0, files = [None, Some 1, Some 2],
     UserCreatedSnap = [False, False, False], SnapIndx = 0, sectorSize = 4096\<rparr>"

definition two_server :: server where
  "two_server = (NewServer ''a'' 4096 ''Backend'')\<lparr>sR := Some ((new_replica 8192 4096 None [] NoDrain)\<lparr>rVolume := two_disk, rMode := RW, revisionFile := Some 3\<rparr>)\<rparr>"

definition two_cluster :: cluster where
  "two_cluster = \<lparr>nodes = (\<lambda>_. \<lparr>ndServer = two_server, ndFs = two_fs, ndUp = True\<rparr>),
     links = (\<lambda>_. \<lparr>lkErr = None, lkSeq = 0, lkCloseChan = 0\<rparr>), net = (\<lambda>n. if n = 3 then ReplyLost else Delivered), msgs = 0\<rparr>"

definition two_env :: "(cluster, nat) env" where
  "two_env = \<lparr>eB = remote_ops two_cenv, eF = dynamic_factory [(''tcp'', remote_factory two_cenv)],
     eFrontend = Some \<lparr>feState = (\<lambda>_. True), feShutdown = (\<lambda>w. (None, w)), feStartup = (\<lambda>_ _ _ w. (None, w)), feResize = (\<lambda>_ w. (None, w))\<rparr>,
     eC = \<lparr>clNew = (\<lambda>_. None), clGetReplica = (\<lambda>_ w. (Inl ErrNotExist, w)), clRevert = (\<lambda>_ _ _ w. (None, w)),
       clPrepareRemoveDisk = (\<lambda>_ _ w. (Inr [], w)), clRemoveDisk = (\<lambda>_ _ w. (None, w)), clReplaceDisk = (\<lambda>_ _ _ w. (None, w)),
       clCoalesce = (\<lambda>_ _ _ w. (None, w)), clLaunchReceiver = (\<lambda>_ _ w. (Inl ErrNotExist, w)), clSendFile = (\<lambda>_ _ _ _ w. (None, w))\<rparr>,
     eUUID = (\<lambda>w. (''u'', w)), eNow = (\<lambda>w. (''now'', w)), eCheckReplicationFactor = 2, eRAMInBytes = ParseInt\<rparr>"

definition two_ctl :: "nat controller" where
  "two_ctl = (NewController ''vol'' 2)\<lparr>csize := 8192, csectorSize := 4096,
     replicas := [\<lparr>Address = ''tcp://a:9502'', Mode = RW\<rparr>, \<lparr>Address = ''tcp://b:9502'', Mode = RW\<rparr>],
     backend := buildReadWriters (replicator0\<lparr>backends := [(''tcp://a:9502'', \<lparr>bw_backend = 0, bw_mode = RW\<rparr>), (''tcp://b:9502'', \<lparr>bw_backend = 1, bw_mode = RW\<rparr>)]\<rparr>),
     ReadOnly := False\<rparr>"

interpretation two: cluster_volume two_cenv 8192 two_env
  by unfold_locales (auto simp: two_cenv_def two_renv_def two_env_def)

lemma two_ctl_inv: "ctl_inv two_ctl"
  by (simp add: ctl_inv_def two_ctl_def rp_ok_def built_build NewController_def c_reset_def replicator0_def entries_def reps_def wo_count_def)

lemma two_handles: "distinct_handles (backend two_ctl)"
  by (simp add: two_ctl_def distinct_handles_def replicator0_def NewController_def c_reset_def)

lemma two_node: "nd_ok 8192 two_server two_fs"
proof -
  have "wf_disk (fs_avail two_fs) two_disk"
    by (auto simp: wf_disk_def wf_shape_def two_disk_def vol_size_def fs_avail_def sp_avail_def two_fs_def nth_Cons')
  moreover have "fs_clean {1, 2} 3 two_fs"
  proof -
    have "name @ ''.tmp'' \<noteq> s" if "last s \<noteq> CHR ''p''" for name s using that by auto
    then have "name @ ''.tmp'' \<noteq> ''volume-snap-s0.img''" "name @ ''.tmp'' \<noteq> ''volume-head-001.img''" "name @ ''.tmp'' \<noteq> ''revision.counter''" for name
      by simp_all
    then show ?thesis by (auto simp: fs_clean_def two_fs_def revisionCounterFile_def)
  qed
  moreover have "vol_inodes ((new_replica 8192 4096 None [] NoDrain)\<lparr>rVolume := two_disk, rMode := RW, revisionFile := Some 3\<rparr>) = {1, 2}"
    by (auto simp: vol_inodes_def two_disk_def)
  ultimately show ?thesis
    by (simp add: nd_ok_def two_server_def NewServer_def rep_ok_def new_replica_def all_safe_def vol_size_def two_disk_def fs_avail_def
        sp_avail_def two_fs_def)
qed

lemma two_ok: "cl_ok 8192 two_cluster"
  using two_node by (simp add: cl_ok_def two_cluster_def)

end
