(* ===== verification/ControllerReach.thy ===== *)
theory ControllerReach
  imports ControllerInv
begin

text \<open>
  The controller as a state machine: one step for each operation that holds the lock, in any order and
  with any arguments, and a step in which the rest of the world changes.  Its reachable states satisfy
  the invariant.
\<close>

section \<open>Operations keep the invariant\<close>

lemma c_WriteAt_inv: "ctl_inv c \<Longrightarrow> c_WriteAt E b off c w = (res, c', w') \<Longrightarrow> ctl_inv c'"
  using after_error_inv by (fastforce simp: c_WriteAt_def split: if_splits prod.splits option.splits sum.splits)

lemma c_through_inv: "ctl_inv c \<Longrightarrow> c_through E m f c w = (res, c', w') \<Longrightarrow> ctl_inv c'"
  using after_error_inv by (fastforce simp: c_through_def split: if_splits prod.splits option.splits sum.splits)

lemma c_ReadAt_inv:
  assumes inv: "ctl_inv c" and st: "c_ReadAt E b off c w = (res, c', w')"
  shows "ctl_inv c'"
proof -
  obtain n err b' rp w1 where rd: "rp_ReadAt (eB E) b off (backend c) w = (((n, err), b'), rp, w1)" by (metis prod.exhaust)
  obtain k where "rp = (backend c)\<lparr>next_reader := k\<rparr>" using rp_ReadAt_frame [OF rd] by blast
  then have i1: "ctl_inv (c\<lparr>backend := rp\<rparr>)" using ctl_inv_next [OF inv] by simp
  obtain r2 c2 w2 where ae: "after_error E (the err) (c\<lparr>backend := rp\<rparr>) w1 = (r2, c2, w2)" by (metis prod_cases3)
  have "c' = c \<or> c' = c\<lparr>backend := rp\<rparr> \<or> c' = c2"
    using st rd ae by (auto simp: c_ReadAt_def split: if_splits list.splits option.splits sum.splits)
  then show ?thesis using inv i1 after_error_inv [OF i1 ae] by auto
qed

lemma elect_and_signal_inv: "ctl_inv c \<Longrightarrow> elect_and_signal E reg c w = (e, c', w') \<Longrightarrow> ctl_inv c'"
  by (rule ctl_inv_frame, assumption)
    (auto simp: elect_and_signal_def signalReplica_def Let_def split: if_splits prod.splits option.splits)

lemma registerReplica_inv:
  assumes inv: "ctl_inv c" and st: "registerReplica E reg c w = (e, c', w')"
  shows "ctl_inv c'"
proof -
  have el: "ctl_inv c''" if "elect_and_signal E reg d v = (e', c'', w'')" "replicas d = replicas c"
      "quorumReplicas d = quorumReplicas c" "backend d = backend c" for d v e' c'' w''
    using elect_and_signal_inv [OF ctl_inv_frame [OF inv that(2-4)] that(1)] .
  have fr: "ctl_inv d" if "replicas d = replicas c" "quorumReplicas d = quorumReplicas c" "backend d = backend c" for d
    using ctl_inv_frame [OF inv that] .
  show ?thesis using st
    by (auto simp: registerReplica_def signalReplica_def Let_def intro: fr el split: if_splits prod.splits option.splits bool.splits)
qed

lemma addReplica_check_inv: "ctl_inv c \<Longrightarrow> addReplica_check E a c w = (e, c', w') \<Longrightarrow> ctl_inv c'"
  using canAdd_inv by (fastforce simp: addReplica_check_def split: prod.splits option.splits)

lemma addReplica_commit_inv: "ctl_inv c \<Longrightarrow> addReplica_commit E b a s c w = (e, c', w') \<Longrightarrow> ctl_inv c'"
  using addReplicaNoLock_inv ctl_inv_UpdateCheckpoint
  by (fastforce simp: addReplica_commit_def split: prod.splits option.splits)

lemma addQuorumReplica_commit_inv:
  assumes inv: "ctl_inv c" and st: "addQuorumReplica_commit E b a s c w = (e, c', w')"
  shows "ctl_inv c'"
proof -
  obtain e1 c1 w1 where 1: "addQuorumReplicaNoLock E b a s c w = (e1, c1, w1)" by (metis prod_cases3)
  have i1: "ctl_inv c1" by (rule addQuorumReplicaNoLock_inv [OF inv 1])
  have "c' = c1 \<or> (\<exists>w2 w3. UpdateCheckpoint E (UpdateVolStatus c1) w2 = (c', w3))"
    using st 1 by (auto simp: addQuorumReplica_commit_def split: prod.splits option.splits sum.splits if_splits)
  then show ?thesis using i1 ctl_inv_UpdateCheckpoint by fastforce
qed

lemma SetReplicaMode_inv: "ctl_inv c \<Longrightarrow> SetReplicaMode E a m c w = (e, c', w') \<Longrightarrow> ctl_inv c'"
  using setReplicaModeNoLock_inv by (fastforce simp: SetReplicaMode_def split: if_splits)

lemma ctl_inv_reset [simp]: "ctl_inv (c_reset c)"
  by (simp add: ctl_inv_def c_reset_def replicator0_def rp_ok_def entries_def reps_def wo_count_def)

lemma remove_and_fail_inv: "ctl_inv c \<Longrightarrow> remove_and_fail E a x c w = (e, c', w') \<Longrightarrow> ctl_inv c'"
  using RemoveReplicaNoLock_inv
  by (fastforce simp: remove_and_fail_def split: prod.splits option.splits error.splits)

lemma addReplicaDuringStart_inv:
  assumes inv: "ctl_inv c" and st: "addReplicaDuringStartNoLock E fuel a c w = Some (e, c', w')"
  shows "ctl_inv c'"
proof -
  have rm: "ctl_inv (rmReplicaFromRegisteredReplicas a d) = ctl_inv d" for d
    by (simp add: ctl_inv_def rmReplicaFromRegisteredReplicas_def)
  have sz: "ctl_inv (c\<lparr>csize := x, csectorSize := y\<rparr>)" for x y using inv by (simp add: ctl_inv_def)
  show ?thesis using st inv sz
    by (auto simp: addReplicaDuringStartNoLock_def Let_def rm split: prod.splits sum.splits option.splits if_splits
        dest: addReplicaNoLock_inv [rotated] remove_and_fail_inv [rotated] setReplicaModeNoLock_inv [rotated 2])
qed

lemma add_all_during_start_inv:
  "ctl_inv c \<Longrightarrow> add_all_during_start E fuel as c w = Some (e, c', w') \<Longrightarrow> ctl_inv c'"
  by (induction as arbitrary: c w)
    (auto split: option.splits prod.splits dest: addReplicaDuringStart_inv [rotated])

lemma start_rest_inv: "ctl_inv c \<Longrightarrow> start_rest E c w = (e, c', w') \<Longrightarrow> ctl_inv c'"
  using ctl_inv_UpdateCheckpoint set_all_err_inv
  by (fastforce simp: start_rest_def Let_def split: prod.splits option.splits sum.splits)

lemma Start_inv:
  assumes inv: "ctl_inv c" and st: "Start E fuel as c w = Some (e, c', w')"
  shows "ctl_inv c'"
proof -
  have i0: "ctl_inv ((c_reset c)\<lparr>csize := x\<rparr>)" for x
    by (rule ctl_inv_frame [OF ctl_inv_reset [of c]]) simp_all
  have "c' = c \<or> (\<exists>e1 c1 w1. add_all_during_start E fuel as ((c_reset c)\<lparr>csize := 2 ^ 63 - 1\<rparr>) w = Some (e1, c1, w1) \<and>
      (c' = c1 \<or> (\<exists>e2 w2. start_rest E c1 w1 = (e2, c', w2))))"
    using st by (auto simp: Start_def Let_def split: list.splits option.splits prod.splits if_splits error.splits)
  then show ?thesis
  proof (elim disjE exE conjE)
    fix e1 c1 w1 e2 w2
    assume 1: "add_all_during_start E fuel as ((c_reset c)\<lparr>csize := 2 ^ 63 - 1\<rparr>) w = Some (e1, c1, w1)"
    have "ctl_inv c1" by (rule add_all_during_start_inv [OF i0 1])
    then show "c' = c1 \<Longrightarrow> ctl_inv c'" "start_rest E c1 w1 = (e2, c', w2) \<Longrightarrow> ctl_inv c'"
      by (auto intro: start_rest_inv)
  qed (use inv in simp)
qed

lemma handleErrorNoLock_any: "ctl_inv c \<Longrightarrow> handleErrorNoLock E x c w = (e, c', w') \<Longrightarrow> ctl_inv c'"
  using handleErrorNoLock_inv by (cases x) (fastforce simp: handleErrorNoLock_def)+

lemma c_Snapshot_inv: "ctl_inv c \<Longrightarrow> c_Snapshot E n c w = (e, c', w') \<Longrightarrow> ctl_inv c'"
  by (auto simp: c_Snapshot_def Let_def split: if_splits prod.splits sum.splits bool.splits
      dest: handleErrorNoLock_any [rotated])

lemma c_Resize_inv:
  assumes inv: "ctl_inv c" and st: "c_Resize E n sz c w = (e, c', w')"
  shows "ctl_inv c'"
proof -
  have sz: "ctl_inv (d\<lparr>csize := x\<rparr>) = ctl_inv d" for d x by (simp add: ctl_inv_def)
  show ?thesis using st inv
    by (auto simp: c_Resize_def sz split: if_splits prod.splits sum.splits option.splits
        dest: handleErrorNoLock_any [rotated])
qed

lemma shutdownBackend_inv: "shutdownBackend E c w = (e, c', w') \<Longrightarrow> ctl_inv c'"
  by (auto simp: shutdownBackend_def split: prod.splits)

lemma monitoring_inv: "ctl_inv c \<Longrightarrow> monitoring E a x c w = (e, c', w') \<Longrightarrow> ctl_inv c'"
  by (auto simp: monitoring_def split: if_splits prod.splits option.splits
      dest: setReplicaModeNoLock_inv [rotated 2] RemoveReplicaNoLock_inv [rotated])

lemma ctl_inv_quorumCount [simp]: "ctl_inv (c\<lparr>quorumReplicaCount := x\<rparr>) = ctl_inv c"
  by (simp add: ctl_inv_def)

lemma VerifyRebuildReplica_inv:
  assumes inv: "ctl_inv c" and st: "VerifyRebuildReplica E a c w = (e, c', w')"
  shows "ctl_inv c'"
proof -
  have sm: "ctl_inv c7" if "setReplicaModeNoLock E a RW c w6 = (e7, c7, w7)" for e7 c7 w6 w7
    using setReplicaModeNoLock_inv [OF inv _ that] by simp
  have up: "ctl_inv c'" if "UpdateCheckpoint E (UpdateVolStatus c7) w7 = (c', w9)"
      "setReplicaModeNoLock E a RW c w6 = (e7, c7, w7)" for c7 w6 w7 w9 e7
    using ctl_inv_UpdateCheckpoint [OF that(1)] sm [OF that(2)] by simp
  have upq: "ctl_inv c'" if "UpdateCheckpoint E (UpdateVolStatus (c7\<lparr>quorumReplicaCount := x\<rparr>)) w7 = (c', w9)"
      "setReplicaModeNoLock E a RW c w6 = (e7, c7, w7)" for c7 w6 w7 w9 e7 x
    using ctl_inv_UpdateCheckpoint [OF that(1)] sm [OF that(2)] by simp
  show ?thesis using st inv
    by (auto simp: VerifyRebuildReplica_def Let_def split: sum.splits prod.splits if_splits option.splits dest: sm up upq)
qed

lemma revert_all_inv: "ctl_inv c \<Longrightarrow> revert_all E n now as ok c w = (res, c', w') \<Longrightarrow> ctl_inv c'"
proof (induction as arbitrary: ok c w)
  case (Cons a as)
  then show ?case by (auto split: prod.splits option.splits dest: setReplicaModeNoLock_inv [rotated 2])
qed simp

lemma revert_locked_inv: "ctl_inv c \<Longrightarrow> revert_locked E as n c w = (e, c', w') \<Longrightarrow> ctl_inv c'"
  by (auto simp: revert_locked_def split: if_splits prod.splits sum.splits option.splits bool.splits dest: revert_all_inv [rotated])

lemma NewController_inv: "ctl_inv (NewController n rf)"
  by (simp add: NewController_def)

section \<open>The state machine\<close>

text \<open>
  A step is a section that holds the lock, or something that changes the world only, such as what an operation
  does before it takes the lock, between two sections, or to the frontend.
\<close>

inductive ctl_step :: "('w, 'b) env \<Rightarrow> 'b controller \<times> 'w \<Rightarrow> 'b controller \<times> 'w \<Rightarrow> bool" for E where
  st_world: "ctl_step E (c, w) (c, w')"
| st_write: "c_WriteAt E b off c w = (res, c', w') \<Longrightarrow> ctl_step E (c, w) (c', w')"
| st_read: "c_ReadAt E b off c w = (rb, c', w') \<Longrightarrow> ctl_step E (c, w) (c', w')"
| st_sync: "c_Sync E c w = (res, c', w') \<Longrightarrow> ctl_step E (c, w) (c', w')"
| st_unmap: "c_Unmap E off len c w = (res, c', w') \<Longrightarrow> ctl_step E (c, w) (c', w')"
| st_register: "registerReplica E reg c w = (e, c', w') \<Longrightarrow> ctl_step E (c, w) (c', w')"
| st_add_check: "addReplica_check E a c w = (e, c', w') \<Longrightarrow> ctl_step E (c, w) (c', w')"
| st_add_commit: "addReplica_commit E nb a s c w = (e, c', w') \<Longrightarrow> ctl_step E (c, w) (c', w')"
| st_addq_check: "canAdd E a c w = (e, c', w') \<Longrightarrow> ctl_step E (c, w) (c', w')"
| st_addq_commit: "addQuorumReplica_commit E nb a s c w = (e, c', w') \<Longrightarrow> ctl_step E (c, w) (c', w')"
| st_remove: "RemoveReplicaNoLock E a c w = (e, c', w') \<Longrightarrow> ctl_step E (c, w) (c', w')"
| st_set_mode: "SetReplicaMode E a m c w = (e, c', w') \<Longrightarrow> ctl_step E (c, w) (c', w')"
| st_start: "Start E fuel as c w = Some (e, c', w') \<Longrightarrow> ctl_step E (c, w) (c', w')"
| st_snapshot: "c_Snapshot E n c w = (ne, c', w') \<Longrightarrow> ctl_step E (c, w) (c', w')"
| st_resize: "c_Resize E n sz c w = (e, c', w') \<Longrightarrow> ctl_step E (c, w) (c', w')"
| st_shutdown: "shutdownBackend E c w = (e, c', w') \<Longrightarrow> ctl_step E (c, w) (c', w')"
| st_monitor: "monitoring E a x c w = (e, c', w') \<Longrightarrow> ctl_step E (c, w) (c', w')"
| st_verify: "VerifyRebuildReplica E a c w = (e, c', w') \<Longrightarrow> ctl_step E (c, w) (c', w')"
| st_revert: "revert_locked E as n c w = (e, c', w') \<Longrightarrow> ctl_step E (c, w) (c', w')"
| st_snap_deletion: "ctl_step E (c, w) (c\<lparr>IsSnapDeletionInProgress := x\<rparr>, w)"

lemma ctl_inv_IsSnap [simp]: "ctl_inv (c\<lparr>IsSnapDeletionInProgress := x\<rparr>) = ctl_inv c"
  by (simp add: ctl_inv_def)

lemma ctl_step_inv:
  assumes "ctl_step E s s'" "ctl_inv (fst s)"
  shows "ctl_inv (fst s')"
  using assms
proof (cases rule: ctl_step.cases)
  case (st_sync c w res c' w') then show ?thesis using assms(2) by (auto simp: c_Sync_def intro: c_through_inv)
next
  case (st_unmap off len c w res c' w') then show ?thesis using assms(2) by (auto simp: c_Unmap_def intro: c_through_inv)
next
  case (st_addq_check a c w e c' w') then show ?thesis using assms(2) canAdd_inv by fastforce
next
  case (st_remove a c w e c' w') then show ?thesis using assms(2) RemoveReplicaNoLock_inv by fastforce
qed (use assms(2) in \<open>auto intro: c_WriteAt_inv c_ReadAt_inv registerReplica_inv addReplica_check_inv addReplica_commit_inv
    addQuorumReplica_commit_inv SetReplicaMode_inv Start_inv c_Snapshot_inv c_Resize_inv shutdownBackend_inv monitoring_inv
    VerifyRebuildReplica_inv revert_locked_inv\<close>)

definition ctl_reachable :: "('w, 'b) env \<Rightarrow> 'b controller \<times> 'w \<Rightarrow> bool" where
  "ctl_reachable E s \<longleftrightarrow> (\<exists>n rf w. (ctl_step E)\<^sup>*\<^sup>* (NewController n rf, w) s)"

lemma ctl_reachable_inv:
  assumes "ctl_reachable E s"
  shows "ctl_inv (fst s)"
proof -
  obtain n rf w where "(ctl_step E)\<^sup>*\<^sup>* (NewController n rf, w) s" using assms by (auto simp: ctl_reachable_def)
  then show ?thesis by induction (auto simp: NewController_inv intro: ctl_step_inv)
qed

end
