(* ===== verification/ControllerProps.thy ===== *)
theory ControllerProps
  imports ControllerReach OneCopy
begin

text \<open>
  What the controller guarantees, operation by operation: its bookkeeping in every reachable state, when
  the volume takes writes, what an acknowledged write means, which requests are refused.  The concrete controllers at the start serve as examples: replicas
  that fail when their number is in the world.
\<close>

section \<open>Examples\<close>

definition lab_ops :: "(nat list, nat) backend_ops" where
  "lab_ops = \<lparr>
     bReadAt = (\<lambda>b buf off w. if b \<in> set w then (((0, Some EOF), buf), w) else (((int (length buf), None), replicate (length buf) 7), w)),
     bWriteAt = (\<lambda>b p off w. if b \<in> set w then ((0, Some EOF), w) else ((int (length p), None), w)),
     bSync = (\<lambda>b w. ((0, None), w)), bUnmap = (\<lambda>b off len w. ((0, None), w)), bClose = (\<lambda>b w. (None, w)),
     bSnapshot = (\<lambda>b n u cr w. (None, w)), bGetReplicaChain = (\<lambda>b w. (Inr [''volume-head-001.img'', ''volume-snap-s.img''], w)),
     bSetCheckpoint = (\<lambda>b s w. (None, w)), bResize = (\<lambda>b n s w. (None, w)), bSize = (\<lambda>b w. (Inr 8192, w)), bSectorSize = (\<lambda>b w. (Inr 4096, w)),
     bRemainSnapshots = (\<lambda>b w. (Inr 10, w)), bGetRevisionCounter = (\<lambda>b w. (Inr 5, w)), bGetCloneStatus = (\<lambda>b w. (Inr ''NA'', w)),
     bGetVolUsage = (\<lambda>b w. (Inl ErrNotExist, w)), bSetReplicaMode = (\<lambda>b m w. (None, w)), bSetRevisionCounter = (\<lambda>b n w. (None, w)),
     bSetRebuilding = (\<lambda>b r w. (None, w)), bStopMonitoring = (\<lambda>b w. w)\<rparr>"

definition lab_info :: replicaInfo where
  "lab_info = \<lparr>riDirty = False, riRebuilding = False, riHead = ''volume-head-001.img'', riParent = [], riSize = ''8192'', riSectorSize = 4096,
     riState = ''open'', riChain = [''volume-head-001.img'', ''volume-snap-s.img''], riDisks = [], riRemainSnapshots = 10, riReplicaMode = ''WO'',
     riRevisionCounter = ''5'', riUsedLogicalBlocks = ''0'', riUsedBlocks = ''0'', riCloneStatus = ''NA'', riCheckpoint = ''volume-snap-s.img''\<rparr>"

text \<open>Signals reach every host whose name is not in the world as a number; the host \<open>b\<close> is number 1.\<close>

definition lab_env :: "(nat list, nat) env" where
  "lab_env = \<lparr>eB = lab_ops,
     eF = \<lparr>fCreate = (\<lambda>a w. (Inr 0, w)), fSignalToAdd = (\<lambda>a x w. (None, w)), fVerifyReplicaAlive = (\<lambda>a w. (a \<noteq> ''b'', w))\<rparr>,
     eFrontend = Some \<lparr>feState = (\<lambda>_. True), feShutdown = (\<lambda>w. (None, w)), feStartup = (\<lambda>_ _ _ w. (None, w)), feResize = (\<lambda>_ w. (None, w))\<rparr>,
     eC = \<lparr>clNew = (\<lambda>_. None), clGetReplica = (\<lambda>_ w. (Inr lab_info, w)), clRevert = (\<lambda>_ _ _ w. (None, w)),
       clPrepareRemoveDisk = (\<lambda>_ _ w. (Inr [], w)), clRemoveDisk = (\<lambda>_ _ w. (None, w)), clReplaceDisk = (\<lambda>_ _ _ w. (None, w)),
       clCoalesce = (\<lambda>_ _ _ w. (None, w)), clLaunchReceiver = (\<lambda>_ _ w. (Inl ErrNotExist, w)), clSendFile = (\<lambda>_ _ _ _ w. (None, w))\<rparr>,
     eUUID = (\<lambda>w. (''u'', w)), eNow = (\<lambda>w. (''now'', w)), eCheckReplicationFactor = 1, eRAMInBytes = ParseInt\<rparr>"

definition lab_ctl :: "int \<Rightarrow> (string \<times> mode) list \<Rightarrow> nat controller" where
  "lab_ctl rf rs = (NewController ''vol'' rf)\<lparr>csize := 8192, csectorSize := 4096,
     replicas := map (\<lambda>(a, m). \<lparr>Address = a, Mode = m\<rparr>) rs,
     backend := buildReadWriters (replicator0\<lparr>backends := map (\<lambda>(i, (a, m)). (a, \<lparr>bw_backend = i, bw_mode = m\<rparr>)) (enumerate 0 rs)\<rparr>),
     ReadOnly := False\<rparr>"

lemmas lab_defs = lab_ops_def lab_env_def lab_ctl_def NewController_def c_reset_def replicator0_def enumerate_eq_zip
  buildReadWriters_def rp_reset_def live_def readable_def upt_rec

section \<open>The state of the controller\<close>

text \<open>
  C5. In every state that the controller reaches, by any sequence of its operations and whatever its
  backends answer: no two replicas have the same address, the replicator knows exactly the replicas of the
  controller, with the same modes, at most one replica is being rebuilt, and reads go exactly to the
  replicas in mode \<open>RW\<close>.
\<close>

theorem controller_invariant:
  assumes "ctl_reachable E (c, w)"
  shows "distinct (map Address (replicas c @ quorumReplicas c)) \<and>
    map (\<lambda>(a, b). (a, bw_mode b)) (backends (backend c)) = map (\<lambda>r. (Address r, Mode r)) (replicas c) \<and>
    length (filter (\<lambda>r. Mode r = WO) (replicas c)) \<le> 1 \<and>
    (backendsAvailable (backend c) \<longrightarrow>
       readers (backend c) = map (bw_backend \<circ> snd) (filter (\<lambda>(_, b). bw_mode b = RW) (backends (backend c))))"
proof -
  have inv: "ctl_inv c" using ctl_reachable_inv [OF assms] by simp
  have "wo_count (reps rs) = length (filter (\<lambda>r. Mode r = WO) rs)" for rs
    by (simp add: wo_count_def reps_def filter_map comp_def)
  then show ?thesis using inv by (auto simp: ctl_inv_def entries_def reps_def rp_ok_def built_def readable_def)
qed

theorem controller_invariant_witness:
  "map (\<lambda>(a, b). (a, bw_mode b)) (backends (backend (fst (snd (addReplica_commit lab_env 0 ''x'' False (NewController ''v'' 1) []))))) =
   [(''x'', WO)]"
proof -
  let ?s = "addReplica_commit lab_env 0 ''x'' False (NewController ''v'' 1) []"
  have "ctl_step lab_env (NewController ''v'' 1, []) (snd ?s)"
    by (cases ?s) (auto intro: ctl_step.st_add_commit)
  then have r: "ctl_reachable lab_env (fst (snd ?s), snd (snd ?s))" unfolding ctl_reachable_def by auto
  have "replicas (fst (snd ?s)) = [\<lparr>Address = ''x'', Mode = WO\<rparr>]"
    by (simp add: addReplica_commit_def addReplicaNoLock_def canAdd_def hasReplica_def hasWOReplica_def lab_defs
        UpdateVolStatus_def UpdateCheckpoint_def rw_count_def Let_def)
  then show ?thesis using controller_invariant [OF r] by simp
qed

text \<open>
  The volume takes writes exactly when more than half of the replicas that it should have, data and
  quorum replicas together, are in mode \<open>RW\<close>.
\<close>

theorem status_is_majority:
  assumes "0 \<le> ReplicationFactor c + quorumReplicaCount c"
  shows "ReadOnly (UpdateVolStatus c) \<longleftrightarrow>
    2 * int (length (filter (\<lambda>r. Mode r = RW) (replicas c @ quorumReplicas c))) \<le> ReplicationFactor c + quorumReplicaCount c"
proof -
  have "(ReplicationFactor c + quorumReplicaCount c) sdiv 2 = (ReplicationFactor c + quorumReplicaCount c) div 2"
    using assms by (simp add: sdiv_nonneg)
  then show ?thesis by (simp add: UpdateVolStatus_def rw_count_def Let_def) linarith
qed

theorem status_is_majority_witness:
  "ReadOnly (UpdateVolStatus (lab_ctl 3 [(''a'', RW), (''b'', WO)])) \<and> \<not> ReadOnly (UpdateVolStatus (lab_ctl 3 [(''a'', RW), (''b'', RW)]))"
  using status_is_majority [of "lab_ctl 3 [(''a'', RW), (''b'', WO)]"] status_is_majority [of "lab_ctl 3 [(''a'', RW), (''b'', RW)]"]
  by (simp add: lab_ctl_def NewController_def c_reset_def)

section \<open>Writes\<close>

text \<open>
  C3. A write that the controller acknowledges with its full length has been carried out by more than half
  of the replicas that take writes, and by more than half of data and quorum replicas together.
\<close>

theorem acknowledged_write_majority:
  assumes inv: "ctl_inv c" and b: "b \<noteq> []" and st: "c_WriteAt E b off c w = ((int (length b), None), c', w')"
    and ws: "ws = map (bw_backend \<circ> snd) (live (backends (backend c)))" and us: "us = map (bw_backend \<circ> snd) (live (quorumBackends (backend c)))"
    and r1: "run_all (\<lambda>x. bWriteAt (eB E) x b off) ws w = (es, w1)" and r2: "run_all (\<lambda>x. bWriteAt (eB E) x [] 0) us w1 = (qs, w2)"
  shows "length ws < 2 * length (filter (\<lambda>e. e = None) es) \<and>
    length ws + length us < 2 * (length (filter (\<lambda>e. e = None) es) + length (filter (\<lambda>e. e = None) qs))"
proof -
  obtain n err w3 where rp: "rp_WriteAt (eB E) b off (backend c) w = ((n, err), w3)" by (metis prod.exhaust)
  have n: "n = int (length b)"
    using st rp by (auto simp: c_WriteAt_def split: if_splits option.splits prod.splits sum.splits)
  have av: "backendsAvailable (backend c)"
  proof (rule ccontr)
    assume "\<not> ?thesis"
    then have "n = 0" using rp by (auto simp: rp_WriteAt_def rp_through_def)
    then show False using n b by simp
  qed
  then have bt: "built (backend c)" "readable (backends (backend c)) \<noteq> []" using inv by (auto simp: ctl_inv_def rp_ok_def built_def)
  let ?m = "\<lparr>writers = ws, updaters = us\<rparr>"
  have "rwriter (backend c) = Some ?m" using bt(1) ws us by (simp add: built_def)
  then obtain e3 where mw: "mw_WriteAt (eB E) ?m b off w = ((n, e3), w3)"
    using rp av by (auto simp: rp_WriteAt_def rp_through_def split: option.splits prod.splits)
  have l: "length es = length ws" "length qs = length us" using length_run_all r1 r2 by (metis fst_conv)+
  have "0 < length ws"
  proof -
    have "set (readable (backends (backend c))) \<subseteq> set (live (backends (backend c)))" by (auto simp: readable_def live_def)
    then show ?thesis using bt(2) ws by (cases "live (backends (backend c))") auto
  qed
  moreover have "n \<noteq> 0" using n b by simp
  ultimately show ?thesis
    using mw r1 r2 l err_count_le [of es] err_count_le [of qs] successes [of es] successes [of qs]
    by (auto simp: mw_WriteAt_def Let_def split: if_splits)
qed

theorem acknowledged_write_majority_witness:
  "length [0 :: nat, 1, 2] < 2 * length (filter (\<lambda>e. e = None) [None, Some EOF, None])"
proof -
  let ?c = "lab_ctl 3 [(''a'', RW), (''b'', RW), (''c'', RW)]"
  have i: "ctl_inv ?c" by (simp add: ctl_inv_def rp_ok_def lab_ctl_def entries_def reps_def wo_count_def NewController_def c_reset_def replicator0_def enumerate_eq_zip upt_rec)
  have w: "c_WriteAt lab_env [1] 0 ?c [1] =
      ((int (length [1 :: byte]), None), fst (snd (c_WriteAt lab_env [1] 0 ?c [1])), snd (snd (c_WriteAt lab_env [1] 0 ?c [1])))"
    by code_simp
  have r: "run_all (\<lambda>x. bWriteAt (eB lab_env) x [1] 0) [0, 1, 2] [1] = ([None, Some EOF, None], [1])"
      "run_all (\<lambda>x. bWriteAt (eB lab_env) x [] 0) [] [1] = ([], [1])"
      "[0, 1, 2] = map (bw_backend \<circ> snd) (live (backends (backend ?c)))" "[] = map (bw_backend \<circ> snd) (live (quorumBackends (backend ?c)))"
    by (simp_all add: lab_defs)
  show ?thesis using acknowledged_write_majority [OF i _ w r(3,4) r(1) r(2)] by simp
qed

lemma i64_over: "2 ^ 63 \<le> x \<Longrightarrow> x < 2 ^ 64 + 2 ^ 63 \<Longrightarrow> i64 x = x - 2 ^ 64"
proof -
  assume x: "2 ^ 63 \<le> x" "x < 2 ^ 64 + 2 ^ 63"
  have "(x + 2 ^ 63) mod 2 ^ 64 = (x + 2 ^ 63 - 2 ^ 64 + 2 ^ 64) mod 2 ^ 64" by (simp only: diff_add_cancel)
  also have "\<dots> = (x + 2 ^ 63 - 2 ^ 64) mod 2 ^ 64" by (rule mod_add_self2)
  also have "\<dots> = x + 2 ^ 63 - 2 ^ 64" by (rule mod_pos_pos_trivial) (use x in simp_all)
  finally show ?thesis by (simp add: i64_def)
qed

text \<open>
  C29. The range check of a write computes the end of the request in 64 bits: a request whose end is
  representable is refused exactly when it reaches beyond the volume, and one whose end wraps around is
  always handed to the replicas.
\<close>

theorem write_range_check:
  assumes "\<not> ReadOnly c" and "0 \<le> off" and "off < 2 ^ 63" and "int (length b) < 2 ^ 63" and "0 \<le> csize c"
  shows "c_WriteAt E b off c w =
    (if csize c < off + int (length b) \<and> off + int (length b) < 2 ^ 63
     then ((0, Some (Err ''EOF: Write is beyond volume size'')), c, w)
     else case rp_WriteAt (eB E) b off (backend c) w of
       ((n, None), w1) \<Rightarrow> ((n, None), c, w1)
     | ((n, Some e), w1) \<Rightarrow>
         (case after_error E e c w1 of
            (Inl p, c2, w2) \<Rightarrow> ((0, Some p), c2, w2)
          | (Inr errh, c2, w2) \<Rightarrow> ((n, errh), c2, w2)))"
proof -
  have "i64 (off + int (length b)) > csize c \<longleftrightarrow> csize c < off + int (length b) \<and> off + int (length b) < 2 ^ 63"
  proof (cases "off + int (length b) < 2 ^ 63")
    case True then show ?thesis using assms by (simp add: i64_id)
  next
    case False
    then have "i64 (off + int (length b)) = off + int (length b) - 2 ^ 64" using assms by (intro i64_over) auto
    then show ?thesis using assms False by simp
  qed
  then show ?thesis using assms by (auto simp: c_WriteAt_def split: prod.splits option.splits sum.splits)
qed

theorem write_range_check_witness:
  "fst (c_WriteAt lab_env [1, 2] 8191 (lab_ctl 1 [(''a'', RW)]) []) = (0, Some (Err ''EOF: Write is beyond volume size'')) \<and>
   fst (c_WriteAt lab_env [1, 2] (2 ^ 63 - 1) (lab_ctl 1 [(''a'', RW)]) []) = (2, None)"
  using write_range_check [of "lab_ctl 1 [(''a'', RW)]" 8191 "[1, 2]" lab_env "[]"]
    write_range_check [of "lab_ctl 1 [(''a'', RW)]" "2 ^ 63 - 1" "[1, 2]" lab_env "[]"]
  by (simp add: lab_defs rp_WriteAt_def rp_through_def mw_WriteAt_def err_count_def Let_def)

text \<open>
  C30. A write that the replicas do not carry out by majority is not always reported: when two of three
  replicas fail, the caller gets the length 0 and no error, and the replicas that failed are dropped.
\<close>

theorem lost_majority_unreported:
  "\<exists>c. ctl_inv c \<and> \<not> ReadOnly c \<and>
     fst (c_WriteAt lab_env [1] 0 c [1, 2]) = (0, None) \<and>
     map Address (replicas (fst (snd (c_WriteAt lab_env [1] 0 c [1, 2])))) = [''a'']"
proof (intro exI conjI)
  let ?c = "lab_ctl 3 [(''a'', RW), (''b'', RW), (''c'', RW)]"
  show "ctl_inv ?c" by (simp add: ctl_inv_def rp_ok_def lab_ctl_def entries_def reps_def wo_count_def NewController_def c_reset_def replicator0_def enumerate_eq_zip upt_rec)
  show "\<not> ReadOnly ?c" by (simp add: lab_ctl_def)
  show "fst (c_WriteAt lab_env [1] 0 ?c [1, 2]) = (0, None)" by code_simp
  show "map Address (replicas (fst (snd (c_WriteAt lab_env [1] 0 ?c [1, 2])))) = [''a'']" by code_simp
qed

text \<open>
  A request that is refused changes nothing: a write while the volume is read-only, and a write or a
  read that starts before the volume, have an error, and neither the controller nor a replica is touched.
\<close>

theorem refused_requests:
  "(ReadOnly c \<longrightarrow>
      c_WriteAt E b off c w = ((0, Some (Err ''Mode: ReadOnly'')), c, w) \<and>
      c_Sync E c w = ((-1, Some (Err ''Mode: ReadOnly'')), c, w) \<and>
      c_Unmap E off len c w = ((-1, Some (Err ''Mode: ReadOnly'')), c, w)) \<and>
   (off < 0 \<longrightarrow>
      c_ReadAt E b off c w = (((0, Some (Err ''EOF: Read is beyond volume size'')), b), c, w) \<and>
      (\<exists>e. c_WriteAt E b off c w = ((0, Some e), c, w)))"
  by (simp add: c_WriteAt_def c_ReadAt_def c_Sync_def c_Unmap_def c_through_def)

theorem refused_requests_witness:
  "fst (c_Sync lab_env (NewController ''vol'' 3) []) = (-1, Some (Err ''Mode: ReadOnly'')) \<and>
   fst (fst (c_ReadAt lab_env [0] (-1) (NewController ''vol'' 3) [])) = (0, Some (Err ''EOF: Read is beyond volume size''))"
  using refused_requests [of "NewController ''vol'' 3" lab_env "[0]" "-1" "[]"] by (simp add: NewController_def c_reset_def)

section \<open>Reads\<close>

text \<open>The loop over the readers ends at one that answers, and then has errors only of the readers before it.\<close>

lemma read_loop_finds:
  assumes ok: "\<And>w buf. P w \<Longrightarrow> \<exists>n' buf' w'. bReadAt B (readers r ! g) buf off w = (((n', None), buf'), w')"
    and keep: "\<And>x w buf. P w \<Longrightarrow> P (snd (bReadAt B x buf off w))" and P: "P w"
    and g: "g < length (readers r)" and i: "i < length (readers r)"
    and st: "rp_read_loop B r off k i n buf es w = ((n', es', buf'), w')"
    and k: "(g + length (readers r) - i) mod length (readers r) < k"
  shows "\<exists>d. es' = es @ d \<and> (readerIndex r ! g \<in> fst ` set d \<longrightarrow> (\<exists>j<length (readers r). j \<noteq> g \<and> readerIndex r ! j = readerIndex r ! g))"
  using i st k P
proof (induction k arbitrary: i n buf es w)
  case (Suc k)
  let ?N = "length (readers r)"
  obtain m e b1 w1 where c: "bReadAt B (readers r ! i) buf off w = (((m, e), b1), w1)" by (metis prod.exhaust)
  show ?case
  proof (cases e)
    case None
    then show ?thesis using Suc.prems(2) c by (auto intro: exI [of _ "[]"])
  next
    case (Some x)
    then have ig: "i \<noteq> g" using ok [OF Suc.prems(4), of buf] c by auto
    have P1: "P w1" using keep [OF Suc.prems(4), of "readers r ! i" buf] c by simp
    let ?i = "(i + 1) mod ?N"
    have l: "rp_read_loop B r off k ?i m b1 (es @ [(readerIndex r ! i, x)]) w1 = ((n', es', buf'), w')" using Suc.prems(2) c Some by simp
    have i': "?i < ?N" by (rule mod_less_divisor) (use g in linarith)
    have "(g + ?N - ?i) mod ?N < k"
    proof -
      have "(g + ?N - i) mod ?N = Suc ((g + ?N - ?i) mod ?N)"
      proof (cases "i < g")
        case True
        then have "?i = i + 1" "(g + ?N - i) mod ?N = g - i" "(g + ?N - (i + 1)) mod ?N = g - (i + 1)"
          using g by (simp_all add: mod_if)
        then show ?thesis using True by simp
      next
        case False
        then have "g < i" using ig by simp
        show ?thesis
        proof (cases "i + 1 = ?N")
          case True
          then have "?i = 0" "(g + ?N - i) mod ?N = g + 1 mod ?N" using \<open>g < i\<close> by (auto simp: mod_if)
          then show ?thesis using True \<open>g < i\<close> g by (simp add: mod_if)
        next
          case False
          then have "?i = i + 1" "(g + ?N - i) mod ?N = g + ?N - i" "(g + ?N - (i + 1)) mod ?N = g + ?N - (i + 1)"
            using \<open>g < i\<close> Suc.prems(1) by (simp_all add: mod_if)
          then show ?thesis using Suc.prems(1) by simp
        qed
      qed
      then show ?thesis using Suc.prems(3) by simp
    qed
    from Suc.IH [OF i' l this P1] obtain d where d: "es' = (es @ [(readerIndex r ! i, x)]) @ d"
      "readerIndex r ! g \<in> fst ` set d \<longrightarrow> (\<exists>j<?N. j \<noteq> g \<and> readerIndex r ! j = readerIndex r ! g)" by blast
    show ?thesis by (rule exI [of _ "(readerIndex r ! i, x) # d"]) (use d ig Suc.prems(1) in auto)
  qed
qed simp

text \<open>An error of some replicas is not an error of the request while another replica is \<open>RW\<close>.\<close>

lemma after_error_None:
  assumes inv: "ctl_inv c" and fe: "eFrontend E \<noteq> None" and es: "es \<noteq> []" and r: "r \<in> set (replicas c)" "Mode r = RW" "Address r \<notin> fst ` set es"
  shows "\<exists>c' w'. after_error E (BackendError es) c w = (Inr None, c', w')"
proof -
  obtain e1 c1 w1 where 1: "handleErrorNoLock E (Some (BackendError es)) c w = (e1, c1, w1)" by (metis prod_cases3)
  note h = handleErrorNoLock_inv [OF inv 1]
  have "r \<in> set (mark (fst ` set es) (replicas c))" using r by (force simp: mark_def)
  then have "e1 = None" using h es r(2) by (auto simp: list_ex_iff)
  moreover obtain c2 w2 where "remove_all E (error_addresses (BackendError es)) c1 w1 = (None, c2, w2)"
    using remove_all_None [OF fe] by (metis prod.collapse)
  ultimately show ?thesis using 1 by (auto simp: after_error_def)
qed

lemma rp_ReadAt_one_answers:
  assumes bt: "built r" and d: "distinct (map fst (backends r))" and a: "(a, bw) \<in> set (backends r)" "bw_mode bw = RW"
    and ok: "\<And>w buf. P w \<Longrightarrow> \<exists>n buf' w'. bReadAt B (bw_backend bw) buf off w = (((n, None), buf'), w')"
    and keep: "\<And>x w buf. P w \<Longrightarrow> P (snd (bReadAt B x buf off w))" and P: "P w"
  shows "\<exists>n es buf' r' w'. rp_ReadAt B buf off r w = (((n, if es \<noteq> [] then Some (BackendError es) else None), buf'), r', w') \<and>
    a \<notin> fst ` set es \<and> (\<exists>k. r' = r\<lparr>next_reader := k\<rparr>)"
proof -
  let ?R = "readable (backends r)"
  have rs: "readers r = map (bw_backend \<circ> snd) ?R" "readerIndex r = map fst ?R" "backendsAvailable r = (?R \<noteq> [])"
    using bt by (simp_all add: built_def)
  have "(a, bw) \<in> set ?R" using a by (auto simp: readable_def)
  then obtain g where g: "g < length ?R" "?R ! g = (a, bw)" by (metis in_set_conv_nth)
  have dr: "distinct (map fst ?R)" using d by (simp add: readable_def distinct_map_filter)
  let ?N = "length (readers r)" and ?i = "(next_reader r + 1) mod length (readers r)"
  have N: "?N = length ?R" "0 < ?N" using rs g by auto
  obtain n es b w1 where l: "rp_read_loop B r off ?N ?i 0 buf [] w = ((n, es, b), w1)" by (metis prod.exhaust)
  have i: "?i < ?N" using N(2) by simp
  have k: "(g + ?N - ?i) mod ?N < ?N" using N(2) by simp
  have gd: "\<And>w buf. P w \<Longrightarrow> \<exists>n' buf' w'. bReadAt B (readers r ! g) buf off w = (((n', None), buf'), w')" using ok g rs by simp
  from read_loop_finds [where P = P, OF gd keep P _ i l k] g N(1)
  have "readerIndex r ! g \<in> fst ` set es \<longrightarrow> (\<exists>j<?N. j \<noteq> g \<and> readerIndex r ! j = readerIndex r ! g)" by auto
  moreover have "readerIndex r ! j \<noteq> readerIndex r ! g" if "j < ?N" "j \<noteq> g" for j
    using dr that g N(1) nth_eq_iff_index_eq [of "map fst ?R" j g] unfolding rs(2) by simp
  ultimately have "a \<notin> fst ` set es" using g rs(2) by auto
  moreover have "backendsAvailable r" using rs g by auto
  ultimately show ?thesis using l by (auto simp: rp_ReadAt_def Let_def)
qed

text \<open>
  C10. As long as one replica in mode \<open>RW\<close> answers, a read inside of the volume is answered without an
  error, whatever the other replicas do; \<open>P\<close> are the worlds in which that replica is well, and reads
  do not lead out of them.
\<close>

theorem read_is_answered:
  assumes inv: "ctl_inv c" and fe: "eFrontend E \<noteq> None" and rng: "0 \<le> off" "i64 (off + int (length b)) \<le> csize c"
    and a: "(a, bw) \<in> set (backends (backend c))" "bw_mode bw = RW"
    and ok: "\<And>w buf. P w \<Longrightarrow> \<exists>n buf' w'. bReadAt (eB E) (bw_backend bw) buf off w = (((n, None), buf'), w')"
    and keep: "\<And>x w buf. P w \<Longrightarrow> P (snd (bReadAt (eB E) x buf off w))" and P: "P w"
  shows "snd (fst (fst (c_ReadAt E b off c w))) = None"
proof -
  have rp: "rp_ok (backend c)" and en: "entries (backend c) = reps (replicas c)" using inv by (auto simp: ctl_inv_def)
  have bt: "built (backend c)" and d: "distinct (map fst (backends (backend c)))" using rp a by (auto simp: rp_ok_def)
  have "(a, bw_mode bw) \<in> set (entries (backend c))" using a(1) by (force simp: entries_def)
  then have "(a, RW) \<in> set (reps (replicas c))" using a(2) en by simp
  then obtain r where r: "r \<in> set (replicas c)" "Mode r = RW" "Address r = a" by (auto simp: reps_def)
  obtain n es buf' r' w' k where rd: "rp_ReadAt (eB E) b off (backend c) w = (((n, if es \<noteq> [] then Some (BackendError es) else None), buf'), r', w')"
    "a \<notin> fst ` set es" "r' = (backend c)\<lparr>next_reader := k\<rparr>"
    using rp_ReadAt_one_answers [where P = P, OF bt d a ok keep P, of b] by blast
  have i': "ctl_inv (c\<lparr>backend := r'\<rparr>)" unfolding rd(3) using inv by (simp add: ctl_inv_next)
  have "\<exists>c2 w2. es \<noteq> [] \<longrightarrow> after_error E (BackendError es) (c\<lparr>backend := r'\<rparr>) w' = (Inr None, c2, w2)"
    using after_error_None [OF i' fe _ _ r(2), of es w'] r rd(2) by auto
  then show ?thesis using rd(1) r rng by (cases "replicas c") (auto simp: c_ReadAt_def)
qed

theorem read_is_answered_witness:
  "snd (fst (fst (c_ReadAt lab_env [0] 0 (lab_ctl 3 [(''a'', RW), (''b'', RW), (''c'', WO)]) [1]))) = None"
proof (rule read_is_answered [where P = "\<lambda>w. w = [1]" and a = "''a''" and bw = "\<lparr>bw_backend = 0, bw_mode = RW\<rparr>"])
  show "ctl_inv (lab_ctl 3 [(''a'', RW), (''b'', RW), (''c'', WO)])"
    by (simp add: ctl_inv_def rp_ok_def lab_ctl_def entries_def reps_def wo_count_def NewController_def c_reset_def replicator0_def enumerate_eq_zip upt_rec)
qed (auto simp: lab_defs i64_def)

end
