(* ===== verification/MemberProps.thy ===== *)
theory MemberProps
  imports ControllerProps
begin

text \<open>
  Who belongs to the volume: registration and the election of the replica that starts it, the limit on
  the number of replicas, the check before a rebuilt replica is trusted, and the start of the volume.
\<close>

section \<open>Election\<close>

text \<open>
  The result of the loop does not depend on the order in which the map of registered replicas is walked:
  the replica that registers, if anybody is ahead of the one elected so far.
\<close>

lemma elect_eq:
  "elect regs self as mx = (if \<exists>a\<in>set as. rev_count regs mx < rev_count regs a then self else mx)"
proof (induction as arbitrary: mx)
  case (Cons a as)
  show ?case by (simp add: Cons)
qed simp

lemma set_put_reg: "set (put_reg r regs) \<subseteq> insert (rrAddress r, r) (set regs)"
  unfolding put_reg_def by (induction regs) auto

lemma map_of_filter_kept: "map_of xs k = Some v \<Longrightarrow> P (k, v) \<Longrightarrow> map_of (filter P xs) k = Some v"
  by (induction xs) (auto split: if_splits)

lemma half_below: "(n :: int) div 2 + 1 \<le> m \<longleftrightarrow> n < 2 * m"
  by presburger

lemma distinct_filter_keys: "distinct (map fst xs) \<Longrightarrow> distinct (map fst (filter P xs))"
  by (induction xs) auto

definition lab_reg :: "string \<Rightarrow> int \<Rightarrow> regReplica" where
  "lab_reg a n = \<lparr>rrAddress = a, rrUUID = ''uuid-'' @ a, rrUpTime = 0, RevCount = n, RepType = ''Backend'', RepState = ''closed''\<rparr>"

definition register_all :: "regReplica list \<Rightarrow> nat controller \<Rightarrow> nat controller" where
  "register_all rs c = fold (\<lambda>r c. fst (snd (registerReplica lab_env r c []))) rs c"

text \<open>A registration that takes part in the election.\<close>

definition electable :: "regReplica \<Rightarrow> 'b controller \<Rightarrow> bool" where
  "electable register c =
     (rrUUID register \<noteq> [] \<and> RepType register \<noteq> ''quorum'' \<and> RepState register \<noteq> ''rebuilding'' \<and>
      rrAddress register \<notin> fst ` set (RegisteredQuorumReplicas c))"

lemma electable_map: "electable register c \<Longrightarrow> map_of (RegisteredQuorumReplicas c) (rrAddress register) = None"
  by (simp add: electable_def map_of_eq_None_iff)



definition lab_regs :: "nat controller" where
  "lab_regs = (NewController ''vol'' 3)\<lparr>RegisteredReplicas := [(''a'', lab_reg ''a'' 5)], MaxRevReplica := ''a''\<rparr>"


text \<open>
  C24. The election does not always find the replica with the latest data.  When the leader that has been
  signalled does not answer any more, the replica that registers next becomes the leader, and is signalled to
  start as soon as there is a majority, although another registered replica \<open>x\<close> is ahead of it and
  stays registered.
\<close>

theorem election_can_pick_stale:
  assumes "electable register c" and "replicas c = []" and "StartSignalled c"
    and "rrAddress register \<noteq> MaxRevReplica c" and dead: "VerifyReplicaAlive E c w = (False, w1)"
    and sig: "fSignalToAdd (eF E) (rrAddress register) ''start'' w1 = (None, w2)"
    and x: "map_of (RegisteredReplicas c) x = Some rx" "x \<noteq> MaxRevReplica c" "x \<noteq> rrAddress register"
      "rrUUID rx \<noteq> rrUUID register" "RevCount register < RevCount rx"
    and nn: "0 \<le> ReplicationFactor c" "0 \<le> quorumReplicaCount c"
  shows "\<exists>c' w'. registerReplica E register c w = (None, c', w') \<and> MaxRevReplica c' = rrAddress register \<and>
    (StartSignalled c' \<longleftrightarrow> ReplicationFactor c < 2 * int (length (RegisteredReplicas c')) \<and>
       quorumReplicaCount c + ReplicationFactor c < 2 * int (length (RegisteredReplicas c') + length (RegisteredQuorumReplicas c'))) \<and>
    rev_count (RegisteredReplicas c') (MaxRevReplica c') < rev_count (RegisteredReplicas c') x"
proof -
  let ?o = "filter (\<lambda>(a, reg). \<not> (rrUUID reg = rrUUID register \<and> a \<noteq> rrAddress register)) (RegisteredReplicas c)"
  let ?regs = "filter (\<lambda>(a, _). a \<noteq> MaxRevReplica c) (put_reg register ?o)"
  define regs where "regs = ?regs"
  define c2 where "c2 = c\<lparr>RegisteredReplicas := regs, MaxRevReplica := [], StartSignalled := False\<rparr>"
  have st: "registerReplica E register c w = elect_and_signal E register c2 w1"
    using assms(1-4) dead electable_map [OF assms(1)]
    by (simp add: registerReplica_def electable_def Let_def VerifyReplicaAlive_def c2_def regs_def)
  have sd: "ReplicationFactor c sdiv 2 = ReplicationFactor c div 2"
      "(quorumReplicaCount c + ReplicationFactor c) sdiv 2 = (quorumReplicaCount c + ReplicationFactor c) div 2"
    using nn by (simp_all add: sdiv_nonneg)
  have el: "elect_and_signal E register c2 w1 =
    (if ReplicationFactor c < 2 * int (length regs) \<and> quorumReplicaCount c + ReplicationFactor c < 2 * int (length regs + length (RegisteredQuorumReplicas c))
     then (None, c2\<lparr>MaxRevReplica := rrAddress register, StartSignalled := True\<rparr>, w2) else (None, c2\<lparr>MaxRevReplica := rrAddress register\<rparr>, w1))"
    using assms(1) sig by (simp add: elect_and_signal_def electable_def Let_def elect_eq signalReplica_def c2_def sd half_below)
  have "map_of ?o x = Some rx" using x by (intro map_of_filter_kept) auto
  then have "map_of (put_reg register ?o) x = Some rx" using x(3) by (simp add: put_reg_def update_conv')
  then have mx: "map_of regs x = Some rx" unfolding regs_def using x(2) by (intro map_of_filter_kept) auto
  have "map_of (put_reg register ?o) (rrAddress register) = Some register" by (simp add: put_reg_def update_conv')
  then have mr: "map_of regs (rrAddress register) = Some register" unfolding regs_def using assms(4) by (intro map_of_filter_kept) auto
  show ?thesis unfolding st el using mx mr x(5) by (simp add: rev_count_def c2_def)
qed

theorem election_can_pick_stale_witness:
  "let c = register_all [lab_reg ''a'' 5, lab_reg ''b'' 10] (NewController ''vol'' 3) in
   \<exists>c' w'. registerReplica lab_env (lab_reg ''c'' 3) c [] = (None, c', w') \<and> MaxRevReplica c' = ''c'' \<and> StartSignalled c' \<and>
     rev_count (RegisteredReplicas c') (MaxRevReplica c') < rev_count (RegisteredReplicas c') ''a''"
proof -
  let ?c = "register_all [lab_reg ''a'' 5, lab_reg ''b'' 10] (NewController ''vol'' 3)" and ?r = "lab_reg ''c'' 3"
  have h: "electable ?r ?c" "replicas ?c = []" "StartSignalled ?c" "rrAddress ?r \<noteq> MaxRevReplica ?c"
      "VerifyReplicaAlive lab_env ?c [] = (False, [])" "fSignalToAdd (eF lab_env) (rrAddress ?r) ''start'' [] = (None, [])"
      "map_of (RegisteredReplicas ?c) ''a'' = Some (lab_reg ''a'' 5)" "''a'' \<noteq> MaxRevReplica ?c" "''a'' \<noteq> rrAddress ?r"
      "rrUUID (lab_reg ''a'' 5) \<noteq> rrUUID ?r" "RevCount ?r < RevCount (lab_reg ''a'' 5)" "0 \<le> ReplicationFactor ?c" "0 \<le> quorumReplicaCount ?c"
    by code_simp+
  have s: "StartSignalled (fst (snd (registerReplica lab_env ?r ?c [])))" by code_simp
  from election_can_pick_stale [OF h] s show ?thesis unfolding Let_def by (auto simp: lab_reg_def)
qed

section \<open>The signal to start\<close>

text \<open>The numbers that \<open>registerReplica\<close> compares before it signals a replica to start.\<close>

definition registered_majority :: "'b controller \<Rightarrow> (string \<times> regReplica) list \<Rightarrow> bool" where
  "registered_majority c regs =
     (ReplicationFactor c < 2 * int (length regs) \<and>
      quorumReplicaCount c + ReplicationFactor c < 2 * int (length regs + length (RegisteredQuorumReplicas c)))"

lemma alive_loop_unseen:
  assumes "\<forall>a w. sig (snd (fVerifyReplicaAlive (eF E) a w)) = sig w"
  shows "sig (snd (alive_loop E a n w)) = sig w"
proof (induction n arbitrary: w)
  case (Suc n)
  obtain b w1 where v: "fVerifyReplicaAlive (eF E) a w = (b, w1)" by fastforce
  then have "sig w1 = sig w" using assms by (metis snd_conv)
  then show ?case using Suc v by (cases b) simp_all
qed simp

lemma signalReplica_seen:
  assumes "\<forall>a x w. sig (snd (fSignalToAdd (eF E) a x w)) = sig w @ [a]" and "signalReplica E c w = (e, c', w')"
  shows "sig w' = sig w @ [MaxRevReplica c] \<and>
    RegisteredReplicas c' = (if e = None then RegisteredReplicas c else filter (\<lambda>(b, _). b \<noteq> MaxRevReplica c) (RegisteredReplicas c)) \<and>
    (e = None \<longrightarrow> MaxRevReplica c' = MaxRevReplica c) \<and>
    ReplicationFactor c' = ReplicationFactor c \<and> quorumReplicaCount c' = quorumReplicaCount c \<and>
    RegisteredQuorumReplicas c' = RegisteredQuorumReplicas c"
proof -
  obtain r w1 where s: "fSignalToAdd (eF E) (MaxRevReplica c) ''start'' w = (r, w1)" by fastforce
  then have "sig w1 = sig w @ [MaxRevReplica c]" using assms(1) by (metis snd_conv)
  then show ?thesis using assms(2) s by (cases r) (auto simp: signalReplica_def)
qed

text \<open>A moment of the registration at which a majority is registered, and what is left of it afterwards if \<open>a\<close> is signalled.\<close>

definition majority_signal :: "regReplica \<Rightarrow> 'b controller \<Rightarrow> 'b controller \<Rightarrow> string \<Rightarrow> bool" where
  "majority_signal register c c' a =
     (\<exists>regs. registered_majority c regs \<and> distinct (map fst regs) \<and>
        set regs \<subseteq> insert (rrAddress register, register) (set (RegisteredReplicas c)) \<and>
        (RegisteredReplicas c' = regs \<or> RegisteredReplicas c' = filter (\<lambda>(b, _). b \<noteq> a) regs))"

lemma elect_and_signal_seen:
  assumes seen: "\<forall>a x w. sig (snd (fSignalToAdd (eF E) a x w)) = sig w @ [a]" and st: "elect_and_signal E register k w = (e, c', w')"
    and nn: "0 \<le> ReplicationFactor c" "0 \<le> quorumReplicaCount c"
    and k: "ReplicationFactor k = ReplicationFactor c" "quorumReplicaCount k = quorumReplicaCount c"
      "RegisteredQuorumReplicas k = RegisteredQuorumReplicas c" "distinct (map fst (RegisteredReplicas k))"
      "set (RegisteredReplicas k) \<subseteq> insert (rrAddress register, register) (set (RegisteredReplicas c))"
  shows "\<exists>new. sig w' = sig w @ new \<and> (\<forall>a\<in>set new. majority_signal register c c' a)"
proof -
  let ?m = "elect (RegisteredReplicas k) (rrAddress register) (map fst (RegisteredReplicas k)) (if MaxRevReplica k = [] then rrAddress register else MaxRevReplica k)"
  have sd: "ReplicationFactor c sdiv 2 = ReplicationFactor c div 2"
      "(quorumReplicaCount c + ReplicationFactor c) sdiv 2 = (quorumReplicaCount c + ReplicationFactor c) div 2"
    using nn by (simp_all add: sdiv_nonneg)
  consider "w' = w" | "signalReplica E (k\<lparr>MaxRevReplica := ?m\<rparr>) w = (e, c', w')" "registered_majority c (RegisteredReplicas k)"
    using st by (auto simp: elect_and_signal_def Let_def registered_majority_def sd k(1-3) half_below split: if_splits)
  then show ?thesis
  proof cases
    case 1 then show ?thesis by (intro exI [of _ "[]"]) simp
  next
    case 2
    note s = signalReplica_seen [OF seen 2(1)]
    then have "majority_signal register c c' ?m"
      unfolding majority_signal_def using 2(2) k(4,5) by (intro exI [of _ "RegisteredReplicas k"]) (simp split: if_splits)
    then show ?thesis using s by (intro exI [of _ "[?m]"]) simp
  qed
qed

text \<open>The ways through \<open>registerReplica\<close>, with \<open>c1\<close> the controller that knows the registering replica.\<close>

definition with_reg :: "regReplica \<Rightarrow> 'b controller \<Rightarrow> 'b controller" where
  "with_reg register c = c\<lparr>RegisteredReplicas := put_reg register
     (filter (\<lambda>(a, reg). \<not> (rrUUID reg = rrUUID register \<and> a \<noteq> rrAddress register)) (RegisteredReplicas c))\<rparr>"

lemma registerReplica_ways:
  assumes "registerReplica E register c w = (e, c', w')"
  obtains "w' = w" | "elect_and_signal E register (with_reg register c) w = (e, c', w')"
    | "StartSignalled c" "rrAddress register = MaxRevReplica c" "signalReplica E (with_reg register c) w = (e, c', w')"
    | c2 w2 where "StartSignalled c" "rrAddress register = MaxRevReplica c" "signalReplica E (with_reg register c) w = (None, c2, w2)"
        "elect_and_signal E register c2 w2 = (e, c', w')"
    | "w' = snd (alive_loop E (MaxRevReplica c) 3 w)"
    | "elect_and_signal E register ((with_reg register c)\<lparr>RegisteredReplicas := filter (\<lambda>(a, _). a \<noteq> MaxRevReplica c) (RegisteredReplicas (with_reg register c)),
        MaxRevReplica := [], StartSignalled := False\<rparr>) (snd (alive_loop E (MaxRevReplica c) 3 w)) = (e, c', w')"
  using assms unfolding registerReplica_def Let_def VerifyReplicaAlive_def with_reg_def [symmetric]
  by (auto simp: with_reg_def split: if_splits option.splits prod.splits bool.splits)

lemma with_reg_frame:
  "ReplicationFactor (with_reg register c) = ReplicationFactor c" "quorumReplicaCount (with_reg register c) = quorumReplicaCount c"
  "RegisteredQuorumReplicas (with_reg register c) = RegisteredQuorumReplicas c" "MaxRevReplica (with_reg register c) = MaxRevReplica c"
  "set (RegisteredReplicas (with_reg register c)) \<subseteq> insert (rrAddress register, register) (set (RegisteredReplicas c))"
  "distinct (map fst (RegisteredReplicas c)) \<Longrightarrow> distinct (map fst (RegisteredReplicas (with_reg register c)))"
  unfolding with_reg_def using set_put_reg by (fastforce simp: put_reg_def intro: distinct_update distinct_filter_keys)+

text \<open>
  C22. Which replica a registration signals to start, with \<open>sig\<close> an observation of the world that
  records the signals sent.  Every signal goes to the leader that has been signalled before and registers
  again, or comes when the replicas registered at that moment are a majority: more than half of the data
  replicas, and with the registered quorum replicas more than half of all.  The registered replicas at that
  moment have different addresses and are the registering one and some of those registered before; they
  stay registered, but for the signalled one when the signal fails.
\<close>

theorem start_signal_needs_majority:
  assumes seen: "\<forall>a x w. sig (snd (fSignalToAdd (eF E) a x w)) = sig w @ [a]"
    and unseen: "\<forall>a w. sig (snd (fVerifyReplicaAlive (eF E) a w)) = sig w"
    and st: "registerReplica E register c w = (e, c', w')"
    and nn: "0 \<le> ReplicationFactor c" "0 \<le> quorumReplicaCount c" and d: "distinct (map fst (RegisteredReplicas c))"
  shows "\<exists>new. sig w' = sig w @ new \<and>
    (\<forall>a\<in>set new. (StartSignalled c \<and> a = MaxRevReplica c \<and> a = rrAddress register) \<or> majority_signal register c c' a)"
proof -
  note el = elect_and_signal_seen [OF seen _ nn] and fr = with_reg_frame [where register = register and c = c] and un = alive_loop_unseen [OF unseen]
  have some: ?thesis if "\<exists>new. sig w' = sig w @ new \<and> (\<forall>a\<in>set new. majority_signal register c c' a)" using that by blast
  from st show ?thesis
  proof (cases rule: registerReplica_ways)
    case 1 then show ?thesis by (intro exI [of _ "[]"]) simp
  next
    case 2 then show ?thesis using fr d by (intro some el)
  next
    case 3
    then show ?thesis using signalReplica_seen [OF seen 3(3)] fr by (intro exI [of _ "[MaxRevReplica c]"]) simp
  next
    case (4 c2 w2)
    note s = signalReplica_seen [OF seen 4(3)]
    have "\<exists>new. sig w' = sig w2 @ new \<and> (\<forall>a\<in>set new. majority_signal register c c' a)"
      using s fr d by (intro el [OF 4(4)]) simp_all
    then obtain new where "sig w' = sig w2 @ new" "\<forall>a\<in>set new. majority_signal register c c' a" by blast
    then show ?thesis using s fr 4(1,2) by (intro exI [of _ "MaxRevReplica c # new"]) simp
  next
    case 5 then show ?thesis using un by (intro exI [of _ "[]"]) simp
  next
    case 6
    have "\<exists>new. sig w' = sig (snd (alive_loop E (MaxRevReplica c) 3 w)) @ new \<and> (\<forall>a\<in>set new. majority_signal register c c' a)"
      using fr d by (intro el [OF 6]) (auto simp: distinct_filter_keys)
    then show ?thesis using un by (intro some) simp
  qed
qed

text \<open>An environment whose world is the list of the signals sent.\<close>

definition sig_ops :: "(string list, nat) backend_ops" where
  "sig_ops = \<lparr>
     bReadAt = (\<lambda>b buf off w. (((0, None), buf), w)), bWriteAt = (\<lambda>b p off w. ((int (length p), None), w)),
     bSync = (\<lambda>b w. ((0, None), w)), bUnmap = (\<lambda>b off len w. ((0, None), w)), bClose = (\<lambda>b w. (None, w)),
     bSnapshot = (\<lambda>b n u cr w. (None, w)), bGetReplicaChain = (\<lambda>b w. (Inr [], w)),
     bSetCheckpoint = (\<lambda>b s w. (None, w)), bResize = (\<lambda>b n s w. (None, w)), bSize = (\<lambda>b w. (Inr 8192, w)), bSectorSize = (\<lambda>b w. (Inr 4096, w)),
     bRemainSnapshots = (\<lambda>b w. (Inr 10, w)), bGetRevisionCounter = (\<lambda>b w. (Inr 5, w)), bGetCloneStatus = (\<lambda>b w. (Inr ''NA'', w)),
     bGetVolUsage = (\<lambda>b w. (Inl ErrNotExist, w)), bSetReplicaMode = (\<lambda>b m w. (None, w)), bSetRevisionCounter = (\<lambda>b n w. (None, w)),
     bSetRebuilding = (\<lambda>b r w. (None, w)), bStopMonitoring = (\<lambda>b w. w)\<rparr>"

definition sig_env :: "(string list, nat) env" where
  "sig_env = \<lparr>eB = sig_ops,
     eF = \<lparr>fCreate = (\<lambda>a w. (Inr 0, w)), fSignalToAdd = (\<lambda>a x w. (None, w @ [a])), fVerifyReplicaAlive = (\<lambda>a w. (a \<noteq> ''b'', w))\<rparr>,
     eFrontend = None,
     eC = \<lparr>clNew = (\<lambda>_. None), clGetReplica = (\<lambda>_ w. (Inr lab_info, w)), clRevert = (\<lambda>_ _ _ w. (None, w)),
       clPrepareRemoveDisk = (\<lambda>_ _ w. (Inr [], w)), clRemoveDisk = (\<lambda>_ _ w. (None, w)), clReplaceDisk = (\<lambda>_ _ _ w. (None, w)),
       clCoalesce = (\<lambda>_ _ _ w. (None, w)), clLaunchReceiver = (\<lambda>_ _ w. (Inl ErrNotExist, w)), clSendFile = (\<lambda>_ _ _ _ w. (None, w))\<rparr>,
     eUUID = (\<lambda>w. (''u'', w)), eNow = (\<lambda>w. (''now'', w)), eCheckReplicationFactor = 3, eRAMInBytes = ParseInt\<rparr>"

theorem start_signal_needs_majority_witness:
  "\<exists>e c' w'. registerReplica sig_env (lab_reg ''b'' 10) lab_regs [] = (e, c', w') \<and> w' = [''b''] \<and>
     majority_signal (lab_reg ''b'' 10) lab_regs c' ''b''"
proof -
  obtain e c' w' where st: "registerReplica sig_env (lab_reg ''b'' 10) lab_regs [] = (e, c', w')" by (metis prod_cases3)
  have "snd (snd (registerReplica sig_env (lab_reg ''b'' 10) lab_regs [])) = [''b'']" by code_simp
  then have w: "w' = [''b'']" using st by simp
  have "0 \<le> ReplicationFactor lab_regs" "0 \<le> quorumReplicaCount lab_regs" "distinct (map fst (RegisteredReplicas lab_regs))" "\<not> StartSignalled lab_regs"
    by code_simp+
  then show ?thesis
    using start_signal_needs_majority [where sig = "\<lambda>w. w", OF _ _ st] st w by (auto simp: sig_env_def)
qed

section \<open>The number of replicas\<close>

lemma canAdd_length:
  assumes inv: "ctl_inv c" and st: "canAdd E a c w = (e, c', w')"
  shows "length (replicas c') \<le> length (replicas c)"
proof -
  have "replicas c' = replicas c \<or> (\<exists>x w1 e2 w2. RemoveReplicaNoLock E x c w1 = (e2, c', w2))"
    using st by (auto simp: canAdd_def Let_def split: if_splits option.splits prod.splits sum.splits bool.splits)
  moreover have "length (replicas c') \<le> length (replicas c)" if "RemoveReplicaNoLock E x c w1 = (e2, c', w2)" for x w1 e2 w2
    using RemoveReplicaNoLock_inv [OF inv that] by (cases e2) (simp_all add: length_filter_le)
  ultimately show ?thesis by auto
qed

text \<open>
  C31. One call of \<open>addReplica\<close> at a time keeps the number of replicas within the replication factor of the
  environment.
\<close>

theorem add_respects_factor:
  assumes inv: "ctl_inv c" and "int (length (replicas c)) \<le> eCheckReplicationFactor E"
    and st: "addReplica E a snapshot c w = (e, c', w')"
  shows "int (length (replicas c')) \<le> eCheckReplicationFactor E"
proof -
  obtain e1 c1 w1 where 1: "canAdd E a c w = (e1, c1, w1)" by (metis prod_cases3)
  have l1: "length (replicas c1) \<le> length (replicas c)" by (rule canAdd_length [OF inv 1])
  show ?thesis
  proof (cases "c' = c1")
    case True then show ?thesis using l1 assms(2) by simp
  next
    case False
    then obtain nb w2 where 2: "addReplica_commit E nb a snapshot c1 w2 = (e, c', w')" "verifyReplicationFactor E c1 = None"
      using st 1 by (auto simp: addReplica_def addReplica_check_def split: option.splits prod.splits sum.splits)
    have lt: "int (length (replicas c1)) < eCheckReplicationFactor E"
      using 2(2) l1 assms(2) by (auto simp: verifyReplicationFactor_def split: if_splits)
    have inv1: "ctl_inv c1" using canAdd_inv [OF inv 1] by simp
    obtain e3 c3 w3 where 3: "canAdd E a c1 w2 = (e3, c3, w3)" by (metis prod_cases3)
    have l3: "length (replicas c3) \<le> length (replicas c1)" by (rule canAdd_length [OF inv1 3])
    have "length (replicas c') \<le> Suc (length (replicas c3))"
      using 2(1) 3 UpdateCheckpoint_frame
      by (auto simp: addReplica_commit_def addReplicaNoLock_def UpdateVolStatus_def Let_def split: option.splits prod.splits if_splits) fastforce+
    then show ?thesis using l3 lt by linarith
  qed
qed

theorem add_respects_factor_witness:
  "\<exists>c' w'. addReplica lab_env ''x'' False (NewController ''vol'' 1) [] = (None, c', w') \<and>
     int (length (replicas c')) \<le> eCheckReplicationFactor lab_env"
proof -
  have "fst (addReplica lab_env ''x'' False (NewController ''vol'' 1) []) = None" by code_simp
  then obtain c' w' where st: "addReplica lab_env ''x'' False (NewController ''vol'' 1) [] = (None, c', w')"
    by (metis prod_cases3 fst_conv)
  have "int (length (replicas (NewController ''vol'' 1))) \<le> eCheckReplicationFactor lab_env" by code_simp
  then show ?thesis using add_respects_factor [OF NewController_inv _ st] st by blast
qed






section \<open>The promotion of a rebuilt replica\<close>

lemma ChainContainsSnapshot_iff: "ChainContainsSnapshot ch s \<longleftrightarrow> s \<in> set ch"
  by (induction ch) auto

lemma stop_index_found: "cp \<in> set ch \<Longrightarrow> \<exists>k < length ch. stop_index cp d i ch = i + k \<and> ch ! k = cp"
proof (induction ch arbitrary: d i)
  case (Cons s ch)
  show ?case
  proof (cases "s = cp")
    case True then show ?thesis by (intro exI [of _ 0]) simp
  next
    case False
    then obtain k where "k < length ch" "stop_index cp i (i + 1) ch = i + 1 + k" "ch ! k = cp" using Cons by fastforce
    then show ?thesis using False by (intro exI [of _ "Suc k"]) simp
  qed
qed simp

lemma stop_index_absent: "cp \<notin> set ch \<Longrightarrow> stop_index cp d i ch = (if ch = [] then d else i + length ch - 1)"
  by (induction ch arbitrary: d i) auto

text \<open>The chains agree from behind the heads up to the file \<open>k\<close>: the checkpoint, or the last file if there is none.\<close>

definition agree_upto :: "nat \<Rightarrow> string \<Rightarrow> string list \<Rightarrow> string list \<Rightarrow> bool" where
  "agree_upto k cp rw ch =
     (k < length rw \<and> k < length ch \<and> (if cp \<in> set rw then rw ! k = cp else cp = [] \<and> k = length rw - 1) \<and>
      list_all (\<lambda>i. rw ! i = ch ! i) [1..<Suc k])"

lemma chains_match_upto:
  assumes "chains_match cp rw ch = None"
  shows "\<exists>k. agree_upto k cp rw ch"
proof -
  define k where "k = stop_index cp 0 0 rw"
  have m: "rw \<noteq> []" "k < length ch" "take k (drop 1 rw) = take k (drop 1 ch)" "cp \<noteq> [] \<longrightarrow> cp \<in> set rw"
    using assms by (auto simp: chains_match_def Let_def k_def ChainContainsSnapshot_iff split: if_splits)
  have k: "k < length rw \<and> (if cp \<in> set rw then rw ! k = cp else cp = [] \<and> k = length rw - 1)"
    using stop_index_found [of cp rw 0 0] stop_index_absent [of cp rw 0 0] m(1,4) by (auto simp: k_def)
  have "rw ! i = ch ! i" if "1 \<le> i" "i \<le> k" for i
    using arg_cong [OF m(3), of "\<lambda>l. l ! (i - 1)"] that k m(2) by (simp add: nth_drop)
  then show ?thesis unfolding agree_upto_def using k m(2) by (intro exI [of _ k]) (auto simp: list_all_iff)
qed

lemma replicas_updated: "UpdateCheckpoint E (UpdateVolStatus c) w = (c', w') \<Longrightarrow> replicas c' = replicas c"
  by (drule UpdateCheckpoint_frame) (auto simp: UpdateVolStatus_def Let_def)

lemma VerifyRebuildReplica_changed:
  assumes "VerifyRebuildReplica E a c w = (e, c', w')" and "c' \<noteq> c"
  shows "\<exists>rep rw rwChain w1 ch w2 cp w3 w6 e7 c7 w7. getCurrentAndRWReplica a c = Inr (rep, rw) \<and> Mode rep = WO \<and>
    getReplicaChain E (Address rw) w = (Inr rwChain, w1) \<and> getReplicaChain E a w1 = (Inr ch, w2) \<and>
    getReplicaCheckpoint E a w2 = (Inr cp, w3) \<and> chains_match cp rwChain ch = None \<and>
    setReplicaModeNoLock E a RW c w6 = (e7, c7, w7) \<and> replicas c' = replicas c7"
  using assms unfolding VerifyRebuildReplica_def Let_def
  by (auto dest!: replicas_updated split: sum.splits prod.splits if_splits option.splits) blast

text \<open>
  C11. What \<open>VerifyRebuildReplica\<close> has checked when it changes the state of the controller, whatever it
  returns: the replica was in mode \<open>WO\<close>, and the chains read from it and from the first \<open>RW\<close>
  replica have the same files behind their heads, down to the checkpoint read from the rebuilt replica, or,
  when it reports no checkpoint, down to the last file of the \<open>RW\<close> replica.  The change makes it \<open>RW\<close>.
\<close>

theorem rebuilt_chain_agrees:
  assumes st: "VerifyRebuildReplica E a c w = (e, c', w')" and ch: "c' \<noteq> c"
  shows "\<exists>rep rw rwChain w1 ch w2 cp w3 k. getCurrentAndRWReplica a c = Inr (rep, rw) \<and> Mode rep = WO \<and>
    getReplicaChain E (Address rw) w = (Inr rwChain, w1) \<and> getReplicaChain E a w1 = (Inr ch, w2) \<and>
    getReplicaCheckpoint E a w2 = (Inr cp, w3) \<and> agree_upto k cp rwChain ch \<and>
    (\<exists>r\<in>set (replicas c'). Address r = a \<and> Mode r = RW)"
proof -
  obtain rep rw rwChain w1 ch w2 cp w3 w6 e7 c7 w7 where 1: "getCurrentAndRWReplica a c = Inr (rep, rw)" "Mode rep = WO"
      "getReplicaChain E (Address rw) w = (Inr rwChain, w1)" "getReplicaChain E a w1 = (Inr ch, w2)"
      "getReplicaCheckpoint E a w2 = (Inr cp, w3)" "chains_match cp rwChain ch = None"
      "setReplicaModeNoLock E a RW c w6 = (e7, c7, w7)" "replicas c' = replicas c7"
    using VerifyRebuildReplica_changed [OF assms] by blast
  obtain k where k: "agree_upto k cp rwChain ch" using chains_match_upto [OF 1(6)] by blast
  have rep: "rep \<in> set (replicas c)" "Address rep = a"
    using 1(1) by (auto simp: getCurrentAndRWReplica_def find_Some_iff split: option.splits)
  have "replicas c' = set_entry a RW (replicas c)" using 1(7,8) by (auto simp: setReplicaModeNoLock_def Let_def case_prod_unfold)
  then have "rep\<lparr>Mode := RW\<rparr> \<in> set (replicas c')" using rep 1(2) by (force simp: set_entry_def)
  then show ?thesis using 1 k rep(2) by (intro exI conjI bexI [of _ "rep\<lparr>Mode := RW\<rparr>"]) simp_all
qed

theorem rebuilt_chain_agrees_witness:
  "\<exists>e c' w' k. VerifyRebuildReplica lab_env ''b'' (lab_ctl 3 [(''a'', RW), (''b'', WO)]) [] = (e, c', w') \<and>
     agree_upto k ''volume-snap-s.img'' (riChain lab_info) (riChain lab_info) \<and> (\<exists>r\<in>set (replicas c'). Address r = ''b'' \<and> Mode r = RW)"
proof -
  let ?c = "lab_ctl 3 [(''a'', RW), (''b'', WO)]"
  obtain e c' w' where st: "VerifyRebuildReplica lab_env ''b'' ?c [] = (e, c', w')" by (metis prod_cases3)
  have "replicas (fst (snd (VerifyRebuildReplica lab_env ''b'' ?c []))) \<noteq> replicas ?c" by code_simp
  then have ch: "c' \<noteq> ?c" using st by auto
  have r: "getReplicaChain lab_env a [] = (Inr (riChain lab_info), [])" "getReplicaCheckpoint lab_env a [] = (Inr ''volume-snap-s.img'', [])" for a
    by (simp_all add: getReplicaChain_def getReplicaCheckpoint_def lab_env_def lab_info_def)
  show ?thesis using rebuilt_chain_agrees [OF st ch] st by (auto simp: r)
qed
section \<open>The start of the volume\<close>








end
