(* ===== verification/PreloadCorrect.thy ===== *)
theory PreloadCorrect
  imports ReplicaData
begin

text \<open>
  \<open>preload\<close> (\<open>replica/backup.go\<close>) against \<open>lookup\<close>: the map that is built from the extents of all files when
  a replica is opened names, for each sector, the newest file that has it, which is where the lookup
  without the map would have found it; and every hole it asks for is safe.
\<close>

section \<open>The extents of a file\<close>

text \<open>Extents in order, each of them whole sectors that are all in use, with no sector in use between them.\<close>

fun covers :: "(int \<Rightarrow> bool) \<Rightarrow> int \<Rightarrow> int \<Rightarrow> extent list \<Rightarrow> bool" where
  "covers al s n [] \<longleftrightarrow> True"
| "covers al s n (e # es) \<longleftrightarrow>
     (\<exists>a m. Logical e = a * 4096 \<and> Length e = m * 4096 \<and> s \<le> a \<and> 1 \<le> m \<and> a + m \<le> n \<and>
        (\<forall>t. a \<le> t \<and> t < a + m \<longrightarrow> al t) \<and> (\<forall>t. s \<le> t \<and> t < a \<longrightarrow> \<not> al t) \<and> covers al (a + m) n es)"

definition last_marked :: "(int \<Rightarrow> bool) \<Rightarrow> int \<Rightarrow> extent list \<Rightarrow> bool" where
  "last_marked al n es \<longleftrightarrow> (\<forall>e\<in>set es. LastFlag e \<longrightarrow> (\<forall>t. Logical e + Length e \<le> t * 4096 \<and> t < n \<longrightarrow> \<not> al t))"

text \<open>
  What \<open>Fiemap\<close> promises for the rest of a file from a sector on: the first extents there, none when no
  sector is in use, the flag on the last one of the file only.
\<close>

locale extent_file = punch_file F content alloc avail
  for F :: "('w, 'f) file_ops" and content alloc avail +
  assumes extents_ok:
    "\<And>w f n s. avail w f (n * 4096) \<Longrightarrow> 0 \<le> s \<Longrightarrow> s \<le> n \<Longrightarrow>
       \<exists>es. fFiemap F f (s * 4096) (n * 4096 - s * 4096) 1024 w = (es, None) \<and> covers (alloc w f) s n es \<and> last_marked (alloc w f) n es \<and>
         (es = [] \<longrightarrow> (\<forall>t. s \<le> t \<and> t < n \<longrightarrow> \<not> alloc w f t))"
  and fd_ok: "\<And>w f n. avail w f n \<Longrightarrow> 0 \<le> n \<Longrightarrow> fFd F f \<noteq> 0"

lemma sdiv_4096: "0 \<le> k \<Longrightarrow> (k * 4096) sdiv 4096 = (k :: int)"
  by (simp add: sdiv_nonneg)

lemma extent_sectors_whole:
  assumes "Logical e = a * 4096" "Length e = m * 4096" "0 \<le> a" "1 \<le> m"
  shows "extent_sectors 4096 e = map (\<lambda>k. a + int k) [0..<nat m]"
proof -
  have "(m * 4096 + 4096 - 1) div 4096 = m" by simp
  moreover have "(a * 4096 + int k * 4096) sdiv 4096 = a + int k" for k
    using sdiv_4096 [of "a + int k"] assms(3) by (simp add: algebra_simps)
  ultimately show ?thesis using assms(1,2) by (simp add: extent_sectors_def)
qed

text \<open>The sectors that are sent for the extents of one call.\<close>

lemma emit_extents_ok:
  assumes "covers al s n es" "0 \<le> s" "s \<le> n"
  shows "\<exists>secs s' fin. emit_extents 4096 (s * 4096) es = (secs, s' * 4096, fin) \<and> s \<le> s' \<and> s' \<le> n \<and> (es \<noteq> [] \<longrightarrow> s < s') \<and>
    distinct secs \<and> set secs = {t. s \<le> t \<and> t < s' \<and> al t} \<and> (fin \<longrightarrow> (\<exists>e\<in>set es. LastFlag e \<and> Logical e + Length e = s' * 4096))"
  using assms
proof (induction es arbitrary: s)
  case Nil then show ?case by auto
next
  case (Cons e es)
  obtain a m where e: "Logical e = a * 4096" "Length e = m * 4096" "s \<le> a" "1 \<le> m" "a + m \<le> n" "covers al (a + m) n es"
    and al: "\<And>t. a \<le> t \<Longrightarrow> t < a + m \<Longrightarrow> al t" "\<And>t. s \<le> t \<Longrightarrow> t < a \<Longrightarrow> \<not> al t"
    using Cons.prems(1) by auto
  let ?x = "map (\<lambda>k. a + int k) [0..<nat m]"
  have x: "extent_sectors 4096 e = ?x" using e Cons.prems by (intro extent_sectors_whole) auto
  have sx: "set ?x = {t. s \<le> t \<and> t < a + m \<and> al t}"
  proof -
    have "t \<in> set ?x \<longleftrightarrow> a \<le> t \<and> t < a + m" for t
      using e(4) by (auto simp: nat_less_iff intro!: image_eqI [of _ _ "nat (t - a)"])
    moreover have "s \<le> t \<and> t < a + m \<and> al t \<longleftrightarrow> a \<le> t \<and> t < a + m" for t using al [of t] e(3) by (cases "a \<le> t") auto
    ultimately show ?thesis by auto
  qed
  have dx: "distinct ?x" by (simp add: distinct_map inj_on_def)
  have nx: "Logical e + Length e = (a + m) * 4096" using e by (simp add: algebra_simps)
  show ?case
  proof (cases "LastFlag e")
    case True
    then show ?thesis using x sx dx nx e Cons.prems by (intro exI [of _ ?x] exI [of _ "a + m"] exI [of _ True]) auto
  next
    case False
    obtain secs s' fin where r: "emit_extents 4096 ((a + m) * 4096) es = (secs, s' * 4096, fin)" "a + m \<le> s'" "s' \<le> n" "distinct secs"
      "set secs = {t. a + m \<le> t \<and> t < s' \<and> al t}" "fin \<longrightarrow> (\<exists>e\<in>set es. LastFlag e \<and> Logical e + Length e = s' * 4096)"
      using Cons.IH [OF e(6)] e Cons.prems by auto
    have "set (?x @ secs) = {t. s \<le> t \<and> t < s' \<and> al t}" unfolding set_append sx r(5) using r(2) e by auto
    moreover have "distinct (?x @ secs)" unfolding distinct_append sx r(5) using dx r(4) by auto
    ultimately show ?thesis using x r nx e False
      by (intro exI [of _ "?x @ secs"] exI [of _ s'] exI [of _ fin]) auto
  qed
qed

context extent_file
begin

text \<open>The loop ends with fuel for one call for each sector that is left and one more, and sends each sector in use once.\<close>

lemma findExtents_loop_ok:
  assumes "avail w f (n * 4096)" "0 \<le> s" "s \<le> n" "n * 4096 < 2 ^ 64" "nat (n - s) < fuel"
  shows "\<exists>secs. findExtents_loop F f 4096 (n * 4096) w fuel (s * 4096) = Some (secs, None) \<and> distinct secs \<and>
    set secs = {t. s \<le> t \<and> t < n \<and> alloc w f t}"
  using assms
proof (induction fuel arbitrary: s)
  case (Suc fuel)
  obtain es where es: "fFiemap F f (s * 4096) (n * 4096 - s * 4096) 1024 w = (es, None)" "covers (alloc w f) s n es"
    "last_marked (alloc w f) n es" "es = [] \<Longrightarrow> \<forall>t. s \<le> t \<and> t < n \<longrightarrow> \<not> alloc w f t"
    using extents_ok [OF Suc.prems(1-3)] by blast
  have u: "u64 (n * 4096 - s * 4096) = n * 4096 - s * 4096" using Suc.prems by (simp add: u64_def)
  show ?case
  proof (cases "es = []")
    case True then show ?thesis using es u by (intro exI [of _ "[]"]) auto
  next
    case False
    obtain secs s' fin where r: "emit_extents 4096 (s * 4096) es = (secs, s' * 4096, fin)" "s < s'" "s' \<le> n" "distinct secs"
      "set secs = {t. s \<le> t \<and> t < s' \<and> alloc w f t}" "fin \<longrightarrow> (\<exists>e\<in>set es. LastFlag e \<and> Logical e + Length e = s' * 4096)"
      using emit_extents_ok [OF es(2) Suc.prems(2,3)] False by blast
    show ?thesis
    proof (cases fin)
      case True
      then have "\<not> alloc w f t" if "s' \<le> t" "t < n" for t using r(6) es(3) that unfolding last_marked_def by fastforce
      then have "t < s' \<longleftrightarrow> t < n" if "alloc w f t" for t using that r(3) by (meson linorder_not_le order_less_le_trans)
      then have "set secs = {t. s \<le> t \<and> t < n \<and> alloc w f t}" unfolding r(5) by blast
      then show ?thesis using es(1) u False r True by simp
    next
      case nl: False
      have "nat (n - s') < fuel" using Suc.prems(5) r(2,3) by linarith
      then obtain rest where l: "findExtents_loop F f 4096 (n * 4096) w fuel (s' * 4096) = Some (rest, None)" "distinct rest"
        "set rest = {t. s' \<le> t \<and> t < n \<and> alloc w f t}" using Suc.IH [of s'] Suc.prems r(2,3) by auto
      have "set (secs @ rest) = {t. s \<le> t \<and> t < n \<and> alloc w f t}" unfolding set_append r(5) l(3) using r(2,3) by auto
      moreover have "distinct (secs @ rest)" unfolding distinct_append r(5) l(3) using r(4) l(2) by auto
      ultimately show ?thesis using es(1) u False r nl l by simp
    qed
  qed
qed simp

lemma findExtents_ok:
  assumes "avail w f (int (length (location d)) * 4096)" "int (length (location d)) * 4096 < 2 ^ 64" "length (location d) < fuel" "sectorSize d = 4096"
  shows "\<exists>secs. findExtents F d f w fuel = Some (secs, None) \<and> distinct secs \<and>
    set secs = {t. 0 \<le> t \<and> t < int (length (location d)) \<and> alloc w f t}"
  using findExtents_loop_ok [OF assms(1), of 0 fuel] fd_ok [OF assms(1)] assms by (simp add: findExtents_def)

end

section \<open>The map from sectors to files\<close>

text \<open>The newest of the first files that has a sector, 0 when none has.\<close>

definition owner :: "('f \<Rightarrow> int \<Rightarrow> bool) \<Rightarrow> 'f option list \<Rightarrow> nat \<Rightarrow> int \<Rightarrow> nat" where
  "owner al fs i s = last (0 # filter (\<lambda>j. al (the (fs ! j)) s) [1..<i])"

lemma owner_1 [simp]: "owner al fs (Suc 0) s = 0"
  by (simp add: owner_def)

lemma owner_Suc: "1 \<le> i \<Longrightarrow> owner al fs (Suc i) s = (if al (the (fs ! i)) s then i else owner al fs i s)"
  by (simp add: owner_def)

lemma owner_less: "1 \<le> i \<Longrightarrow> owner al fs i s < i"
proof -
  assume "1 \<le> i"
  moreover have "last (0 # xs) \<in> insert 0 (set xs)" for xs :: "nat list" by (cases xs) auto
  then have "owner al fs i s \<in> insert 0 (set (filter (\<lambda>j. al (the (fs ! j)) s) [1..<i]))" unfolding owner_def .
  ultimately show ?thesis by auto
qed

text \<open>The newest file that has the sector, or 0 if none has it.\<close>

definition newest_owner :: "('f \<Rightarrow> int \<Rightarrow> bool) \<Rightarrow> 'f option list \<Rightarrow> int \<Rightarrow> nat \<Rightarrow> bool" where
  "newest_owner al fs s k =
     (k < max 1 (length fs) \<and> (k \<noteq> 0 \<longrightarrow> al (the (fs ! k)) s) \<and> list_all (\<lambda>j. \<not> al (the (fs ! j)) s) [Suc k..<length fs])"

lemma owner_spec: "1 \<le> i \<Longrightarrow> i \<le> length fs \<Longrightarrow> newest_owner al (take i fs) s (owner al fs i s)"
proof (induction i rule: nat_induct_at_least)
  case base then show ?case by (simp add: newest_owner_def)
next
  case (Suc i)
  show ?case
  proof (cases "al (the (fs ! i)) s")
    case True then show ?thesis using Suc by (simp add: owner_Suc newest_owner_def)
  next
    case False
    have "owner al fs i s < i" using Suc(1) by (rule owner_less)
    then show ?thesis using False Suc by (auto simp: owner_Suc newest_owner_def list_all_iff less_Suc_eq)
  qed
qed

lemma owner_newest:
  assumes "2 \<le> length fs" and "owner al fs (length fs) s \<noteq> 0"
  shows "owner al fs (length fs) s = newest al fs s"
proof -
  have u: "[1..<length fs] = 1 # [2..<length fs]" using assms(1) by (simp add: upt_conv_Cons numeral_2_eq_2)
  show ?thesis using assms(2) unfolding owner_def newest_def u by (auto split: if_splits)
qed

text \<open>The state while the sectors of file \<open>i\<close> come in; \<open>P\<close> are those that have come, \<open>L\<close> is the map before.\<close>

definition same_chain :: "'f diffDisk \<Rightarrow> 'f diffDisk \<Rightarrow> bool" where
  "same_chain d d' \<longleftrightarrow> files d' = files d \<and> sectorSize d' = sectorSize d \<and> SnapIndx d' = SnapIndx d \<and>
     UserCreatedSnap d' = UserCreatedSnap d \<and> length (location d') = length (location d)"

definition run_below :: "nat \<Rightarrow> int set \<Rightarrow> 'f diffDisk \<Rightarrow> 'f run \<Rightarrow> bool" where
  "run_below i P d r \<longleftrightarrow> run_file r = None \<or>
     (1 \<le> run_fileIndx r \<and> run_fileIndx r < i \<and> run_file r = files d ! run_fileIndx r \<and> 1 \<le> run_length r \<and>
      {run_lOffset r..<run_lOffset r + run_length r} \<subseteq> P)"

definition load_inv :: "'f diffDisk \<Rightarrow> nat \<Rightarrow> int set \<Rightarrow> 'f hole list \<Rightarrow> 'f diffDisk \<times> 'f run \<times> 'f hole list \<Rightarrow> bool" where
  "load_inv d0 i P ch0 = (\<lambda>(d, r, ch).
     same_chain d0 d \<and> P \<subseteq> {0..<int (length (location d0))} \<and>
     (\<forall>t<length (location d0). location d ! t = (if int t \<in> P then i else location d0 ! t)) \<and>
     run_below i P d r \<and> (\<exists>hs. ch = ch0 @ hs \<and> (\<forall>h\<in>set hs. hole_safe d h)))"

lemma same_chain_refl [simp]: "same_chain d d"
  by (simp add: same_chain_def)

lemma same_chain_trans: "same_chain d d1 \<Longrightarrow> same_chain d1 d2 \<Longrightarrow> same_chain d d2"
  by (simp add: same_chain_def)

text \<open>A gathered run asks for a safe hole.\<close>

lemma preload_flush_inv:
  assumes inv: "load_inv d0 i P ch0 (d, r, ch)" and ss: "sectorSize d0 = 4096" and i: "i < length (files d0)"
  shows "case preload_flush punch usi r d ch of (d', ch') \<Rightarrow> load_inv d0 i P ch0 (d', r, ch') \<and> location d' = location d"
proof (cases "run_file r \<noteq> None \<and> run_fileIndx r > usi \<and> punch")
  case False
  then have "preload_flush punch usi r d ch = (d, ch)" unfolding preload_flush_def by (rule if_not_P)
  then show ?thesis using inv by simp
next
  case True
  let ?h = "\<lparr>hole_f = run_file r, hole_offset = run_lOffset r * 4096, hole_len = run_length r * 4096\<rparr>"
  have r: "1 \<le> run_fileIndx r" "run_fileIndx r < i" "run_file r = files d ! run_fileIndx r" "1 \<le> run_length r"
    "{run_lOffset r..<run_lOffset r + run_length r} \<subseteq> P" using inv True by (auto simp: load_inv_def run_below_def)
  have P: "P \<subseteq> {0..<int (length (location d0))}" and sc: "same_chain d0 d"
    and L: "\<And>t. t < length (location d0) \<Longrightarrow> int t \<in> P \<Longrightarrow> location d ! t = i" using inv by (auto simp: load_inv_def)
  have "run_lOffset r \<in> P" "run_lOffset r + run_length r - 1 \<in> P" using r(4,5) by auto
  then have b: "0 \<le> run_lOffset r" "run_lOffset r + run_length r \<le> int (length (location d))" using P sc by (auto simp: same_chain_def)
  have "run_fileIndx r < location d ! nat t" if "run_lOffset r \<le> t" "t < run_lOffset r + run_length r" for t
    using L [of "nat t"] r(2,5) that b sc by (auto simp: same_chain_def nat_less_iff)
  then have "hole_safe d ?h" unfolding hole_safe_def using r b i sc
    by (intro exI [of _ "run_fileIndx r"] exI [of _ "run_lOffset r"] exI [of _ "run_length r"]) (auto simp: same_chain_def)
  then show ?thesis using True inv ss sc unfolding load_inv_def
    by (auto simp: preload_flush_def sendToCreateHole_def same_chain_def run_below_def)
qed

text \<open>The sector is entered in the map.\<close>

lemma load_inv_place:
  assumes inv: "load_inv d0 i P ch0 (d1, r0, ch)" and off: "0 \<le> off" "off < int (length (location d0))"
    and L: "\<And>t. t < length (location d0) \<Longrightarrow> location d0 ! t < i" and r: "run_below i (insert off P) d1 r"
    and d2: "d2 = d1\<lparr>location := (location d1)[nat off := i], UsedBlocks := u\<rparr>"
  shows "load_inv d0 i (insert off P) ch0 (d2, r, ch)"
proof -
  have sc: "same_chain d0 d1" and P: "P \<subseteq> {0..<int (length (location d0))}"
    and l: "\<And>t. t < length (location d0) \<Longrightarrow> location d1 ! t = (if int t \<in> P then i else location d0 ! t)"
    using inv by (auto simp: load_inv_def)
  obtain hs where hs: "ch = ch0 @ hs" "\<forall>h\<in>set hs. hole_safe d1 h" using inv by (auto simp: load_inv_def)
  have le: "location d1 ! t \<le> i" if "t < length (location d1)" for t
    using l [of t] L [of t] that sc by (auto simp: same_chain_def split: if_splits)
  have "location d1 ! t \<le> (location d1)[nat off := i] ! t" if "t < length (location d1)" for t
    using le [OF that] that by (cases "t = nat off") auto
  then have "advances d1 d2" by (auto simp: advances_def d2)
  then have "\<forall>h\<in>set hs. hole_safe d2 h" using hs hole_safe_advances by blast
  moreover have "location d2 ! t = (if int t \<in> insert off P then i else location d0 ! t)" if "t < length (location d0)" for t
    using l [OF that] that off sc by (auto simp: d2 nth_list_update same_chain_def)
  ultimately show ?thesis using sc P off r hs(1) by (auto simp: load_inv_def d2 same_chain_def run_below_def)
qed

lemma load_inv_run: "load_inv d0 i P ch0 (d, r, ch) \<Longrightarrow> run_below i P d r' \<Longrightarrow> load_inv d0 i P ch0 (d, r', ch)"
  by (simp add: load_inv_def)

lemma load_inv_frame:
  "load_inv d0 i P ch0 (d, r, ch) \<Longrightarrow> load_inv d0 i P ch0 (d\<lparr>UsedLogicalBlocks := u\<rparr>, r, ch)"
proof -
  have "hole_safe (d\<lparr>UsedLogicalBlocks := u\<rparr>) h = hole_safe d h" for h by (simp add: hole_safe_def)
  moreover have "run_below i P (d\<lparr>UsedLogicalBlocks := u\<rparr>) r = run_below i P d r" by (simp add: run_below_def)
  moreover have "same_chain d0 (d\<lparr>UsedLogicalBlocks := u\<rparr>) = same_chain d0 d" by (simp add: same_chain_def)
  ultimately show "load_inv d0 i P ch0 (d, r, ch) \<Longrightarrow> ?thesis" by (simp add: load_inv_def)
qed

text \<open>What the loop needs of the volume.\<close>

definition chain_ok :: "'f diffDisk \<Rightarrow> nat \<Rightarrow> bool" where
  "chain_ok d i \<longleftrightarrow> wf_shape d \<and> 1 \<le> i \<and> i < length (files d) \<and> (\<forall>t<length (location d). location d ! t < i)"

lemma preload_step_inv:
  assumes inv: "load_inv d0 i P ch0 (d, r, ch)" and ok: "chain_ok d0 i"
    and off: "0 \<le> off" "off < int (length (location d0))" "off \<notin> P"
  shows "load_inv d0 i (insert off P) ch0 (preload_step punch usi i off (d, r, ch))"
proof -
  have ss: "sectorSize d0 = 4096" and i: "1 \<le> i" "i < length (files d0)" "length (files d0) \<le> 65536"
    and L: "\<And>t. t < length (location d0) \<Longrightarrow> location d0 ! t < i" and dist: "distinct (files d0)"
    and nn: "\<And>j. 1 \<le> j \<Longrightarrow> j < length (files d0) \<Longrightarrow> files d0 ! j \<noteq> None"
    using ok by (auto simp: chain_ok_def wf_shape_def)
  have sc: "files d = files d0" "sectorSize d = 4096" using inv ss by (auto simp: load_inv_def same_chain_def)
  have u: "u16 (int i) = i" using i by (simp add: go_simps)
  let ?v = "location d ! nat off"
  have v: "?v = location d0 ! nat off" using inv off by (simp add: load_inv_def)
  have vi: "?v < i" using v L [of "nat off"] off by simp
  show ?thesis
  proof (cases "?v = 0")
    case True
    then have "preload_step punch usi i off (d, r, ch) =
        (d\<lparr>UsedLogicalBlocks := UsedLogicalBlocks d + 1\<rparr>\<lparr>location := (location d)[nat off := i], UsedBlocks := UsedBlocks d + 1\<rparr>, r, ch)"
      by (simp add: preload_step_def u Let_def)
    moreover have "run_below i (insert off P) (d\<lparr>UsedLogicalBlocks := UsedLogicalBlocks d + 1\<rparr>) r"
      using inv by (auto simp: load_inv_def run_below_def)
    ultimately show ?thesis using load_inv_place [OF load_inv_frame [OF inv] off(1,2) L] by simp
  next
    case nz: False
    have f: "files d ! ?v \<noteq> None" using nn [of ?v] nz vi i(2) sc(1) by simp
    show ?thesis
    proof (cases "files d ! ?v \<noteq> run_file r \<or> off \<noteq> run_lOffset r + run_length r")
      case True
      obtain d' ch' where fl: "preload_flush punch usi r d ch = (d', ch')" by fastforce
      have inv': "load_inv d0 i P ch0 (d', r, ch')" and l': "location d' = location d"
        using preload_flush_inv [OF inv ss i(2), of punch usi] fl by simp_all
      have fd: "files d' = files d" using inv' sc by (simp add: load_inv_def same_chain_def)
      let ?r = "\<lparr>run_file = files d ! ?v, run_fileIndx = ?v, run_length = 1, run_lOffset = off\<rparr>"
      have "preload_step punch usi i off (d, r, ch) = (d'\<lparr>location := (location d')[nat off := i], UsedBlocks := UsedBlocks d' + 1\<rparr>, ?r, ch')"
        using True nz fl by (simp add: preload_step_def u Let_def)
      moreover have "run_below i (insert off P) d' ?r" using nz vi fd by (auto simp: run_below_def)
      ultimately show ?thesis using load_inv_place [OF inv' off(1,2) L] by simp
    next
      case False
      then have e: "run_file r = files d ! ?v" "off = run_lOffset r + run_length r" by auto
      have "run_below i P d r" using inv by (simp add: load_inv_def)
      then have rb: "1 \<le> run_fileIndx r" "run_fileIndx r < i" "run_file r = files d ! run_fileIndx r" "1 \<le> run_length r"
        "{run_lOffset r..<run_lOffset r + run_length r} \<subseteq> P" using e f by (auto simp: run_below_def)
      have "{run_lOffset r..<run_lOffset r + (run_length r + 1)} = insert off {run_lOffset r..<run_lOffset r + run_length r}"
        using e(2) rb(4) by auto
      then have "run_below i (insert off P) d (r\<lparr>run_length := run_length r + 1\<rparr>)" using rb by (auto simp: run_below_def)
      moreover have "preload_step punch usi i off (d, r, ch) =
          (d\<lparr>location := (location d)[nat off := i], UsedBlocks := UsedBlocks d + 1\<rparr>, r\<lparr>run_length := run_length r + 1\<rparr>, ch)"
        using e nz by (simp add: preload_step_def u Let_def)
      ultimately show ?thesis using load_inv_place [OF inv off(1,2) L] by simp
    qed
  qed
qed

lemma preload_sectors_inv:
  assumes "load_inv d0 i P ch0 st" and "chain_ok d0 i" and "distinct os" and "set os \<inter> P = {}" "set os \<subseteq> {0..<int (length (location d0))}"
  shows "\<exists>st'. preload_sectors punch usi i os st = (None, st') \<and> load_inv d0 i (P \<union> set os) ch0 st'"
  using assms
proof (induction os arbitrary: P st)
  case Nil then show ?case by simp
next
  case (Cons off os)
  obtain d r ch where st: "st = (d, r, ch)" by (cases st)
  have len: "length (location d) = length (location d0)" "files d = files d0" using Cons.prems(1) st by (auto simp: load_inv_def same_chain_def)
  have off: "0 \<le> off" "off < int (length (location d0))" "off \<notin> P" using Cons.prems by auto
  have "location d ! nat off = location d0 ! nat off" using Cons.prems(1) off st by (simp add: load_inv_def)
  moreover have "location d0 ! nat off < i" "i < length (files d0)" using Cons.prems(2) off by (simp_all add: chain_ok_def)
  ultimately have lt: "location d ! nat off < length (files d)" using len by simp
  have nx: "load_inv d0 i (insert off P) ch0 (preload_step punch usi i off (d, r, ch))"
    using preload_step_inv Cons.prems(1,2) off unfolding st by blast
  have "\<exists>st'. preload_sectors punch usi i os (preload_step punch usi i off (d, r, ch)) = (None, st') \<and>
      load_inv d0 i (insert off P \<union> set os) ch0 st'"
    by (rule Cons.IH [OF nx Cons.prems(2)]) (use Cons.prems in auto)
  then show ?case using st off len lt by (auto simp: nat_less_iff)
qed

context extent_file
begin

lemma load_start: "same_chain d d \<Longrightarrow> run_file r = None \<Longrightarrow> load_inv d i {} ch (d, r, ch)"
  by (simp add: load_inv_def run_below_def)

lemma hole_safe_loaded:
  assumes "load_inv d0 i P ch0 (d, r, ch)" and "chain_ok d0 i" and "hole_safe d0 h"
  shows "hole_safe d h"
proof (rule hole_safe_advances [OF assms(3)])
  have sc: "same_chain d0 d" and "\<And>t. t < length (location d0) \<Longrightarrow> location d ! t = (if int t \<in> P then i else location d0 ! t)"
    using assms(1) by (auto simp: load_inv_def)
  moreover have "\<And>t. t < length (location d0) \<Longrightarrow> location d0 ! t \<le> i" using assms(2) by (simp add: chain_ok_def less_imp_le)
  ultimately show "advances d0 d" by (auto simp: advances_def same_chain_def)
qed

text \<open>All the files from number \<open>i\<close> on.\<close>

lemma preload_files_ok:
  assumes "wf_disk (avail w) d" and "vol_size d < 2 ^ 64" and "length (location d) < fuel" and "length (files d) \<le> length (UserCreatedSnap d)"
    and "1 \<le> i" "i \<le> length (files d)" "fs = drop i (files d)"
    and "\<forall>t<length (location d). location d ! t = owner (alloc w) (files d) i (int t)"
    and "run_file r = None" "\<forall>h\<in>set hs. hole_safe d h"
  shows "\<exists>d' hs'. preload_files F punch w fuel i usi fs (d, r, ch0 @ hs) = Some (None, d', ch0 @ hs') \<and> same_chain d d' \<and>
    (\<forall>t<length (location d). location d' ! t = owner (alloc w) (files d) (length (files d)) (int t)) \<and> (\<forall>h\<in>set hs'. hole_safe d' h)"
  using assms
proof (induction fs arbitrary: i usi d r hs)
  case Nil
  then have "i = length (files d)" by simp
  then show ?case using Nil by auto
next
  case (Cons fo fs)
  have i: "i < length (files d)" using Cons.prems(6,7) by (metis drop_all le_neq_implies_less list.distinct(1) order_refl)
  have fo: "fo = files d ! i" "fs = drop (Suc i) (files d)" using Cons.prems(7) i by (simp_all add: Cons_nth_drop_Suc [symmetric])
  have sh: "wf_shape d" using Cons.prems(1) by (simp add: wf_disk_def)
  have "files d ! i \<noteq> None" using sh i Cons.prems(5) by (simp add: wf_shape_def)
  then obtain f where f: "fo = Some f" using fo by auto
  have ok: "chain_ok d i" using sh i Cons.prems(5,8) owner_less [of i "alloc w" "files d"] by (simp add: chain_ok_def)
  have n: "vol_size d = int (length (location d)) * 4096" by (simp add: vol_size_def)
  have "avail w (the (files d ! i)) (vol_size d)" using Cons.prems(1,5) i by (simp add: wf_disk_def)
  moreover have fi: "files d ! i = Some f" using fo f by simp
  ultimately have av: "avail w f (int (length (location d)) * 4096)" by (simp add: n)
  obtain secs where ex: "findExtents F d f w fuel = Some (secs, None)" "distinct secs"
    "set secs = {t. 0 \<le> t \<and> t < int (length (location d)) \<and> alloc w f t}"
    using findExtents_ok [OF av _ Cons.prems(3)] Cons.prems(2) sh unfolding n wf_shape_def by blast
  define usi' where "usi' = (if UserCreatedSnap d ! i then u16 (int i) else usi)"
  have st0: "load_inv d i {} (ch0 @ hs) (d, r, ch0 @ hs)" by (rule load_start) (simp_all add: Cons.prems(9))
  obtain d1 r1 ch1 where s1: "preload_sectors punch usi' i secs (d, r, ch0 @ hs) = (None, d1, r1, ch1)"
    "load_inv d i (set secs) (ch0 @ hs) (d1, r1, ch1)"
    using preload_sectors_inv [OF st0 ok ex(2), of punch usi'] ex(3) by force
  obtain d2 ch2 where fl: "preload_flush punch usi' r1 d1 ch1 = (d2, ch2)" by fastforce
  have inv2: "load_inv d i (set secs) (ch0 @ hs) (d2, r1, ch2)"
    using preload_flush_inv [OF s1(2) _ i, of punch usi'] sh fl by (simp add: wf_shape_def)
  then obtain hs2 where hs2: "ch2 = ch0 @ hs @ hs2" "\<forall>h\<in>set hs2. hole_safe d2 h" by (auto simp: load_inv_def)
  have sc: "same_chain d d2" using inv2 by (simp add: load_inv_def)
  have loc: "\<forall>t<length (location d2). location d2 ! t = owner (alloc w) (files d2) (Suc i) (int t)"
    using inv2 Cons.prems(5,8) ex(3) fi sc by (auto simp: load_inv_def owner_Suc same_chain_def)
  have wf2: "wf_disk (avail w) d2"
  proof -
    have "\<forall>t\<in>set (location d2). t < length (files d2)"
      using loc owner_less [of "Suc i" "alloc w" "files d2"] i sc by (fastforce simp: in_set_conv_nth same_chain_def less_Suc_eq_le intro: le_less_trans)
    then show ?thesis using Cons.prems(1) sc by (simp add: wf_disk_def wf_shape_def same_chain_def vol_size_def)
  qed
  have safe: "\<forall>h\<in>set (hs @ hs2). hole_safe d2 h" using hs2 hole_safe_loaded [OF inv2 ok] Cons.prems(10) by auto
  obtain d' hs' where r: "preload_files F punch w fuel (Suc i) usi' fs (d2, r1\<lparr>run_file := None, run_fileIndx := 0\<rparr>, ch0 @ hs @ hs2) = Some (None, d', ch0 @ hs')"
    "same_chain d2 d'" "\<forall>t<length (location d2). location d' ! t = owner (alloc w) (files d2) (length (files d2)) (int t)" "\<forall>h\<in>set hs'. hole_safe d' h"
    using Cons.IH [OF wf2 _ _ _ _ _ _ loc, of "r1\<lparr>run_file := None, run_fileIndx := 0\<rparr>" "hs @ hs2" usi'] Cons.prems(2-5) sc i fo safe
    by (auto simp: same_chain_def vol_size_def)
  have "preload_files F punch w fuel i usi (fo # fs) (d, r, ch0 @ hs) = Some (None, d', ch0 @ hs')"
    using i Cons.prems(4) f ex(1) s1(1) fl r(1) hs2(1) by (simp add: usi'_def Let_def)
  then show ?case using r sc same_chain_trans [OF sc r(2)] by (auto simp: same_chain_def)
qed

lemma sector_src_loaded:
  assumes "wf_shape d" and "same_chain d d'" and "0 \<le> s" "s < int (length (location d))" and "location d ! nat s = 0"
    and "location d' ! nat s = owner al (files d) (length (files d)) s"
  shows "sector_src al d' s = sector_src al d s"
  using assms owner_newest [of "files d" al s] by (auto simp: sector_src_def same_chain_def wf_shape_def)

lemma preload_ok:
  assumes wf: "wf_disk (avail w) d" and z: "\<forall>t\<in>set (location d). t = 0" and sz: "vol_size d < 2 ^ 64" "length (location d) < fuel"
    and u: "length (files d) \<le> length (UserCreatedSnap d)"
  shows "\<exists>d' hs. preload F punch fuel (d, w, ch) = Some (None, d', w, ch @ hs) \<and> wf_disk (avail w) d' \<and> same_chain d d' \<and>
    (\<forall>t<length (location d). newest_owner (alloc w) (files d) (int t) (location d' ! t)) \<and>
    (\<forall>h\<in>set hs. hole_safe d' h) \<and>
    (\<forall>s. 0 \<le> s \<and> s < int (length (location d)) \<longrightarrow> sector_src (alloc w) d' s = sector_src (alloc w) d s)"
proof -
  have sh: "wf_shape d" and n: "2 \<le> length (files d)" using wf by (auto simp: wf_disk_def wf_shape_def)
  have tl: "tl (files d) = drop 1 (files d)" by (simp add: drop_Suc)
  have l0: "\<forall>t<length (location d). location d ! t = owner (alloc w) (files d) 1 (int t)" using z by simp
  obtain d' hs where p: "preload_files F punch w fuel 1 0 (tl (files d)) (d, run0, ch @ []) = Some (None, d', ch @ hs)" "same_chain d d'"
    and l: "\<forall>t<length (location d). location d' ! t = owner (alloc w) (files d) (length (files d)) (int t)" and h: "\<forall>h\<in>set hs. hole_safe d' h"
    using preload_files_ok [OF wf sz u _ _ tl l0, of run0 "[]" punch 0 ch] n by (auto simp: run0_def)
  have "\<forall>t\<in>set (location d'). t < length (files d')"
    using l owner_less [of "length (files d)" "alloc w" "files d"] n p(2) by (auto simp: in_set_conv_nth same_chain_def)
  then have "wf_disk (avail w) d'" using wf p(2) by (simp add: wf_disk_def wf_shape_def same_chain_def vol_size_def)
  moreover have "sector_src (alloc w) d' s = sector_src (alloc w) d s" if "0 \<le> s" "s < int (length (location d))" for s
    using that l z by (intro sector_src_loaded [OF sh p(2)]) (auto simp: nat_less_iff)
  moreover have "\<forall>t<length (location d). newest_owner (alloc w) (files d) (int t) (location d' ! t)"
    using l owner_spec [of "length (files d)" "files d" "alloc w"] n by simp
  ultimately show ?thesis using p h by (auto simp: preload_def)
qed

end

section \<open>The extents of sparse files\<close>

definition spans :: "extent list \<Rightarrow> (int \<times> int) list" where
  "spans es = map (\<lambda>e. (Logical e, Length e)) es"

lemma covers_spans: "spans es = spans es' \<Longrightarrow> covers al s n es = covers al s n es'"
proof (induction es arbitrary: s es')
  case Nil then show ?case by (cases es') (auto simp: spans_def)
next
  case (Cons e es)
  then obtain e' es'' where e': "es' = e' # es''" "Logical e' = Logical e" "Length e' = Length e" "spans es = spans es''"
    by (cases es') (auto simp: spans_def)
  show ?case unfolding e'(1) covers.simps e'(2,3) using Cons.IH [OF e'(4)] by simp
qed

lemma covers_take: "covers al s n es \<Longrightarrow> covers al s n (take k es)"
proof (induction es arbitrary: s k)
  case (Cons e es)
  obtain a m where e: "Logical e = a * 4096" "Length e = m * 4096" "s \<le> a" "1 \<le> m" "a + m \<le> n" "covers al (a + m) n es"
    "\<forall>t. a \<le> t \<and> t < a + m \<longrightarrow> al t" "\<forall>t. s \<le> t \<and> t < a \<longrightarrow> \<not> al t" using Cons.prems by auto
  show ?case
  proof (cases k)
    case (Suc j)
    then show ?thesis using e Cons.IH [OF e(6), of j] by auto
  qed simp
qed simp

lemma covers_sectors:
  assumes "sorted_wrt (<) xs" "\<forall>t\<in>set xs. s \<le> t \<and> t < n \<and> al t" "\<forall>t. s \<le> t \<and> t < n \<and> al t \<longrightarrow> t \<in> set xs"
  shows "covers al s n (map (\<lambda>t. \<lparr>Logical = t * 4096, Length = 4096, LastFlag = False\<rparr>) xs)"
  using assms
proof (induction xs arbitrary: s)
  case (Cons x xs)
  have "covers al (x + 1) n (map (\<lambda>t. \<lparr>Logical = t * 4096, Length = 4096, LastFlag = False\<rparr>) xs)"
  proof (rule Cons.IH)
    show "\<forall>t\<in>set xs. x + 1 \<le> t \<and> t < n \<and> al t" using Cons.prems(1,2) by auto
    show "\<forall>t. x + 1 \<le> t \<and> t < n \<and> al t \<longrightarrow> t \<in> set xs"
    proof (intro allI impI)
      fix t
      assume t: "x + 1 \<le> t \<and> t < n \<and> al t"
      then have "s \<le> t" using Cons.prems(2) by auto
      then have "t \<in> set (x # xs)" using Cons.prems(3) t by blast
      then show "t \<in> set xs" using t by auto
    qed
  qed (use Cons.prems(1) in simp)
  moreover have "\<not> al t" if "s \<le> t" "t < x" for t
  proof
    assume "al t"
    then have "t \<in> set (x # xs)" using Cons.prems(2,3) that by (meson list.set_intros(1) order_less_trans)
    then show False using Cons.prems(1) that by auto
  qed
  ultimately show ?case using Cons.prems(2) by (auto intro!: exI [of _ x] exI [of _ 1] dest: zless_imp_add1_zle)
qed simp

lemma spans_mark_last: "spans (mark_last es) = spans es"
  by (induction es rule: mark_last.induct) (simp_all add: spans_def)

lemma flag_mark_last:
  "e \<in> set (mark_last es) \<Longrightarrow> LastFlag e \<Longrightarrow> \<forall>x\<in>set es. \<not> LastFlag x \<Longrightarrow> es \<noteq> [] \<and> Logical e = Logical (last es) \<and> Length e = Length (last es)"
  by (induction es rule: mark_last.induct) auto

lemma sorted_sectors: "sorted_wrt (<) (sp_sectors w f)"
  unfolding sp_sectors_def by (intro sorted_wrt_filter) (simp add: sorted_wrt_map)

lemma sorted_last: "sorted_wrt (<) xs \<Longrightarrow> t \<in> set xs \<Longrightarrow> t \<le> last (xs :: int list)"
  by (induction xs) (auto dest!: bspec [OF _ last_in_set] intro: less_imp_le)

lemma spans_sectors:
  "spans (filter (\<lambda>e. s * 4096 < Logical e + Length e \<and> Logical e < n * 4096) (sp_emap w f)) =
   spans (map (\<lambda>t. \<lparr>Logical = t * 4096, Length = 4096, LastFlag = False\<rparr>) (filter (\<lambda>t. s \<le> t \<and> t < n) (sp_sectors w f)))"
proof -
  have f: "spans (filter (\<lambda>e. Q (Logical e, Length e)) es) = filter Q (spans es)" for Q es by (simp add: spans_def filter_map comp_def)
  have "spans (filter (\<lambda>e. s * 4096 < Logical e + Length e \<and> Logical e < n * 4096) (sp_emap w f)) =
      filter (\<lambda>x. s * 4096 < fst x + snd x \<and> fst x < n * 4096) (spans (map (\<lambda>t. \<lparr>Logical = t * 4096, Length = 4096, LastFlag = False\<rparr>) (sp_sectors w f)))"
    using f [of "\<lambda>x. s * 4096 < fst x + snd x \<and> fst x < n * 4096" "sp_emap w f"] by (simp add: sp_emap_def spans_mark_last)
  also have "\<dots> = map (\<lambda>t. (t * 4096, 4096)) (filter (\<lambda>t. s * 4096 < t * 4096 + 4096 \<and> t * 4096 < n * 4096) (sp_sectors w f))"
    by (simp add: spans_def filter_map comp_def)
  also have "filter (\<lambda>t. s * 4096 < t * 4096 + 4096 \<and> t * 4096 < n * 4096) (sp_sectors w f) = filter (\<lambda>t. s \<le> t \<and> t < n) (sp_sectors w f)"
    by (rule filter_cong) auto
  finally show ?thesis by (simp add: spans_def comp_def)
qed

interpretation spe: extent_file sp_ops sp_content sp_alloc sp_avail
proof (unfold_locales, goal_cases)
  case (1 w f n s)
  let ?l = "filter (\<lambda>e. s * 4096 < Logical e + Length e \<and> Logical e < n * 4096) (sp_emap w f)"
  let ?x = "filter (\<lambda>t. s \<le> t \<and> t < n) (sp_sectors w f)"
  have e: "fFiemap sp_ops f (s * 4096) (n * 4096 - s * 4096) 1024 w = (take 1024 ?l, None)" by (simp add: sp_ops_def)
  have "covers (sp_alloc w f) s n (map (\<lambda>t. \<lparr>Logical = t * 4096, Length = 4096, LastFlag = False\<rparr>) ?x)"
    by (rule covers_sectors) (auto simp: set_sp_sectors sorted_wrt_filter sorted_sectors)
  then have c: "covers (sp_alloc w f) s n (take 1024 ?l)" using covers_take covers_spans [OF spans_sectors] by blast
  have "\<not> sp_alloc w f t" if l: "x \<in> set (sp_emap w f)" "LastFlag x" and t: "Logical x + Length x \<le> t * 4096" for x t
  proof
    assume a: "sp_alloc w f t"
    have k: "sp_sectors w f \<noteq> []" "Logical x = last (sp_sectors w f) * 4096" "Length x = 4096"
      using flag_mark_last [OF l(1) [unfolded sp_emap_def] l(2)] by (auto simp: last_map)
    have "t \<le> last (sp_sectors w f)" using sorted_last [OF sorted_sectors] a by (simp add: set_sp_sectors)
    then show False using t k by linarith
  qed
  then have m: "last_marked (sp_alloc w f) n (take 1024 ?l)" by (auto simp: last_marked_def dest!: in_set_takeD)
  have "\<not> sp_alloc w f t" if "take 1024 ?l = []" "s \<le> t" "t < n" for t
  proof -
    have "spans ?l = []" using that(1) by (simp add: spans_def)
    then have "?x = []" unfolding spans_sectors by (simp add: spans_def)
    then show ?thesis using that set_sp_sectors [of t w f] by (auto simp: filter_empty_conv)
  qed
  then show ?case using e c m by blast
next
  case (2 w f n) then show ?case by (simp add: sp_ops_def)
qed

interpretation fse: extent_file fs_ops fs_content fs_alloc fs_avail
proof (unfold_locales, goal_cases)
  case (1 w f n s)
  then show ?case using spe.extents_ok [of "ino_data w" f n s] by (simp add: fs_ops_def fs_avail_def fs_alloc_def)
next
  case (2 w f n) then show ?case by (simp add: fs_ops_def sp_ops_def)
qed

end
