(* ===== verification/ReplicaProps.thy ===== *)
theory ReplicaProps
  imports ReplicaData
begin

text \<open>
  What a replica guarantees: the numbering of its files, its revision counter, the metadata on disk under
  failing system calls, and the walk along its chain.
\<close>

section \<open>Names\<close>

text \<open>The name of a snapshot is recovered from the name of its file.\<close>

theorem snapshot_name_round_trip: "GetSnapshotNameFromDiskName (GenerateSnapshotDiskName name) = Inr name"
proof -
  have "has_suffix imgSuffix (diskPrefix @ name @ imgSuffix)" using has_suffix_append [of imgSuffix "diskPrefix @ name"] by simp
  then show ?thesis by (simp add: GetSnapshotNameFromDiskName_def GenerateSnapshotDiskName_def Let_def)
qed

lemma parse_digits_zeros: "parse_digits (replicate k CHR ''0'' @ s) 0 = parse_digits s 0"
  by (induction k) (simp_all add: digit_val_def)

lemma takeWhile_digits:
  "\<forall>c\<in>set ds. digit_val c \<noteq> None \<Longrightarrow> takeWhile (\<lambda>c. digit_val c \<noteq> None) (ds @ imgSuffix) = ds"
  by (subst takeWhile_append2) (auto simp: imgSuffix_def digit_val_def)

lemma find_head_name:
  assumes "\<forall>c\<in>set ds. digit_val c \<noteq> None" and "ds \<noteq> []"
  shows "find_head (headPrefix @ ds @ imgSuffix) = Some ds"
proof -
  obtain k where k: "length ds = Suc k" using assms(2) by (cases ds) auto
  have "head_digits (length ds) (ds @ imgSuffix) = Some ds" using k by (simp add: imgSuffix_def)
  moreover have "find_head (c # s) = Some ds" if "has_prefix headPrefix (c # s)" "drop (length headPrefix) (c # s) = ds @ imgSuffix"
      "head_digits (length ds) (ds @ imgSuffix) = Some ds" for c s
    using that takeWhile_digits [OF assms(1)] by (simp add: Let_def)
  moreover obtain c s where "headPrefix @ ds @ imgSuffix = c # s" by (simp add: headPrefix_def)
  ultimately show ?thesis by (metis append_eq_conv_conj has_prefix_append)
qed

text \<open>
  C38. Each new head has the number of the old one plus one, for every number that is left below the largest
  one of 64 bits, with at least three digits and with more of them where they are needed.
\<close>

theorem heads_are_numbered:
  assumes "0 \<le> n" and "n < 2 ^ 63 - 1"
  shows "nextFile (headName n) = Inr (headName (n + 1))"
proof -
  let ?ds = "replicate (3 - length (FormatInt n)) CHR ''0'' @ FormatInt n"
  have F: "FormatInt n = format_nat (nat n)" using assms by (simp add: FormatInt_def)
  have "\<forall>c\<in>set ?ds. digit_val c \<noteq> None" using format_nat_digit [of _ "nat n"] F by (auto simp: digit_val_def)
  then have "find_head (headName n) = Some ?ds" using find_head_name [of ?ds] F by (simp add: headName_def)
  moreover have "atoi ?ds = n" using assms parse_format_nat [of "nat n"] F by (simp add: atoi_def parse_digits_zeros)
  moreover have "i64 (n + 1) = n + 1" using assms by (intro i64_id) auto
  moreover have "headName n \<noteq> []" by (simp add: headName_def headPrefix_def)
  ultimately show ?thesis by (simp add: nextFile_def)
qed

theorem heads_are_numbered_witness:
  "nextFile ''volume-head-009.img'' = Inr ''volume-head-010.img'' \<and> nextFile ''volume-head-999.img'' = Inr ''volume-head-1000.img''"
proof -
  have "headName 9 = ''volume-head-009.img''" "headName (9 + 1) = ''volume-head-010.img''"
    "headName 999 = ''volume-head-999.img''" "headName (999 + 1) = ''volume-head-1000.img''" by code_simp+
  then show ?thesis using heads_are_numbered [of 9] heads_are_numbered [of 999] by simp
qed

section \<open>The chain\<close>

text \<open>The disks on the way from a name, up to a bound.\<close>

lemma chain_loop_more: "chain_loop n r c \<noteq> Inl Diverge \<Longrightarrow> n \<le> m \<Longrightarrow> chain_loop m r c = chain_loop n r c"
proof (induction n r c arbitrary: m rule: chain_loop.induct)
  case (1 n r) then show ?case by (cases m) auto
next
  case (2 r c cs) then show ?case by simp
next
  case (3 n r c cs)
  obtain k where k: "m = Suc k" "n \<le> k" using 3(3) by (cases m) auto
  show ?case
  proof (cases "map_of (diskData r) (c # cs)")
    case None then show ?thesis by (simp add: k)
  next
    case (Some p)
    then have "chain_loop n r (dParent (rHeap r p)) \<noteq> Inl Diverge" using 3(2) by (auto split: sum.splits)
    then show ?thesis using 3(1) [OF Some _ k(2)] Some by (simp add: k(1))
  qed
qed

text \<open>The parent of a disk, and the paths along the parents: the names passed on the way from \<open>c\<close> to \<open>d\<close>.\<close>

definition parent_of :: "replica \<Rightarrow> string \<Rightarrow> string option" where
  "parent_of r c = map_option (\<lambda>p. dParent (rHeap r p)) (map_of (diskData r) c)"

fun parent_path :: "replica \<Rightarrow> string \<Rightarrow> string list \<Rightarrow> string \<Rightarrow> bool" where
  "parent_path r c [] d \<longleftrightarrow> c = d"
| "parent_path r c (x # xs) d \<longleftrightarrow> x = c \<and> c \<noteq> [] \<and> (case parent_of r c of None \<Rightarrow> False | Some p \<Rightarrow> parent_path r p xs d)"

lemma chain_loop_step:
  "c \<noteq> [] \<Longrightarrow> chain_loop (Suc n) r c =
     (case parent_of r c of None \<Rightarrow> Inl (Err ''Failed to find metadata'') | Some p \<Rightarrow> map_sum (\<lambda>e. e) (\<lambda>rest. c # rest) (chain_loop n r p))"
  by (cases c) (auto simp: parent_of_def split: option.splits sum.splits)

lemma chain_loop_none: "c \<noteq> [] \<Longrightarrow> chain_loop 0 r c = Inl Diverge"
  by (cases c) auto

lemma parent_path_append: "parent_path r c (xs @ ys) d \<longleftrightarrow> (\<exists>m. parent_path r c xs m \<and> parent_path r m ys d)"
  by (induction xs arbitrary: c) (auto split: option.splits)

lemma parent_path_known: "parent_path r c xs d \<Longrightarrow> set xs \<subseteq> fst ` set (diskData r)"
proof (induction xs arbitrary: c)
  case (Cons x xs)
  then obtain p where "x = c" "parent_of r c = Some p" "parent_path r p xs d" by (auto split: option.splits)
  moreover have "c \<in> fst ` set (diskData r)" if "parent_of r c = Some p"
    using that by (auto simp: parent_of_def dest!: map_of_SomeD) force
  ultimately show ?case using Cons.IH by simp
qed simp

text \<open>What the loop finds along a path, and that its answer tells of a path.\<close>

lemma chain_loop_path:
  "parent_path r c xs d \<Longrightarrow> chain_loop (length xs + n) r c = map_sum (\<lambda>e. e) (\<lambda>rest. xs @ rest) (chain_loop n r d)"
proof (induction xs arbitrary: c)
  case Nil then show ?case by (cases "chain_loop n r d") simp_all
next
  case (Cons x xs)
  then obtain p where "x = c" "c \<noteq> []" "parent_of r c = Some p" "parent_path r p xs d" by (auto split: option.splits)
  then show ?case using Cons.IH [of p] by (cases "chain_loop n r d") (simp_all add: chain_loop_step)
qed

lemma chain_loop_answer:
  "case chain_loop n r c of
     Inr ch \<Rightarrow> parent_path r c ch []
   | Inl Diverge \<Rightarrow> \<exists>xs d. length xs = n \<and> parent_path r c xs d
   | Inl e \<Rightarrow> e = Err ''Failed to find metadata'' \<and> (\<exists>xs d. parent_path r c xs d \<and> d \<noteq> [] \<and> parent_of r d = None)"
proof (induction n arbitrary: c)
  case 0
  show ?case by (cases "c = []") (auto simp: chain_loop_none)
next
  case (Suc n)
  show ?case
  proof (cases "c = []")
    case False
    show ?thesis
    proof (cases "parent_of r c")
      case None then show ?thesis using False by (auto simp: chain_loop_step intro!: exI [of _ "[]"] exI [of _ c])
    next
      case (Some p)
      have longer: "parent_path r c (c # xs) d" if "parent_path r p xs d" for xs d using that False Some by simp
      show ?thesis
      proof (cases "chain_loop n r p")
        case (Inr rest) then show ?thesis using Suc [of p] False Some by (simp add: chain_loop_step)
      next
        case (Inl e)
        then have st: "chain_loop (Suc n) r c = Inl e" using False Some by (simp add: chain_loop_step)
        show ?thesis
        proof (cases "e = Diverge")
          case True
          then obtain xs d where "length xs = n" "parent_path r p xs d" using Suc [of p] Inl by auto
          then show ?thesis using longer st True by (auto intro!: exI [of _ "c # xs"] exI [of _ d])
        next
          case other: False
          then obtain xs d where "e = Err ''Failed to find metadata''" "parent_path r p xs d" "d \<noteq> []" "parent_of r d = None"
            using Suc [of p] Inl by (auto split: error.splits)
          then show ?thesis using longer st by (auto intro!: exI [of _ "c # xs"] exI [of _ d])
        qed
      qed
    qed
  qed simp
qed

lemma cycle_diverges:
  assumes "parent_path r c cyc c" and "cyc \<noteq> []"
  shows "chain_loop n r c = Inl Diverge"
proof (induction n rule: less_induct)
  case (less n)
  show ?case
  proof (cases "length cyc \<le> n")
    case True
    then have "chain_loop n r c = map_sum (\<lambda>e. e) (\<lambda>rest. cyc @ rest) (chain_loop (n - length cyc) r c)"
      using chain_loop_path [OF assms(1), of "n - length cyc"] by simp
    moreover have "n - length cyc < n" using True assms(2) by (cases cyc) auto
    ultimately show ?thesis using less [of "n - length cyc"] by simp
  next
    case False
    show ?thesis
    proof (rule ccontr)
      assume "chain_loop n r c \<noteq> Inl Diverge"
      then have "chain_loop (length cyc + 0) r c = chain_loop n r c" using chain_loop_more [of n r c "length cyc"] False by simp
      moreover have "c \<noteq> []" using assms by (cases cyc) auto
      ultimately show False using \<open>chain_loop n r c \<noteq> Inl Diverge\<close> chain_loop_path [OF assms(1), of 0] by (simp add: chain_loop_none)
    qed
  qed
qed

lemma long_path_cycles:
  assumes "parent_path r c xs d" and "length (diskData r) < length xs"
  shows "\<exists>ys m cyc. parent_path r c ys m \<and> cyc \<noteq> [] \<and> parent_path r m cyc m"
proof -
  have "card (set xs) \<le> card (fst ` set (diskData r))" by (intro card_mono parent_path_known [OF assms(1)]) simp
  also have "\<dots> \<le> length (diskData r)" by (metis card_length length_map set_map)
  finally have "\<not> distinct xs" using assms(2) by (metis distinct_card not_le)
  then obtain as bs es y where x: "xs = as @ [y] @ bs @ [y] @ es" using not_distinct_decomp by blast
  then have "parent_path r c (as @ (y # bs) @ (y # es)) d" using assms(1) by simp
  then obtain m m' where "parent_path r c as m" "parent_path r m (y # bs) m'" "parent_path r m' (y # es) d"
    unfolding parent_path_append by blast
  then show ?thesis by (intro exI [of _ as] exI [of _ y] exI [of _ "y # bs"]) auto
qed

lemma cycle_reached_diverges: "parent_path r c ys m \<Longrightarrow> cyc \<noteq> [] \<Longrightarrow> parent_path r m cyc m \<Longrightarrow> chain_loop n r c = Inl Diverge"
  using chain_loop_path [of r c ys m n] cycle_diverges [of r m cyc n] chain_loop_more [of n r c "length ys + n"] by fastforce

text \<open>
  C28. What \<open>Chain\<close> returns, in terms of the paths from the head along the parents.  It is the list of
  the names on the path that ends at a disk without a parent; an error if the path leads to a name without
  metadata; and it does not return exactly when the path runs into a cycle.
\<close>

theorem chain_is_parent_path:
  "(Chain r = Inr ch \<longleftrightarrow> parent_path r (iHead (rInfo r)) ch []) \<and>
   (Chain r = Inl (Err ''Failed to find metadata'') \<longleftrightarrow>
      (\<exists>xs d. parent_path r (iHead (rInfo r)) xs d \<and> d \<noteq> [] \<and> parent_of r d = None)) \<and>
   (Chain r = Inl Diverge \<longleftrightarrow> (\<exists>xs d cyc. parent_path r (iHead (rInfo r)) xs d \<and> cyc \<noteq> [] \<and> parent_path r d cyc d))"
proof -
  let ?h = "iHead (rInfo r)" and ?n = "Suc (length (diskData r))"
  have same: "Chain r = x" if "chain_loop m r ?h = x" "x \<noteq> Inl Diverge" "Chain r \<noteq> Inl Diverge" for m x
    using chain_loop_more [of m r ?h "max m ?n"] chain_loop_more [of ?n r ?h "max m ?n"] that by (simp add: Chain_def)
  have answer: "case Chain r of Inr ch \<Rightarrow> parent_path r ?h ch [] | Inl Diverge \<Rightarrow> \<exists>xs d. length xs = ?n \<and> parent_path r ?h xs d
      | Inl e \<Rightarrow> e = Err ''Failed to find metadata'' \<and> (\<exists>xs d. parent_path r ?h xs d \<and> d \<noteq> [] \<and> parent_of r d = None)"
    unfolding Chain_def by (rule chain_loop_answer)
  have d: "Chain r = Inl Diverge \<longleftrightarrow> (\<exists>xs d cyc. parent_path r ?h xs d \<and> cyc \<noteq> [] \<and> parent_path r d cyc d)"
  proof
    assume "Chain r = Inl Diverge"
    then obtain xs d where "length xs = ?n" "parent_path r ?h xs d" using answer by auto
    then show "\<exists>xs d cyc. parent_path r ?h xs d \<and> cyc \<noteq> [] \<and> parent_path r d cyc d" using long_path_cycles [of r ?h xs d] by simp
  qed (use cycle_reached_diverges in \<open>auto simp: Chain_def\<close>)
  have all: "chain_loop n r ?h = Inl Diverge" if "Chain r = Inl Diverge" for n using that d cycle_reached_diverges by blast
  have i: "Chain r = Inr ch" if p: "parent_path r ?h ch []"
    using chain_loop_path [OF p, of 0] same [of "length ch"] all [of "length ch"] by auto
  have e: "Chain r = Inl (Err ''Failed to find metadata'')" if p: "parent_path r ?h xs d" "d \<noteq> []" "parent_of r d = None" for xs d
    using chain_loop_path [OF p(1), of 1] same [of "length xs + 1"] all [of "length xs + 1"] p(2,3) chain_loop_step [of d 0 r] by auto
  show ?thesis using answer i e d by (intro conjI iffI) (auto split: sum.splits)
qed

section \<open>The revision counter\<close>

text \<open>A replica with one snapshot (file 1), a head (file 2) and a counter (file 3), in mode \<open>RW\<close>.\<close>

definition lab_fs :: fs where
  "lab_fs = \<lparr>dirents = [''volume-snap-s0.img'' \<mapsto> 1, ''volume-head-001.img'' \<mapsto> 2, ''revision.counter'' \<mapsto> 3, ''volume.meta'' \<mapsto> 4],
     ino_data = (\<lambda>f. \<lparr>sdata = (\<lambda>p. 0), salloc = (\<lambda>s. f = 1 \<and> s = 0), slen = 8192\<rparr>),
     ino_meta = (\<lambda>i. if i = 4 then Some (MInfo info0) else None), next_ino = 5, have_dir = True, tick = 0, faults = (\<lambda>_. None)\<rparr>"

definition lab_renv :: renv where
  "lab_renv = \<lparr>reF = fs_ops, reMetaSize = (\<lambda>_. 0), reMaxChainLength = 512, rePunch = True, reFuel = 10, reRAMInBytes = ParseInt\<rparr>"

definition lab_replica :: replica where
  "lab_replica = (new_replica 8192 4096 None [] NoDrain)\<lparr>rMode := RW, revisionFile := Some 3, revisionCache := 41,
     rVolume := \<lparr>location = [0, 0], UsedLogicalBlocks = 0, UsedBlocks = 0, files = [None, Some 1, Some 2],
       UserCreatedSnap = [False, False, False], SnapIndx = 0, sectorSize = 4096\<rparr>\<rparr>"

lemma lab_ok: "rep_ok fs_avail lab_replica lab_fs"
  by (auto simp: rep_ok_def lab_replica_def new_replica_def wf_disk_def wf_shape_def vol_size_def fs_avail_def sp_avail_def lab_fs_def
      nth_Cons' all_safe_def)

text \<open>
  C36. A revision counter that is written is read back, for every 64-bit number; the write touches neither
  the data of the volume nor the replica's state.
\<close>

theorem counter_round_trip:
  assumes "rep_ok fs_avail r w" and "reF E = fs_ops" and "- (2 ^ 63) \<le> n" "n < 2 ^ 63"
  shows "\<exists>w'. writeRevisionCounter E n (r, w) = (Inr (), r, w') \<and> fst (readRevisionCounter E (r, w')) = Inr n \<and>
    rep_ok fs_avail r w' \<and> (\<forall>p. 0 \<le> p \<and> p < vol_size (rVolume r) \<longrightarrow> rep_byte fs_content fs_alloc r w' p = rep_byte fs_content fs_alloc r w p)"
  using fso.writeRevisionCounter_ok [OF assms, where P = "\<lambda>_. True"] by blast

theorem counter_round_trip_witness:
  "\<exists>w'. writeRevisionCounter lab_renv (-7) (lab_replica, lab_fs) = (Inr (), lab_replica, w') \<and>
     fst (readRevisionCounter lab_renv (lab_replica, w')) = Inr (-7)"
  using counter_round_trip [OF lab_ok, of lab_renv "-7"] by (auto simp: lab_renv_def)

text \<open>
  C8. A write to a replica in mode \<open>RW\<close> changes exactly the bytes of the request, and moves the revision
  counter on by one, in memory and in its file.
\<close>

theorem write_moves_counter:
  assumes "rep_ok fs_avail r w" and "0 \<le> off" "off + int (length buf) \<le> vol_size (rVolume r)" and "reF E = fs_ops" and "rMode r = RW"
  shows "\<exists>r' w'. r_WriteAt E buf off (r, w) = ((write_count off (length buf), None), r', w') \<and> rep_ok fs_avail r' w' \<and>
    (\<forall>p. 0 \<le> p \<and> p < vol_size (rVolume r) \<longrightarrow>
       rep_byte fs_content fs_alloc r' w' p = overwrite (rep_byte fs_content fs_alloc r w) off buf p) \<and>
    revisionCache r' = i64 (revisionCache r + 1) \<and> fst (readRevisionCounter E (r', w')) = Inr (revisionCache r')"
  using fso.r_WriteAt_RW [OF assms, where P = "\<lambda>_. True"] by blast

theorem write_moves_counter_witness:
  "\<exists>r' w'. r_WriteAt lab_renv [1, 2, 3] 4095 (lab_replica, lab_fs) = ((write_count 4095 3, None), r', w') \<and>
     revisionCache r' = 42 \<and> fst (readRevisionCounter lab_renv (r', w')) = Inr 42"
proof -
  have "\<exists>r' w'. r_WriteAt lab_renv [1, 2, 3] 4095 (lab_replica, lab_fs) = ((write_count 4095 (length [1 :: byte, 2, 3]), None), r', w') \<and>
      rep_ok fs_avail r' w' \<and>
      (\<forall>p. 0 \<le> p \<and> p < vol_size (rVolume lab_replica) \<longrightarrow>
         rep_byte fs_content fs_alloc r' w' p = overwrite (rep_byte fs_content fs_alloc lab_replica lab_fs) 4095 [1, 2, 3] p) \<and>
      revisionCache r' = i64 (revisionCache lab_replica + 1) \<and> fst (readRevisionCounter lab_renv (r', w')) = Inr (revisionCache r')"
    by (rule write_moves_counter [OF lab_ok]) (simp_all add: lab_renv_def lab_replica_def new_replica_def vol_size_def)
  moreover have "i64 (revisionCache lab_replica + 1) = 42" by (simp add: lab_replica_def new_replica_def i64_def)
  ultimately show ?thesis by (auto simp: numeral_3_eq_3)
qed

text \<open>
  C40. A replica in a mode that is neither \<open>RW\<close> nor \<open>WO\<close> answers a write with an error, and has written the
  data all the same.
\<close>

theorem refused_mode_still_writes:
  assumes "rep_ok fs_avail r w" and "0 \<le> off" "off + int (length buf) \<le> vol_size (rVolume r)" and "reF E = fs_ops"
    and "rMode r \<noteq> RW" "rMode r \<noteq> WO"
  shows "\<exists>r' w'. r_WriteAt E buf off (r, w) = ((write_count off (length buf), Some (Err ''write happening on invalid rep state'')), r', w') \<and>
    revisionCache r' = revisionCache r \<and>
    (\<forall>p. 0 \<le> p \<and> p < vol_size (rVolume r) \<longrightarrow>
       rep_byte fs_content fs_alloc r' w' p = overwrite (rep_byte fs_content fs_alloc r w) off buf p)"
  using fso.r_WriteAt_other [OF assms(1-5), where P = "\<lambda>_. True"] assms(6) by auto

theorem refused_mode_still_writes_witness:
  "\<exists>r' w'. r_WriteAt lab_renv [9] 0 (lab_replica\<lparr>rMode := INIT\<rparr>, lab_fs) =
      ((write_count 0 1, Some (Err ''write happening on invalid rep state'')), r', w') \<and> rep_byte fs_content fs_alloc r' w' 0 = 9"
proof -
  have ok: "rep_ok fs_avail (lab_replica\<lparr>rMode := INIT\<rparr>) lab_fs" using lab_ok by (simp add: rep_ok_def)
  have "\<exists>r' w'. r_WriteAt lab_renv [9] 0 (lab_replica\<lparr>rMode := INIT\<rparr>, lab_fs) =
      ((write_count 0 (length [9 :: byte]), Some (Err ''write happening on invalid rep state'')), r', w') \<and>
    revisionCache r' = revisionCache (lab_replica\<lparr>rMode := INIT\<rparr>) \<and>
    (\<forall>p. 0 \<le> p \<and> p < vol_size (rVolume (lab_replica\<lparr>rMode := INIT\<rparr>)) \<longrightarrow>
       rep_byte fs_content fs_alloc r' w' p = overwrite (rep_byte fs_content fs_alloc (lab_replica\<lparr>rMode := INIT\<rparr>) lab_fs) 0 [9] p)"
    by (rule refused_mode_still_writes [OF ok]) (simp_all add: lab_renv_def lab_replica_def new_replica_def vol_size_def)
  moreover have "0 < vol_size (rVolume lab_replica)" by (simp add: lab_replica_def new_replica_def vol_size_def)
  moreover have "overwrite f 0 [9] 0 = 9" for f by (simp add: overwrite_def)
  ultimately show ?thesis by fastforce
qed

section \<open>Metadata\<close>

text \<open>The value that the file with a name holds.\<close>

definition meta_at :: "fs \<Rightarrow> string \<Rightarrow> meta option" where
  "meta_at w name = (case dirents w name of None \<Rightarrow> None | Some i \<Rightarrow> ino_meta w i)"

text \<open>The inodes are in use and the temporary file is a file of its own.\<close>

definition tmp_apart :: "fs \<Rightarrow> string \<Rightarrow> bool" where
  "tmp_apart w name \<longleftrightarrow>
     (case dirents w name of None \<Rightarrow> True | Some i \<Rightarrow> i < next_ino w \<and> dirents w (name @ ''.tmp'') \<noteq> Some i)"

text \<open>The names and the values of a file system, which most calls leave alone.\<close>

definition names_kept :: "fs \<Rightarrow> fs \<Rightarrow> bool" where
  "names_kept w w' \<longleftrightarrow> dirents w' = dirents w \<and> ino_meta w' = ino_meta w"

lemma names_kept_meta: "names_kept w w' \<Longrightarrow> meta_at w' name = meta_at w name"
  by (simp add: names_kept_def meta_at_def cong: option.case_cong)

lemma names_kept_sys: "(\<And>w. names_kept w (snd (f w))) \<Longrightarrow> names_kept w (snd (sys f w))"
  using spec [of "\<lambda>w'. names_kept w' (snd (f w'))" "w\<lparr>tick := tick w + 1\<rparr>"] by (simp add: sys_def names_kept_def split: option.splits)

lemma names_kept_Close: "names_kept w (snd (os_Close w))"
  unfolding os_Close_def by (rule names_kept_sys) (simp add: names_kept_def)

lemma names_kept_SyncDir: "names_kept w (snd (fs_SyncDir w))"
  by (auto simp: fs_SyncDir_def sys_def os_Close_def names_kept_def split: option.splits sum.splits unit.splits)

lemma open_tmp:
  assumes "tmp_apart w name" and "os_Open True True (name @ ''.tmp'') w = (x, w1)"
  shows "meta_at w1 name = meta_at w name \<and> dirents w1 name = dirents w name \<and>
    (\<forall>i. x = Inr i \<longrightarrow> dirents w1 (name @ ''.tmp'') = Some i \<and> dirents w name \<noteq> Some i \<and> tick w1 = Suc (tick w) \<and> faults w1 = faults w)"
  using assms by (auto simp: os_Open_def sys_def tmp_apart_def meta_at_def split: option.splits if_splits)

lemma rename_tmp:
  assumes "dirents w (name @ ''.tmp'') = Some i" and "os_Rename (name @ ''.tmp'') name w = (x, w1)"
  shows "ino_meta w1 = ino_meta w \<and> (x = Inr () \<and> dirents w1 name = Some i \<or> (\<exists>e. x = Inl e) \<and> dirents w1 name = dirents w name)"
  using assms by (auto simp: os_Rename_def sys_def split: option.splits)

text \<open>
  C17. Whichever system calls fail, and wherever a crash cuts the sequence of calls off, a metadata file has
  either its old value or the new one, and the new one when the operation succeeds, provided that
  the call that writes the value (the second one) is not one of those that fail.
\<close>

theorem metadata_replaced_atomically:
  assumes t: "tmp_apart w name" and enc: "faults w (Suc (tick w)) = None" and ro: "\<not> readOnly r"
    and st: "encodeToFile obj name (r, w) = (res, r', w')"
  shows "(meta_at w' name = meta_at w name \<or> meta_at w' name = Some obj) \<and> (res = Inr () \<longrightarrow> meta_at w' name = Some obj)"
proof -
  obtain x1 w1 where o: "os_Open True True (name @ ''.tmp'') w = (x1, w1)" by (metis prod.exhaust)
  note o' = open_tmp [OF t o]
  show ?thesis
  proof (cases x1)
    case (Inl e) then show ?thesis using st ro o o' by (auto simp: encodeToFile_def rop_defs)
  next
    case (Inr i)
    define w2 where "w2 = w1\<lparr>tick := Suc (tick w1), ino_meta := (ino_meta w1)(i \<mapsto> obj)\<rparr>"
    have e: "json_Encode i obj w1 = (Inr (), w2)" using o' Inr enc by (simp add: json_Encode_def sys_def w2_def)
    have m2: "meta_at w2 name = meta_at w name" "dirents w2 (name @ ''.tmp'') = Some i" "ino_meta w2 i = Some obj"
      using o' Inr by (auto simp: w2_def meta_at_def split: option.splits)
    obtain x3 w3 where c: "os_Close w2 = (x3, w3)" by (metis prod.exhaust)
    have k3: "names_kept w2 w3" using names_kept_Close [of w2] c by simp
    obtain x4 w4 where rn: "os_Rename (name @ ''.tmp'') name w3 = (x4, w4)" by (metis prod.exhaust)
    obtain x5 w5 where sy: "fs_SyncDir w4 = (x5, w5)" by (metis prod.exhaust)
    have k5: "names_kept w4 w5" using names_kept_SyncDir [of w4] sy by simp
    have m3: "meta_at w3 name = meta_at w name" "dirents w3 (name @ ''.tmp'') = Some i" "ino_meta w3 i = Some obj"
      using m2 k3 names_kept_meta [OF k3] by (simp_all add: names_kept_def)
    have w': "(res, w') = (case x3 of Inl e \<Rightarrow> (Inl e, w3) | Inr _ \<Rightarrow> (case x4 of Inl e \<Rightarrow> (Inl e, w4) | Inr _ \<Rightarrow> (x5, w5)))"
      using st ro o Inr e c rn sy by (auto simp: encodeToFile_def rop_defs split: sum.splits)
    have rn': "meta_at w4 name = meta_at w name \<or> meta_at w4 name = Some obj" "x4 = Inr () \<Longrightarrow> meta_at w4 name = Some obj"
      using rename_tmp [OF m3(2) rn] m3 by (auto simp: meta_at_def cong: option.case_cong)
    show ?thesis using w' m3 rn' names_kept_meta [OF k5] by (auto split: sum.splits)
  qed
qed

theorem metadata_replaced_atomically_witness:
  "meta_at (snd (snd (encodeToFile (MInfo (info0\<lparr>iDirty := True\<rparr>)) volumeMetaData (lab_replica, lab_fs)))) volumeMetaData =
     Some (MInfo (info0\<lparr>iDirty := True\<rparr>))"
proof -
  let ?m = "MInfo (info0\<lparr>iDirty := True\<rparr>)"
  have st: "encodeToFile ?m volumeMetaData (lab_replica, lab_fs) =
      (Inr (), fst (snd (encodeToFile ?m volumeMetaData (lab_replica, lab_fs))), snd (snd (encodeToFile ?m volumeMetaData (lab_replica, lab_fs))))"
    by (simp add: encodeToFile_def rop_defs lab_replica_def new_replica_def lab_fs_def os_Open_def sys_def json_Encode_def os_Close_def
        os_Rename_def fs_SyncDir_def volumeMetaData_def split: unit.splits)
  have "tmp_apart lab_fs volumeMetaData" by (simp add: tmp_apart_def lab_fs_def volumeMetaData_def)
  then show ?thesis using metadata_replaced_atomically [OF _ _ _ st] by (simp add: lab_fs_def lab_replica_def new_replica_def)
qed

lemma SyncDir_ok:
  "have_dir w \<Longrightarrow> \<forall>n\<ge>tick w. faults w n = None \<Longrightarrow> fs_SyncDir w = (Inr (), w\<lparr>tick := tick w + 3\<rparr>)"
  by (simp add: fs_SyncDir_def sys_def os_Close_def eval_nat_numeral split: unit.splits)

text \<open>
  C18. The proviso is needed: the result of the encoder is not looked at.  On every replica that may write,
  for every file and value, when the call that writes the value is the one that fails, the operation still
  succeeds, and an empty file has replaced the metadata.
\<close>

theorem encode_failure_loses_metadata:
  assumes "\<not> readOnly r" and "have_dir w" and "faults w (Suc (tick w)) = Some e" and "\<not> crashes e"
    and "\<forall>n. n \<noteq> Suc (tick w) \<longrightarrow> faults w n = None"
  shows "\<exists>w' i. encodeToFile obj name (r, w) = (Inr (), r, w') \<and> dirents w' name = Some i \<and> ino_data w' i = empty_file \<and> meta_at w' name = None"
proof -
  define i where "i = (case dirents w (name @ ''.tmp'') of Some i \<Rightarrow> i | None \<Rightarrow> next_ino w)"
  define w1 where "w1 = w\<lparr>tick := Suc (tick w), dirents := (dirents w)(name @ ''.tmp'' \<mapsto> i), next_ino := (if dirents w (name @ ''.tmp'') = None then next_ino w + 1 else next_ino w),
    ino_data := (ino_data w)(i := empty_file), ino_meta := (ino_meta w)(i := None)\<rparr>"
  have o: "os_Open True True (name @ ''.tmp'') w = (Inr i, w1)"
    using assms(2,5) by (cases "dirents w (name @ ''.tmp'')") (simp_all add: os_Open_def sys_def i_def w1_def fun_upd_idem)
  have en: "json_Encode i obj w1 = (Inl e, w1\<lparr>tick := tick w1 + 1\<rparr>)" using assms(3) by (simp add: json_Encode_def sys_def w1_def)
  define w3 where "w3 = w1\<lparr>tick := tick w1 + 2\<rparr>"
  have cl: "os_Close (w1\<lparr>tick := tick w1 + 1\<rparr>) = (Inr (), w3)" using assms(5) by (simp add: os_Close_def sys_def w1_def w3_def)
  define w4 where "w4 = w3\<lparr>tick := tick w3 + 1, dirents := (dirents w3)(name @ ''.tmp'' := None, name \<mapsto> i)\<rparr>"
  have rn: "os_Rename (name @ ''.tmp'') name w3 = (Inr (), w4)" using assms(5) by (simp add: os_Rename_def sys_def w1_def w3_def w4_def)
  have "have_dir w4" "\<forall>n\<ge>tick w4. faults w4 n = None" using assms(2,5) by (simp_all add: w1_def w3_def w4_def)
  note sy = SyncDir_ok [OF this]
  have "encodeToFile obj name (r, w) = (Inr (), r, w4\<lparr>tick := tick w4 + 3\<rparr>)"
    using assms(1,4) o en cl rn sy by (cases e) (simp_all add: encodeToFile_def rop_defs)
  then show ?thesis by (simp add: w4_def w3_def w1_def meta_at_def)
qed

theorem encode_failure_loses_metadata_witness:
  "\<exists>w' i. encodeToFile (MInfo info0) volumeMetaData (lab_replica, lab_fs\<lparr>faults := (\<lambda>n. if n = 1 then Some (Err ''no space left on device'') else None)\<rparr>) =
     (Inr (), lab_replica, w') \<and> meta_at lab_fs volumeMetaData = Some (MInfo info0) \<and> dirents w' volumeMetaData = Some i \<and> meta_at w' volumeMetaData = None"
proof -
  let ?w = "lab_fs\<lparr>faults := (\<lambda>n. if n = 1 then Some (Err ''no space left on device'') else None)\<rparr>"
  have h: "\<not> readOnly lab_replica" "have_dir ?w" "faults ?w (Suc (tick ?w)) = Some (Err ''no space left on device'')" "\<not> crashes (Err ''no space left on device'')"
      "\<forall>n. n \<noteq> Suc (tick ?w) \<longrightarrow> faults ?w n = None"
    by (simp_all add: lab_replica_def new_replica_def lab_fs_def)
  have "meta_at lab_fs volumeMetaData = Some (MInfo info0)" by (simp add: meta_at_def lab_fs_def volumeMetaData_def)
  then show ?thesis using encode_failure_loses_metadata [OF h, of "MInfo info0" volumeMetaData] by blast
qed

end
