(* ===== verification/SnapshotProps.thy ===== *)
theory SnapshotProps
  imports PreloadCorrect ReplicaProps
begin

text \<open>
  Snapshots and the volume: the map built at the start against lookups, removal of a snapshot, what writes
  and their holes do to the files below the head.
\<close>

section \<open>Opening\<close>

text \<open>
  C4. \<open>preload\<close> builds the map of the volume, over any files whose calls satisfy the laws of
  \<open>extent_file\<close>: it returns, for each sector the entry is the index of the newest file that has the
  sector, or 0 when none has it, and the map is in range.  So the volume reads exactly as it does with an
  empty map, in which case each sector is looked up in the extents of the files, from the head down.  Each
  hole that was asked for lies in a file in which no sector of it is live.  One call for each sector is
  enough to read the extents of a file.
\<close>

theorem preload_equals_lookup:
  assumes F: "extent_file F content alloc avail"
    and "wf_disk (avail w) d" and "\<forall>t\<in>set (location d). t = 0" and "vol_size d < 2 ^ 64" "length (location d) < fuel"
    and "length (files d) \<le> length (UserCreatedSnap d)"
  shows "\<exists>d' hs. preload F punch fuel (d, w, ch) = Some (None, d', w, ch @ hs) \<and> wf_disk (avail w) d' \<and>
    files d' = files d \<and> length (location d') = length (location d) \<and>
    (\<forall>t<length (location d). newest_owner (alloc w) (files d) (int t) (location d' ! t)) \<and>
    (\<forall>h\<in>set hs. hole_safe d' h) \<and>
    (\<forall>p. 0 \<le> p \<and> p < vol_size d \<longrightarrow> vol_byte (content w) (alloc w) d' p = vol_byte (content w) (alloc w) d p)"
proof -
  obtain d' hs where p: "preload F punch fuel (d, w, ch) = Some (None, d', w, ch @ hs)" "wf_disk (avail w) d'" "same_chain d d'"
    "\<forall>h\<in>set hs. hole_safe d' h" "\<forall>t<length (location d). newest_owner (alloc w) (files d) (int t) (location d' ! t)"
    and s: "\<And>s. 0 \<le> s \<and> s < int (length (location d)) \<Longrightarrow> sector_src (alloc w) d' s = sector_src (alloc w) d s"
    using extent_file.preload_ok [OF F assms(2-6), of punch ch] by blast
  have "vol_byte (content w) (alloc w) d' q = vol_byte (content w) (alloc w) d q" if "0 \<le> q" "q < vol_size d" for q
    using s [of "q div 4096"] sector_in_range [OF that] p(3) by (simp add: vol_byte_def same_chain_def)
  then show ?thesis using p by (auto simp: same_chain_def)
qed

theorem preload_equals_lookup_witness:
  "\<exists>d' hs. preload fs_ops True 3 (rVolume lab_replica, lab_fs, []) = Some (None, d', lab_fs, hs) \<and> location d' = [1, 0] \<and>
     vol_byte (fs_content lab_fs) (fs_alloc lab_fs) d' 5 = vol_byte (fs_content lab_fs) (fs_alloc lab_fs) (rVolume lab_replica) 5"
proof -
  have "wf_disk (fs_avail lab_fs) (rVolume lab_replica)" using lab_ok by (simp add: rep_ok_def)
  moreover have v: "vol_size (rVolume lab_replica) = 8192" by (simp add: lab_replica_def new_replica_def vol_size_def)
  moreover have l: "location (rVolume lab_replica) = [0, 0]" "length (files (rVolume lab_replica)) \<le> length (UserCreatedSnap (rVolume lab_replica))"
      "files (rVolume lab_replica) = [None, Some 1, Some 2]"
    by (simp_all add: lab_replica_def new_replica_def)
  ultimately obtain d' hs where p: "preload fs_ops True 3 (rVolume lab_replica, lab_fs, []) = Some (None, d', lab_fs, hs)" "length (location d') = 2"
      "\<forall>t<2. newest_owner (fs_alloc lab_fs) [None, Some 1, Some 2] (int t) (location d' ! t)"
      "vol_byte (fs_content lab_fs) (fs_alloc lab_fs) d' 5 = vol_byte (fs_content lab_fs) (fs_alloc lab_fs) (rVolume lab_replica) 5"
    using preload_equals_lookup [OF fse.extent_file_axioms, of lab_fs "rVolume lab_replica" 3 True "[]"] by (auto simp: numeral_2_eq_2)
  have al: "fs_alloc lab_fs f s \<longleftrightarrow> f = 1 \<and> s = 0" for f s by (auto simp: fs_alloc_def sp_alloc_def lab_fs_def)
  have "newest_owner (fs_alloc lab_fs) [None, Some 1, Some 2] 0 (location d' ! 0)" "newest_owner (fs_alloc lab_fs) [None, Some 1, Some 2] 1 (location d' ! 1)"
    using p(3) by (force simp: numeral_2_eq_2)+
  then have "location d' ! 0 = 1" "location d' ! 1 = 0"
    by (auto simp: newest_owner_def al list_all_iff nth_Cons' numeral_3_eq_3 less_Suc_eq split: if_splits)
  then have "location d' = [1, 0]" using p(2) by (auto simp: list_eq_iff_nth_eq less_Suc_eq numeral_2_eq_2)
  then show ?thesis using p by blast
qed

text \<open>
  C27. Whatever is read, written and punched, the volume keeps its shape: index 0 is nil and the others are
  distinct files, every entry of the map is the index of a file, and every pending hole is one of whole
  sectors inside of the volume, in a file that is older than the ones its sectors live in.
\<close>

theorem volume_keeps_shape:
  assumes "wf_disk (fs_avail w) d" and "all_safe (d, w, ch)" and "\<forall>r\<in>set rs. req_in (vol_size d) r"
    and "snd (io_run fs_ops punch rs (ops, d, w, ch)) = (ops', d', w', ch')"
  shows "wf_shape d' \<and> (\<forall>h\<in>set ch'. hole_safe d' h)"
proof -
  have "fso.io_rel (vol_size d) (ops, d, w, ch) (vol_byte (fs_content w) (fs_alloc w) d)" using assms(1,2) by (simp add: fso.io_rel_def)
  from fso.io_run_sim [OF this assms(3), of punch] show ?thesis using assms(4) by (auto simp: fso.io_rel_def wf_disk_def all_safe_def)
qed

theorem volume_keeps_shape_witness:
  "case snd (io_run fs_ops True [ReqWrite [7, 8] 4095, ReqPunch] (NoDrain, rVolume lab_replica, lab_fs, [])) of (ops', d', w', ch') \<Rightarrow> wf_shape d'"
proof -
  obtain ops' d' w' ch' where s: "snd (io_run fs_ops True [ReqWrite [7, 8] 4095, ReqPunch] (NoDrain, rVolume lab_replica, lab_fs, [])) = (ops', d', w', ch')"
    by (metis prod_cases4)
  have "wf_disk (fs_avail lab_fs) (rVolume lab_replica)" using lab_ok by (simp add: rep_ok_def)
  moreover have "vol_size (rVolume lab_replica) = 8192" by (simp add: lab_replica_def new_replica_def vol_size_def)
  ultimately show ?thesis using volume_keeps_shape [OF _ _ _ s] unfolding s by (simp add: all_safe_def)
qed

section \<open>Removing a snapshot\<close>

text \<open>
  A file is folded into the one below it: what the file has is, with the same bytes, in the file below.
  That is the result of \<open>coalesce\<close>, which precedes the removal.
\<close>

definition coalesced :: "('f \<Rightarrow> int \<Rightarrow> byte) \<Rightarrow> ('f \<Rightarrow> int \<Rightarrow> bool) \<Rightarrow> 'f diffDisk \<Rightarrow> nat \<Rightarrow> bool" where
  "coalesced ct al d i \<longleftrightarrow>
     (\<forall>s. 0 \<le> s \<and> s < int (length (location d)) \<and> (location d ! nat s = i \<or> al (the (files d ! i)) s) \<longrightarrow>
        al (the (files d ! (i - 1))) s \<and> (\<forall>p. p div 4096 = s \<longrightarrow> ct (the (files d ! (i - 1))) p = ct (the (files d ! i)) p))"

lemma upt_split: "i \<le> j \<Longrightarrow> j \<le> n \<Longrightarrow> [i..<n] = [i..<j] @ [j..<n]"
  by (metis le_add_diff_inverse upt_add_eq_append)

lemma last_filter_split:
  assumes "2 \<le> i" "i < n"
  shows "last (1 # filter P [2..<n]) = (if filter P [Suc i..<n] \<noteq> [] then last (filter P [Suc i..<n])
     else if P i then i else last (1 # filter P [2..<i]))"
proof -
  have "[2..<n] = [2..<i] @ i # [Suc i..<n]" using upt_split [of 2 i n] assms by (simp add: upt_conv_Cons)
  then show ?thesis by simp
qed

lemma newest_is: "newest al fs s = 1 \<or> al (the (fs ! newest al fs s)) s"
proof (cases "filter (\<lambda>i. al (the (fs ! i)) s) [2..<length fs] = []")
  case False then show ?thesis using last_in_set [OF False] by (simp add: newest_def)
qed (simp add: newest_def)

lemma newest_removed:
  assumes "2 \<le> i" "i < length fs" and c: "P i \<Longrightarrow> P (i - 1)" and P: "P = (\<lambda>j. al (the (fs ! j)) s)" and g: "g = take i fs @ drop (i + 1) fs"
  shows "newest al g s = (let k = newest al fs s in if i \<le> k then k - 1 else k)"
proof -
  have l: "length g = length fs - 1" using assms by simp
  have lo: "g ! j = fs ! j" if "j < i" for j using that assms by (simp add: nth_append)
  have hi: "g ! j = fs ! Suc j" if "i \<le> j" for j using that assms by (simp add: nth_append)
  let ?Q = "\<lambda>j. al (the (g ! j)) s"
  have f1: "filter ?Q [2..<i] = filter P [2..<i]" by (rule filter_cong) (auto simp: P lo)
  have f2: "filter P [Suc i..<length fs] = map Suc (filter ?Q [i..<length fs - 1])"
  proof -
    have "Suc (length fs - 1) = length fs" using assms(2) by simp
    then have "[Suc i..<length fs] = map Suc [i..<length fs - 1]" using map_Suc_upt [of i "length fs - 1"] by simp
    moreover have "filter ?Q [i..<length fs - 1] = filter (\<lambda>j. P (Suc j)) [i..<length fs - 1]" by (rule filter_cong) (auto simp: P hi)
    ultimately show ?thesis by (simp add: filter_map comp_def)
  qed
  have u: "[2..<length fs - 1] = [2..<i] @ [i..<length fs - 1]" using assms by (intro upt_split) auto
  have lb: "last (1 # filter P [2..<i]) < i" using assms(1)
    by (cases "filter P [2..<i] = []") (auto dest!: last_in_set)
  have pi: "last (1 # filter P [2..<i]) = i - 1" if "P i"
  proof (cases "i = 2")
    case False
    then obtain k where k: "i = Suc k" "2 \<le> k" using assms(1) by (cases i) auto
    then show ?thesis using c [OF that] by simp
  qed (simp add: numeral_2_eq_2)
  have "newest al g s = last (1 # filter P [2..<i] @ filter ?Q [i..<length fs - 1])" unfolding newest_def l u filter_append f1 ..
  moreover have "newest al fs s = (if filter P [Suc i..<length fs] \<noteq> [] then last (filter P [Suc i..<length fs])
     else if P i then i else last (1 # filter P [2..<i]))" using last_filter_split [OF assms(1,2), of P] by (simp add: newest_def P)
  moreover have "last (map Suc xs) = Suc (last xs) \<and> i \<le> last xs" if "xs = filter ?Q [i..<length fs - 1]" "xs \<noteq> []" for xs
    using last_in_set [OF that(2)] that by (auto simp: last_map)
  ultimately show ?thesis using lb pi unfolding f2 by (auto simp: Let_def)
qed

lemma RemoveIndex_src:
  assumes wf: "wf_shape d" and i: "2 \<le> i" "i < length (files d) - 1" and s: "0 \<le> s" "s < int (length (location d))"
    and c: "al (the (files d ! i)) s \<Longrightarrow> al (the (files d ! (i - 1))) s"
    and d': "files d' = take i (files d) @ drop (i + 1) (files d)" "location d' = map (\<lambda>t. if t \<ge> u16 (int i) then u16 (int t - 1) else t) (location d)"
  shows "sector_src al d' s = (let k = sector_src al d s in if i \<le> k then k - 1 else k)"
proof -
  have n: "length (files d) \<le> 65536" "\<And>t. t \<in> set (location d) \<Longrightarrow> t < length (files d)" using wf by (auto simp: wf_shape_def)
  have t: "location d ! nat s < length (files d)" using s n(2) by (simp add: nat_less_iff)
  have u: "u16 (int i) = i" "i \<le> location d ! nat s \<Longrightarrow> u16 (int (location d ! nat s) - 1) = location d ! nat s - 1"
    using i n(1) t by (simp_all add: go_simps of_nat_diff [symmetric])
  have l': "location d' ! nat s = (if i \<le> location d ! nat s then location d ! nat s - 1 else location d ! nat s)"
    using s u unfolding d'(2) by (simp add: nat_less_iff)
  have "length (files d') \<noteq> 2" "length (files d) \<noteq> 2" using i unfolding d'(1) by auto
  then show ?thesis using newest_removed [where P = "\<lambda>j. al (the (files d ! j)) s" and al = al and s = s, OF i(1) _ c refl d'(1)] i l' by (auto simp: sector_src_def Let_def)
qed

text \<open>The volume without the file at an index: the lists are cut, later indices move down by one.\<close>

definition without_index :: "nat \<Rightarrow> 'f diffDisk \<Rightarrow> 'f diffDisk" where
  "without_index i d = d\<lparr>location := map (\<lambda>t. if t \<ge> u16 (int i) then u16 (int t - 1) else t) (location d),
     files := take i (files d) @ drop (i + 1) (files d), UserCreatedSnap := take i (UserCreatedSnap d) @ drop (i + 1) (UserCreatedSnap d),
     SnapIndx := last_user_created (take i (UserCreatedSnap d) @ drop (i + 1) (UserCreatedSnap d)) 0 (SnapIndx d)\<rparr>"

lemma nth_without:
  assumes "i < length xs"
  shows "j < i \<Longrightarrow> (take i xs @ drop (i + 1) xs) ! j = xs ! j"
    and "i \<le> j \<Longrightarrow> (take i xs @ drop (i + 1) xs) ! j = xs ! Suc j"
    and "length (take i xs @ drop (i + 1) xs) = length xs - 1"
  using assms by (simp_all add: nth_append)

lemma RemoveIndex_without:
  assumes "wf_shape d" and "1 \<le> i" "i < length (files d)"
  shows "RemoveIndex fs_ops i (d, w, ch) = (None, without_index i d, w, ch)"
proof -
  have "files d ! i \<noteq> None" using assms by (simp add: wf_shape_def)
  then obtain f where "files d ! i = Some f" by blast
  then show ?thesis using assms by (simp add: RemoveIndex_def fs_ops_def without_index_def Let_def)
qed

lemma wf_without:
  assumes wf: "wf_disk av d" and i: "2 \<le> i" "i < length (files d) - 1"
  shows "wf_disk av (without_index i d)"
proof -
  let ?g = "take i (files d) @ drop (i + 1) (files d)"
  have sh: "wf_shape d" and n: "length (files d) \<le> 65536" and lt: "\<And>t. t \<in> set (location d) \<Longrightarrow> t < length (files d)" and dist: "distinct (files d)"
    using wf by (auto simp: wf_disk_def wf_shape_def)
  have nn: "files d ! j \<noteq> None" if "1 \<le> j" "j < length (files d)" for j using sh that by (simp add: wf_shape_def)
  have il: "i < length (files d)" using i by linarith
  note lo = nth_without(1) [OF il] and hi = nth_without(2) [OF il] and lg = nth_without(3) [OF il]
  have u: "u16 (int i) = i" "t < length (files d) \<Longrightarrow> i \<le> t \<Longrightarrow> u16 (int t - 1) = t - 1" for t
    using i n by (simp_all add: go_simps of_nat_diff [symmetric])
  have "t < length ?g" if "t \<in> set (location (without_index i d))" for t
    using that lt u i lg unfolding without_index_def by (force split: if_splits)
  moreover have "?g ! j \<noteq> None" if "1 \<le> j" "j < length ?g" for j
    using nn [of j] nn [of "Suc j"] lo [of j] hi [of j] that lg by (cases "j < i") auto
  moreover have "distinct ?g" using dist by (simp add: id_take_nth_drop distinct_append set_take_disj_set_drop_if_distinct)
  ultimately have "wf_shape (without_index i d)" using sh i lg lo [of 0] by (auto simp: wf_shape_def without_index_def)
  moreover have "av (the (?g ! j)) (vol_size d)" if "1 \<le> j" "j < length ?g" for j
    using wf that lo [of j] hi [of j] lg by (cases "j < i") (auto simp: wf_disk_def)
  ultimately show ?thesis by (auto simp: wf_disk_def without_index_def vol_size_def)
qed

lemma vol_byte_without:
  assumes sh: "wf_shape d" and i: "2 \<le> i" "i < length (files d) - 1" and c: "coalesced ct al d i" and p: "0 \<le> p" "p < vol_size d"
  shows "vol_byte ct al (without_index i d) p = vol_byte ct al d p"
proof -
  have il: "i < length (files d)" using i by linarith
  note lo = nth_without(1) [OF il] and hi = nth_without(2) [OF il] and s = sector_in_range [OF p]
  have cs: "al (the (files d ! i)) (p div 4096) \<Longrightarrow> al (the (files d ! (i - 1))) (p div 4096)"
    using c s unfolding coalesced_def by blast
  let ?k = "sector_src al d (p div 4096)"
  have k': "sector_src al (without_index i d) (p div 4096) = (if i \<le> ?k then ?k - 1 else ?k)"
    using RemoveIndex_src [where al = al, OF sh i conjunct1 [OF s] conjunct2 [OF s] cs, of "without_index i d"]
    by (simp add: without_index_def Let_def)
  show ?thesis
  proof (cases "?k = i")
    case True
    then have "location d ! nat (p div 4096) = i \<or> al (the (files d ! i)) (p div 4096)"
      using i newest_is [of al "files d" "p div 4096"] by (auto simp: sector_src_def split: if_splits)
    then have "ct (the (files d ! (i - 1))) p = ct (the (files d ! i)) p" using c s unfolding coalesced_def by blast
    then show ?thesis using True k' i lo [of "i - 1"] by (simp add: vol_byte_def without_index_def)
  next
    case False
    have "?k < length (files d)" using sector_src_bounds [OF sh conjunct1 [OF s] conjunct2 [OF s]] by blast
    then show ?thesis using False k' lo [of ?k] hi [of "?k - 1"] by (auto simp: vol_byte_def without_index_def)
  qed
qed

text \<open>
  C6. Removing a snapshot that has been folded into the one below it (neither the base nor the head) leaves
  every byte of the volume as it was, and the map in order.
\<close>

theorem removal_keeps_volume:
  assumes wf: "wf_disk (fs_avail w) d" and i: "2 \<le> i" "i < length (files d) - 1" and c: "coalesced (fs_content w) (fs_alloc w) d i"
  shows "\<exists>d'. RemoveIndex fs_ops i (d, w, ch) = (None, d', w, ch) \<and> wf_disk (fs_avail w) d' \<and>
    (\<forall>p. 0 \<le> p \<and> p < vol_size d \<longrightarrow> vol_byte (fs_content w) (fs_alloc w) d' p = vol_byte (fs_content w) (fs_alloc w) d p)"
proof -
  have sh: "wf_shape d" using wf by (simp add: wf_disk_def)
  have "RemoveIndex fs_ops i (d, w, ch) = (None, without_index i d, w, ch)" using RemoveIndex_without [OF sh] i by simp
  then show ?thesis using wf_without [OF wf i] vol_byte_without [OF sh i c] by blast
qed

text \<open>Three snapshots and a head; what file 3 has is in file 2 too.\<close>

definition chain_fs :: fs where
  "chain_fs = lab_fs\<lparr>ino_data := (\<lambda>f. \<lparr>sdata = (\<lambda>p. if p < 4096 \<and> (f = 2 \<or> f = 3) then 7 else 0), salloc = (\<lambda>s. f = 2 \<or> f = 3 \<and> s = 0), slen = 8192\<rparr>)\<rparr>"

definition chain_disk :: "nat diffDisk" where
  "chain_disk = \<lparr>location = [3, 2], UsedLogicalBlocks = 2, UsedBlocks = 5, files = [None, Some 1, Some 2, Some 3, Some 4],
     UserCreatedSnap = [False, False, True, False, False], SnapIndx = 2, sectorSize = 4096\<rparr>"

lemma chain_wf: "wf_disk (fs_avail chain_fs) chain_disk"
  by (auto simp: wf_disk_def wf_shape_def chain_disk_def vol_size_def fs_avail_def sp_avail_def chain_fs_def nth_Cons')

theorem removal_keeps_volume_witness:
  "\<exists>d'. RemoveIndex fs_ops 3 (chain_disk, chain_fs, []) = (None, d', chain_fs, []) \<and> files d' = [None, Some 1, Some 2, Some 4] \<and>
     vol_byte (fs_content chain_fs) (fs_alloc chain_fs) d' 5 = vol_byte (fs_content chain_fs) (fs_alloc chain_fs) chain_disk 5"
proof -
  have "coalesced (fs_content chain_fs) (fs_alloc chain_fs) chain_disk 3"
    by (auto simp: coalesced_def chain_disk_def fs_alloc_def fs_content_def sp_alloc_def sp_content_def chain_fs_def)
  moreover have "length (files chain_disk) = 5" "vol_size chain_disk = 8192" by (simp_all add: chain_disk_def vol_size_def)
  ultimately obtain d' where d': "RemoveIndex fs_ops 3 (chain_disk, chain_fs, []) = (None, d', chain_fs, [])"
    "vol_byte (fs_content chain_fs) (fs_alloc chain_fs) d' 5 = vol_byte (fs_content chain_fs) (fs_alloc chain_fs) chain_disk 5"
    using removal_keeps_volume [OF chain_wf, of 3 "[]"] by force
  moreover have "files d' = [None, Some 1, Some 2, Some 4]"
    using d'(1) by (auto simp: RemoveIndex_def chain_disk_def fs_ops_def Let_def)
  ultimately show ?thesis by blast
qed

section \<open>User-created snapshots\<close>

text \<open>A byte of the snapshot with index \<open>k\<close>: what the files up to \<open>k\<close> show.\<close>

definition snap_byte :: "('f \<Rightarrow> int \<Rightarrow> byte) \<Rightarrow> ('f \<Rightarrow> int \<Rightarrow> bool) \<Rightarrow> 'f diffDisk \<Rightarrow> nat \<Rightarrow> int \<Rightarrow> byte" where
  "snap_byte ct al d k p = ct (the (files d ! newest al (take (Suc k) (files d)) (p div 4096))) p"

definition chain_written :: fs where
  "chain_written = snd (fWriteAt fs_ops 4 (replicate 8192 1) 0 chain_fs)"

lemma chain_write:
  "WriteAt fs_ops True (replicate 8192 1) 0 (chain_disk, chain_fs, []) =
     ((8192, None), chain_disk\<lparr>location := [4, 4], UsedBlocks := 6\<rparr>, chain_written, [\<lparr>hole_f = Some 2, hole_offset = 0, hole_len = 4096\<rparr>])"
proof -
  have w: "fWriteAt fs_ops 4 (replicate 8192 1) 0 chain_fs = ((8192, None), chain_written)" by (simp add: chain_written_def fs_ops_def sp_ops_def)
  have n: "nat ((8192 :: int) sdiv 4096) = Suc (Suc 0)" "(8192 :: int) smod 4096 = 0" "(0 :: int) smod 4096 = 0" "(0 :: int) sdiv 4096 = 0"
    by (simp_all add: go_simps)
  have u: "u16 4 = 4" by (simp add: u16_def)
  show ?thesis
    by (simp add: WriteAt_def fullWriteAt_def chain_disk_def n w u fullWriteAt_step_def run0_def flush_run_def sendToCreateHole_def Let_def numeral_2_eq_2)
qed

lemma chain_snap: "snap_byte (fs_content chain_fs) (fs_alloc chain_fs) chain_disk 2 0 = 7"
  by (simp add: snap_byte_def chain_disk_def newest_def fs_alloc_def fs_content_def sp_alloc_def sp_content_def chain_fs_def numeral_2_eq_2 numeral_3_eq_3 upt_rec)

text \<open>
  C12. A write of two sectors whose old blocks lie in different files can destroy data of a user-created
  snapshot.  When the run of blocks in the newer file ends, its hole is sent to the file of the next
  block: here, block 0 of the automatic snapshot 3 is superseded, and the hole is punched at block 0
  of the user-created snapshot 2, which still shows it.
\<close>

theorem write_damages_user_snapshot:
  "wf_disk (fs_avail chain_fs) chain_disk \<and> UserCreatedSnap chain_disk ! 2 \<and> SnapIndx chain_disk = 2 \<and>
   snap_byte (fs_content chain_fs) (fs_alloc chain_fs) chain_disk 2 0 = 7 \<and>
   (case WriteAt fs_ops True (replicate 8192 1) 0 (chain_disk, chain_fs, []) of (res, d, w, ch) \<Rightarrow>
    case CreateHoles fs_ops (NoDrain, ch) w of (err, _, w') \<Rightarrow>
      res = (8192, None) \<and> err = None \<and> snap_byte (fs_content w') (fs_alloc w') d 2 0 = 0)"
proof (intro conjI)
  show "snap_byte (fs_content chain_fs) (fs_alloc chain_fs) chain_disk 2 0 = 7" by (rule chain_snap)
  show "case WriteAt fs_ops True (replicate 8192 1) 0 (chain_disk, chain_fs, []) of (res, d, w, ch) \<Rightarrow>
    case CreateHoles fs_ops (NoDrain, ch) w of (err, _, w') \<Rightarrow>
      res = (8192, None) \<and> err = None \<and> snap_byte (fs_content w') (fs_alloc w') d 2 0 = 0"
  proof -
    have "punch_retry fs_ops 2 0 4096 5 chain_written = (None, snd (fPunch fs_ops 2 0 4096 chain_written))"
      by (simp add: numeral_eq_Suc fs_ops_def sp_ops_def)
    then have h: "CreateHoles fs_ops (NoDrain, [\<lparr>hole_f = Some 2, hole_offset = 0, hole_len = 4096\<rparr>]) chain_written =
        (None, (NoDrain, []), snd (fPunch fs_ops 2 0 4096 chain_written))" by (simp add: CreateHoles_def)
    have "\<not> fs_alloc (snd (fPunch fs_ops 2 0 4096 chain_written)) 2 0" "fs_content (snd (fPunch fs_ops 2 0 4096 chain_written)) 1 0 = 0"
      by (simp_all add: fs_ops_def sp_ops_def chain_written_def fs_alloc_def sp_alloc_def fs_content_def sp_content_def chain_fs_def)
    then show ?thesis unfolding chain_write prod.case h
      by (simp add: snap_byte_def newest_def chain_disk_def numeral_2_eq_2 numeral_3_eq_3 upt_rec)
  qed
  show "wf_disk (fs_avail chain_fs) chain_disk" by (rule chain_wf)
qed (simp_all add: chain_disk_def)

text \<open>
  Within one sector it cannot happen: the only hole is in the file that held the sector, and only when that
  file is newer than the last user-created snapshot.
\<close>

lemma wf_file: "wf_shape d \<Longrightarrow> 1 \<le> j \<Longrightarrow> j < length (files d) \<Longrightarrow> \<exists>f. files d ! j = Some f"
  by (auto simp: wf_shape_def)

lemma fullWriteAt_one:
  assumes sh: "wf_shape d" and q: "0 \<le> q" "q < int (length (location d))" and b: "length b = 4096"
    and st: "fullWriteAt F punch b (4096 * q) (d, w, ch) = (res, d', w', ch')"
  shows "files d' = files d \<and> (\<exists>h. files d ! (length (files d) - 1) = Some h \<and> w' = snd (fWriteAt F h b (4096 * q) w)) \<and>
    (ch' = ch \<or> (\<exists>i x y. SnapIndx d < int i \<and> i < length (files d) - 1 \<and> ch' = ch @ [\<lparr>hole_f = files d ! i, hole_offset = x, hole_len = y\<rparr>]))"
proof -
  let ?t = "length (files d) - 1"
  have ss: "sectorSize d = 4096" and n: "2 \<le> length (files d)" "length (files d) \<le> 65536" using sh by (auto simp: wf_shape_def)
  obtain h where h: "files d ! ?t = Some h" 
  proof -
    have "1 \<le> ?t" "?t < length (files d)" using n by linarith+
    then show ?thesis using that wf_file [OF sh] by blast
  qed
  have u: "u16 (int ?t) = ?t" using n by (intro u16_int) linarith
  have vl: "location d ! nat q < length (files d)" using sh q by (auto simp: wf_shape_def nat_less_iff)
  have m: "(4096 :: int) smod 4096 = 0" "(4096 * q) smod 4096 = 0" "(4096 * q) sdiv 4096 = q" "nat ((4096 :: int) sdiv 4096) = Suc 0"
    using q by (simp_all add: go_simps)
  obtain c err w1 where w1: "fWriteAt F h b (4096 * q) w = ((c, err), w1)" by (metis prod.exhaust)
  obtain d1 r1 ch1 where l: "fullWriteAt_step punch ?t q (d, run0, ch) = (d1, r1, ch1)" by (metis prod_cases3)
  obtain d2 ch2 where f: "flush_run punch (run_file r1) r1 d1 ch1 = (d2, ch2)" by fastforce
  have "(res, d', w', ch') = ((int c, err), d2, w1, ch2)"
    using st ss b m h w1 l f q vl by (simp add: fullWriteAt_def nat_less_iff Let_def)
  moreover have s1: "files d1 = files d" "SnapIndx d1 = SnapIndx d" "ch1 = ch" "run_file r1 = None \<or> run_file r1 = files d ! run_fileIndx r1 \<and>
      run_fileIndx r1 = location d ! nat q \<and> run_fileIndx r1 \<noteq> ?t"
    using l u by (auto simp: fullWriteAt_step_def run0_def flush_run_def Let_def split: if_splits)
  moreover have "files d2 = files d1" "ch2 = ch1 \<or> run_file r1 \<noteq> None \<and> SnapIndx d1 < int (run_fileIndx r1) \<and>
      (\<exists>x y. ch2 = ch1 @ [\<lparr>hole_f = run_file r1, hole_offset = x, hole_len = y\<rparr>])"
    using f by (auto simp: flush_run_def sendToCreateHole_def split: if_splits)
  ultimately show ?thesis using h w1 vl by fastforce
qed

text \<open>Writes and punches of single files.\<close>

lemma fs_other_file:
  "g \<noteq> f \<Longrightarrow> ino_data (snd (fWriteAt fs_ops f b off w)) g = ino_data w g"
  "g \<noteq> f \<Longrightarrow> ino_data (snd (fPunch fs_ops f off len w)) g = ino_data w g"
  by (simp_all add: fs_ops_def sp_ops_def)

lemma snap_byte_cong:
  assumes "wf_shape d" and "k < length (files d)" "1 \<le> k" and "\<And>j. 1 \<le> j \<Longrightarrow> j \<le> k \<Longrightarrow> ino_data w' (the (files d ! j)) = ino_data w (the (files d ! j))"
  shows "snap_byte (fs_content w') (fs_alloc w') d k p = snap_byte (fs_content w) (fs_alloc w) d k p"
proof -
  let ?t = "take (Suc k) (files d)"
  have l: "length ?t = Suc k" using assms(2) by simp
  have e: "fs_alloc w' (the (?t ! j)) s = fs_alloc w (the (?t ! j)) s" if "j \<in> set [2..<length ?t]" for j s
    using assms(4) [of j] that l by (simp add: fs_alloc_def sp_alloc_def)
  have "filter (\<lambda>j. fs_alloc w' (the (?t ! j)) s) [2..<length ?t] = filter (\<lambda>j. fs_alloc w (the (?t ! j)) s) [2..<length ?t]" for s
    by (rule filter_cong [OF refl]) (rule e)
  then have n: "newest (fs_alloc w') ?t s = newest (fs_alloc w) ?t s" for s unfolding newest_def by simp
  have "2 \<le> length ?t" using l assms(3) by linarith
  then have "1 \<le> newest (fs_alloc w) ?t s \<and> newest (fs_alloc w) ?t s \<le> k" for s
    using newest_bounds [of ?t "fs_alloc w" s] l by (metis less_Suc_eq_le)
  then show ?thesis unfolding snap_byte_def n using assms(4) by (simp add: fs_content_def sp_content_def)
qed

lemma block_write_full:
  assumes wf: "wf_disk (fs_avail w) d" and q: "0 \<le> q" "q < int (length (location d))" and r: "r < 4096" "0 < length buf" "length buf \<le> 4096 - r"
    and wr: "WriteAt fs_ops punch buf (4096 * q + int r) (d, w, []) = (res, v')"
  shows "\<exists>d1 b. wf_shape d1 \<and> files d1 = files d \<and> SnapIndx d1 = SnapIndx d \<and> length (location d1) = length (location d) \<and> length b = 4096 \<and>
    fullWriteAt fs_ops punch b (4096 * q) (d1, w, []) = (res, v')"
proof (cases "r = 0 \<and> length buf = 4096")
  case True
  have "sectorSize d = 4096" "(4096 * q) smod 4096 = 0" "(4096 + 4096 * q) smod 4096 = 0" "buf \<noteq> []" "wf_shape d"
    using wf q(1) r(2) by (auto simp: wf_disk_def wf_shape_def go_simps)
  then show ?thesis using True wr by (intro exI [of _ d] exI [of _ buf]) (simp add: WriteAt_def Let_def)
next
  case False
  have ss: "sectorSize d = 4096" using wf by (simp add: wf_disk_def wf_shape_def)
  have m: "(4096 * q + int r) smod 4096 = int r" "(4096 * q + int r) sdiv 4096 = q" using q(1) r(1) by (simp_all add: go_simps)
  have e: "\<not> (int r = 0 \<and> (int (length buf) + (4096 * q + int r)) smod 4096 = 0)"
  proof
    assume a: "int r = 0 \<and> (int (length buf) + (4096 * q + int r)) smod 4096 = 0"
    then have "r = 0" and z: "(int (length buf) + (4096 * q + int r)) smod 4096 = 0" by (simp, blast)
    with z have "(int (length buf) + 4096 * q) smod 4096 = 0" by simp
    moreover have "(int (length buf) + 4096 * q) smod 4096 = (int (length buf) + 4096 * q) mod 4096" using q(1) by (intro smod_nonneg) auto
    ultimately have "(int (length buf) + 4096 * q) mod 4096 = 0" by argo
    then have "int (length buf) mod 4096 = 0" by (simp only: mod_mult_self2)
    then show False using a False r by (auto simp: zmod_int [symmetric])
  qed
  have rm: "readModifyWrite fs_ops punch buf (4096 * q + int r) (d, w, []) = (res, v')"
  proof -
    have "int (length buf) \<le> 4096 - int r" "buf \<noteq> []" using r by auto
    then show ?thesis using wr unfolding WriteAt_def Let_def prod.case ss m(1) if_not_P [OF e] by simp
  qed
  obtain rb d1 where f1: "fullReadAt fs_ops (replicate (nat (sectorSize d)) 0) (4096 * q) d w = ((4096, None), rb, d1)" "length rb = 4096"
    and ag: "agrees (fs_alloc w) d d1" and wf1: "wf_disk (fs_avail w) d1"
    using fso.fullReadAt_ok [OF wf q(1), of "replicate (nat (sectorSize d)) 0" 1] q(2) ss by auto
  have "fullWriteAt fs_ops punch (splice r buf rb) (4096 * q) (d1, w, []) = (res, v')"
    using rm f1(1) r ss m by (simp add: readModifyWrite_def Let_def mult.commute [of q])
  then show ?thesis using agrees_frame [OF ag] wf1 f1(2) r by (intro exI [of _ d1] exI [of _ "splice r buf rb"]) (auto simp: wf_disk_def)
qed

text \<open>
  C13. A write within one sector, and the hole it asks for, leave every snapshot up to the last user-created
  one exactly as it was.
\<close>

theorem block_write_keeps_snapshots:
  assumes wf: "wf_disk (fs_avail w) d" and q: "0 \<le> q" "q < int (length (location d))" and r: "r < 4096" "0 < length buf" "length buf \<le> 4096 - r"
    and k: "1 \<le> k" "int k \<le> SnapIndx d" "k < length (files d) - 1"
    and wr: "WriteAt fs_ops punch buf (4096 * q + int r) (d, w, []) = (res, d', w', ch')"
    and cr: "CreateHoles fs_ops (NoDrain, ch') w' = (err, st, w'')"
  shows "snap_byte (fs_content w'') (fs_alloc w'') d' k p = snap_byte (fs_content w) (fs_alloc w) d k p"
proof -
  have sh: "wf_shape d" and ss: "sectorSize d = 4096" using wf by (auto simp: wf_disk_def wf_shape_def)
  obtain d1 b where d1: "wf_shape d1" "files d1 = files d" "SnapIndx d1 = SnapIndx d" "length (location d1) = length (location d)" "length b = 4096"
    and st: "fullWriteAt fs_ops punch b (4096 * q) (d1, w, []) = (res, d', w', ch')"
    using block_write_full [OF wf q r wr] by metis
  note one = fullWriteAt_one [OF d1(1) q(1) _ d1(5) st]
  obtain h where h: "files d ! (length (files d) - 1) = Some h" "w' = snd (fWriteAt fs_ops h b (4096 * q) w)" and fd: "files d' = files d"
    using one q(2) d1 by auto
  have ne: "the (files d ! j) \<noteq> f" if j: "1 \<le> j" "j \<le> k" and f: "files d ! i = Some f" "k < i" "i < length (files d)" for i j f
  proof -
    have "files d ! j \<noteq> files d ! i" using sh that nth_eq_iff_index_eq [of "files d" j i] by (auto simp: wf_shape_def)
    then show ?thesis using wf_file [OF sh, of j] f j k(3) by force
  qed
  have w': "ino_data w' (the (files d ! j)) = ino_data w (the (files d ! j))" if "1 \<le> j" "j \<le> k" for j
    using fs_other_file(1) ne [OF that h(1) k(3)] h(2) k(3) by simp
  have "ino_data w'' (the (files d ! j)) = ino_data w' (the (files d ! j))" if j: "1 \<le> j" "j \<le> k" for j
  proof (cases "ch' = []")
    case True then show ?thesis using cr by (simp add: CreateHoles_def)
  next
    case False
    then obtain i x y where i: "SnapIndx d < int i" "i < length (files d) - 1" "ch' = [\<lparr>hole_f = files d ! i, hole_offset = x, hole_len = y\<rparr>]"
      using one q(2) d1 by auto
    have ki: "k < i" "1 \<le> i" "i < length (files d)" using i(1,2) k(1,2) by auto
    obtain f where f: "files d ! i = Some f" using wf_file [OF sh ki(2,3)] by blast
    obtain w3 where w3: "fPunch fs_ops f x y w' = (None, w3)" by (simp add: fs_ops_def sp_ops_def)
    then have "punch_retry fs_ops f x y 5 w' = (None, w3)" by (simp add: numeral_eq_Suc)
    then have "w'' = w3" using cr i(3) f by (simp add: CreateHoles_def)
    then show ?thesis using fs_other_file(2) [of _ f x y w'] w3 ne [OF j f ki(1,3)] by simp
  qed
  then have "snap_byte (fs_content w'') (fs_alloc w'') d k p = snap_byte (fs_content w) (fs_alloc w) d k p"
    using w' k by (intro snap_byte_cong [OF sh]) auto
  then show ?thesis using fd by (simp add: snap_byte_def)
qed

theorem block_write_keeps_snapshots_witness:
  "\<exists>res d' w' ch' err st w''. WriteAt fs_ops True [1] 4097 (chain_disk, chain_fs, []) = (res, d', w', ch') \<and>
     CreateHoles fs_ops (NoDrain, ch') w' = (err, st, w'') \<and> snap_byte (fs_content w'') (fs_alloc w'') d' 2 0 = 7"
proof -
  obtain res d' w' ch' where w: "WriteAt fs_ops True [1] (4096 * 1 + int 1) (chain_disk, chain_fs, []) = (res, d', w', ch')" by (metis prod_cases4)
  obtain err st w'' where c: "CreateHoles fs_ops (NoDrain, ch') w' = (err, st, w'')" by (metis prod_cases3)
  have "snap_byte (fs_content w'') (fs_alloc w'') d' 2 0 = snap_byte (fs_content chain_fs) (fs_alloc chain_fs) chain_disk 2 0"
    by (rule block_write_keeps_snapshots [OF chain_wf _ _ _ _ _ _ _ _ w c]) (simp_all add: chain_disk_def)
  then show ?thesis using w c chain_snap by auto
qed

end
