(* ===== verification/ReplicaSnapshot.thy ===== *)
theory ReplicaSnapshot
  imports SnapshotProps Cluster
begin

text \<open>
  Taking a snapshot (\<open>createDisk\<close>, \<open>replica/replica.go\<close>): a new, empty head is put on top of the chain, and the
  volume shows the same bytes as before.  The proof follows what the statements of the operation leave
  alone; the ways of composing statements keep any such relation, which is proved once.  The same argument
  shows which files the removal of a disk leaves in place.
\<close>

section \<open>Relations that statements keep\<close>

definition along :: "(replica \<times> fs \<Rightarrow> replica \<times> fs \<Rightarrow> bool) \<Rightarrow> 'a rop \<Rightarrow> bool" where
  "along Q m \<longleftrightarrow> (\<forall>s. Q s (snd (m s)))"

lemma alongD: "along Q m \<Longrightarrow> m s = (x, s') \<Longrightarrow> Q s s'"
  unfolding along_def by (metis snd_conv)

locale rop_frame =
  fixes Q :: "replica \<times> fs \<Rightarrow> replica \<times> fs \<Rightarrow> bool"
  assumes Q_refl: "\<And>s. Q s s" and Q_trans: "\<And>s t u. Q s t \<Longrightarrow> Q t u \<Longrightarrow> Q s u"
begin

lemma f_ret: "along Q (retR x)" "along Q (failR e)" "along Q (guardR b e)" "along Q (liftC g)"
  by (auto simp: along_def rop_defs liftC_def Q_refl)

lemma f_bind: "along Q m \<Longrightarrow> (\<And>x. along Q (f x)) \<Longrightarrow> along Q (bindR m f)"
proof (unfold along_def, intro allI)
  fix s
  assume m: "\<forall>s. Q s (snd (m s))" and f: "\<And>x. \<forall>s. Q s (snd (f x s))"
  obtain y r w where e: "m s = (y, r, w)" by (metis prod_cases3)
  have q: "Q s (r, w)" using spec [OF m, of s] by (simp add: e)
  show "Q s (snd (bindR m f s))"
    by (cases y) (simp_all add: bindR_def e q Q_trans [OF q spec [OF f]])
qed

lemma f_then: "along Q m \<Longrightarrow> along Q n \<Longrightarrow> along Q (thenR m n)"
  unfolding thenR_def by (rule f_bind)

lemma f_with: "(\<And>r. along Q (f r)) \<Longrightarrow> along Q (withR f)"
  by (simp add: along_def withR_def)

lemma f_mod: "(\<And>r w. Q (r, w) (f r, w)) \<Longrightarrow> along Q (modR f)"
  by (auto simp: along_def modR_def)

lemma f_fs: "(\<And>r w. Q (r, w) (r, snd (g w))) \<Longrightarrow> along Q (fsR g)"
  by (simp add: along_def fsR_def case_prod_unfold)

lemma snd_attempt: "snd (attemptR m s) = snd (m s)"
  by (auto simp: attemptR_def split: prod.splits sum.splits error.splits)

lemma f_attempt: "along Q m \<Longrightarrow> along Q (attemptR m)"
  by (simp add: along_def snd_attempt)

lemma f_if: "along Q m \<Longrightarrow> along Q n \<Longrightarrow> along Q (if b then m else n)"
  by simp

lemma f_sum: "(\<And>e. along Q (f e)) \<Longrightarrow> (\<And>x. along Q (g x)) \<Longrightarrow> along Q (case y of Inl e \<Rightarrow> f e | Inr x \<Rightarrow> g x)"
  by (cases y) auto

lemma f_option: "along Q m \<Longrightarrow> (\<And>x. along Q (g x)) \<Longrightarrow> along Q (case y of None \<Rightarrow> m | Some x \<Rightarrow> g x)"
  by (cases y) auto

lemma f_ignore: "along Q m \<Longrightarrow> along Q (ignoreR m)"
  unfolding ignoreR_def by (intro f_bind f_attempt f_ret)

lemma f_ptr: "(\<And>p. along Q (f p)) \<Longrightarrow> along Q (ptr_of name f)"
  unfolding ptr_of_def by (intro f_with f_option f_ret)

lemma f_fatal: "along Q m \<Longrightarrow> along Q (fatalR m msg)"
proof (unfold along_def, intro allI)
  fix s
  assume m: "\<forall>s. Q s (snd (m s))"
  have "snd (fatalR m msg s) = snd (m s)" by (auto simp: fatalR_def split: prod.splits sum.splits error.splits)
  then show "Q s (snd (fatalR m msg s))" using spec [OF m, of s] by simp
qed

lemmas f_intros = f_fatal f_ret f_bind f_then f_with f_attempt f_if f_sum f_option f_ignore f_ptr

end

text \<open>Names only disappear.\<close>

definition shrink_rel :: "replica \<times> fs \<Rightarrow> replica \<times> fs \<Rightarrow> bool" where
  "shrink_rel = (\<lambda>(r, w) (r', w'). r' = r \<and> dirents w' \<subseteq>\<^sub>m dirents w \<and> next_ino w' = next_ino w)"

interpretation shrink: rop_frame shrink_rel
proof
  show "shrink_rel s u" if "shrink_rel s t" "shrink_rel t u" for s t u
    using that map_le_trans [of "dirents (snd u)" "dirents (snd t)" "dirents (snd s)"]
    by (simp add: shrink_rel_def case_prod_unfold)
qed (simp add: shrink_rel_def case_prod_unfold)

text \<open>The files \<open>D\<close> of the volume and the way it is put together stay.\<close>

definition same_view :: "replica \<Rightarrow> replica \<Rightarrow> bool" where
  "same_view r r' \<longleftrightarrow> (\<exists>u. rVolume r' = (rVolume r)\<lparr>UsedBlocks := u\<rparr>) \<and> rChan r' = rChan r \<and> revisionFile r' = revisionFile r \<and>
     readOnly r' = readOnly r \<and> rReplicaType r' = rReplicaType r \<and> iSize (rInfo r') = iSize (rInfo r)"

definition calm_rel :: "nat set \<Rightarrow> nat \<Rightarrow> replica \<times> fs \<Rightarrow> replica \<times> fs \<Rightarrow> bool" where
  "calm_rel D rf = (\<lambda>(r, w) (r', w'). same_view r r' \<and> keeps D rf w w')"

lemma same_view_refl [simp]: "same_view r r"
  unfolding same_view_def by (simp, rule exI [of _ "UsedBlocks (rVolume r)"], simp)

lemma same_view_trans: "same_view r r1 \<Longrightarrow> same_view r1 r2 \<Longrightarrow> same_view r r2"
  by (auto simp: same_view_def)

lemma same_data_view: "same_data r r' \<Longrightarrow> same_view r r'"
  unfolding same_data_def same_view_def by (simp, rule exI [of _ "UsedBlocks (rVolume r)"], simp)

interpretation calm: rop_frame "calm_rel D rf" for D rf
proof
  show "calm_rel D rf s u" if "calm_rel D rf s t" "calm_rel D rf t u" for s t u
    using that same_view_trans [of "fst s" "fst t" "fst u"] keeps_trans [of D rf "snd s" "snd t" "snd u"]
    by (simp add: calm_rel_def case_prod_unfold)
qed (simp add: calm_rel_def keeps_refl case_prod_unfold)

lemma calm_tame: "tame D rf m \<Longrightarrow> along (calm_rel D rf) m"
proof (unfold along_def, intro allI)
  fix s :: "replica \<times> fs"
  assume t: "tame D rf m"
  obtain r w where s: "s = (r, w)" by (cases s)
  obtain y r' w' where e: "m s = (y, r', w')" by (metis prod_cases3)
  show "calm_rel D rf s (snd (m s))"
    using tameD [OF t e [unfolded s]] same_data_view by (simp add: calm_rel_def s e [unfolded s])
qed

section \<open>The calls of the operation\<close>

lemma sys_shrink:
  "(\<And>w. dirents (snd (f w)) \<subseteq>\<^sub>m dirents w \<and> next_ino (snd (f w)) = next_ino w) \<Longrightarrow>
   dirents (snd (sys f w)) \<subseteq>\<^sub>m dirents w \<and> next_ino (snd (sys f w)) = next_ino w"
  using spec [of "\<lambda>w'. dirents (snd (f w')) \<subseteq>\<^sub>m dirents w' \<and> next_ino (snd (f w')) = next_ino w'" "w\<lparr>tick := tick w + 1\<rparr>"]
  by (simp add: sys_def split: option.splits)

lemma shrink_calls:
  "along shrink_rel (fsR (os_Stat name))" "along shrink_rel (fsR (os_Remove name))" "along shrink_rel (fsR fs_SyncDir)"
  "along shrink_rel (fsR os_Close)"
proof -
  have st: "dirents (snd (os_Stat name w)) \<subseteq>\<^sub>m dirents w \<and> next_ino (snd (os_Stat name w)) = next_ino w" for w
    unfolding os_Stat_def by (rule sys_shrink) (simp split: option.splits)
  have rm: "dirents (snd (os_Remove name w)) \<subseteq>\<^sub>m dirents w \<and> next_ino (snd (os_Remove name w)) = next_ino w" for w
    unfolding os_Remove_def by (rule sys_shrink) (auto simp: map_le_def split: option.splits)
  have cl: "dirents (snd (os_Close w)) \<subseteq>\<^sub>m dirents w \<and> next_ino (snd (os_Close w)) = next_ino w" for w
    unfolding os_Close_def by (rule sys_shrink) simp
  have sy: "dirents (snd (fs_SyncDir w)) = dirents w \<and> next_ino (snd (fs_SyncDir w)) = next_ino w" for w
    by (auto simp: fs_SyncDir_def sys_def os_Close_def split: option.splits sum.splits unit.splits)
  show "along shrink_rel (fsR (os_Stat name))" "along shrink_rel (fsR (os_Remove name))" "along shrink_rel (fsR fs_SyncDir)"
    "along shrink_rel (fsR os_Close)"
    using st rm cl sy by (intro shrink.f_fs; simp add: shrink_rel_def)+
qed

lemma calm_calls:
  "along (calm_rel D rf) (fsR (os_Stat name))" "along (calm_rel D rf) (fsR (os_Remove name))" "along (calm_rel D rf) (fsR fs_SyncDir)"
proof -
  have "keeps D rf w (snd (os_Remove name w))" for w
    unfolding os_Remove_def by (rule keeps_sys) (auto simp: keeps_def fs_clean_def split: option.splits if_splits)
  then show "along (calm_rel D rf) (fsR (os_Stat name))" "along (calm_rel D rf) (fsR (os_Remove name))" "along (calm_rel D rf) (fsR fs_SyncDir)"
    by (intro calm.f_fs; simp add: calm_rel_def keeps_Stat keeps_SyncDir)+
qed

text \<open>A hard link to a name that is neither temporary nor the counter's.\<close>

definition plain :: "string \<Rightarrow> bool" where
  "plain name \<longleftrightarrow> name \<noteq> [] \<and> last name \<noteq> CHR ''p'' \<and> name \<noteq> revisionCounterFile"

lemma plain_tmp: "plain name \<Longrightarrow> name \<noteq> s @ ''.tmp''"
  by (auto simp: plain_def)

lemma calm_link: "plain new \<Longrightarrow> along (calm_rel D rf) (fsR (os_Link old new))"
proof -
  assume p: "plain new"
  have "keeps D rf w (w\<lparr>dirents := (dirents w)(new \<mapsto> i)\<rparr>)" for w i
    using plain_tmp [OF p] p unfolding keeps_def fs_clean_def plain_def by auto
  then have "keeps D rf w (snd (os_Link old new w))" for w
    unfolding os_Link_def by (intro keeps_sys) (simp add: keeps_refl split: option.splits)
  then show ?thesis by (intro calm.f_fs) (simp add: calm_rel_def)
qed

lemma exists_along:
  "along shrink_rel (existsR name)" "along (calm_rel D rf) (existsR name)"
  unfolding existsR_def by (intro shrink.f_intros shrink_calls, intro calm.f_intros calm_calls)

lemma rmDisk_along:
  "along shrink_rel (rmDisk name)" "along (calm_rel D rf) (rmDisk name)"
  unfolding rmDisk_def removeR_def SyncDir_def by (intro shrink.f_intros shrink_calls, intro calm.f_intros calm_calls)

lemma getDiskSize_along:
  "along shrink_rel (getDiskSize name)" "along (calm_rel D rf) (getDiskSize name)"
proof -
  have "dirents (snd (GetFileActualSize name w)) = dirents w \<and> next_ino (snd (GetFileActualSize name w)) = next_ino w" for w
    by (auto simp: GetFileActualSize_def os_Stat_def sys_def split: option.splits)
  then show "along shrink_rel (getDiskSize name)" unfolding getDiskSize_def
    by (intro shrink.f_fs) (simp add: shrink_rel_def case_prod_unfold)
  show "along (calm_rel D rf) (getDiskSize name)" by (rule calm_tame [OF tame_getDiskSize])
qed

section \<open>What holds after a statement that returns\<close>

definition after :: "(replica \<times> fs \<Rightarrow> bool) \<Rightarrow> 'a rop \<Rightarrow> ('a \<Rightarrow> replica \<times> fs \<Rightarrow> bool) \<Rightarrow> bool" where
  "after P m Q \<longleftrightarrow> (\<forall>s x s'. P s \<longrightarrow> m s = (Inr x, s') \<longrightarrow> Q x s')"

lemma afterD: "after P m Q \<Longrightarrow> P s \<Longrightarrow> m s = (Inr x, s') \<Longrightarrow> Q x s'"
  unfolding after_def by blast

lemma after_bind: "after P m Q \<Longrightarrow> (\<And>x. after (Q x) (f x) R) \<Longrightarrow> after P (bindR m f) R"
  unfolding after_def bindR_def by (simp split: prod.splits sum.splits) blast

lemma after_then: "after P m (\<lambda>_. Q) \<Longrightarrow> after Q n R \<Longrightarrow> after P (thenR m n) R"
  unfolding thenR_def by (rule after_bind)

lemma after_with: "(\<And>r. after (\<lambda>s. P s \<and> fst s = r) (f r) Q) \<Longrightarrow> after P (withR f) Q"
  by (simp add: after_def withR_def)

lemma after_with': "(\<And>r. after P (f r) Q) \<Longrightarrow> after P (withR f) Q"
  by (simp add: after_def withR_def)

lemma after_ret: "(\<And>s. P s \<Longrightarrow> Q x s) \<Longrightarrow> after P (retR x) Q"
  by (simp add: after_def retR_def)

lemma after_fail: "after P (failR e) Q"
  by (simp add: after_def failR_def)

lemma after_guard: "after P (guardR b e) (\<lambda>_ s. P s \<and> b)"
  by (simp add: after_def guardR_def retR_def failR_def)

lemma after_mod: "(\<And>r w. P (r, w) \<Longrightarrow> Q () (f r, w)) \<Longrightarrow> after P (modR f) Q"
  by (auto simp: after_def modR_def)

lemma after_attempt: "after P m Q \<Longrightarrow> after P (attemptR m) (\<lambda>res s. case res of Inl e \<Rightarrow> True | Inr x \<Rightarrow> Q x s)"
  unfolding after_def attemptR_def by (simp split: prod.splits sum.splits error.splits)

lemma after_along: "along R m \<Longrightarrow> (\<And>x s s'. P s \<Longrightarrow> R s s' \<Longrightarrow> Q x s') \<Longrightarrow> after P m Q"
  unfolding after_def using alongD by blast

lemma after_weaken: "after P m Q \<Longrightarrow> (\<And>s. P' s \<Longrightarrow> P s) \<Longrightarrow> (\<And>x s. Q x s \<Longrightarrow> Q' x s) \<Longrightarrow> after P' m Q'"
  by (simp add: after_def) blast

lemma after_defer: "after P m Q \<Longrightarrow> (\<And>x. along R (d (Inr x))) \<Longrightarrow> (\<And>x s s'. Q x s \<Longrightarrow> R s s' \<Longrightarrow> Q' x s') \<Longrightarrow> after P (deferR m d) Q'"
proof (unfold after_def, intro allI impI)
  fix s x s'
  assume m: "\<forall>s x s'. P s \<longrightarrow> m s = (Inr x, s') \<longrightarrow> Q x s'" and d: "\<And>x. along R (d (Inr x))"
    and q: "\<And>x s s'. Q x s \<Longrightarrow> R s s' \<Longrightarrow> Q' x s'" and p: "P s" and e: "deferR m d s = (Inr x, s')"
  obtain y t where t: "m s = (y, t)" by (cases "m s")
  have y: "y = Inr x" "s' = snd (d (Inr x) t)" using e by (auto simp: deferR_def t split: sum.splits error.splits)
  have "Q x t" using m p t y by blast
  moreover have "R t s'" using d [of x, unfolded along_def] y by blast
  ultimately show "Q' x s'" by (rule q)
qed

section \<open>The new head\<close>

definition untouched :: "nat set \<Rightarrow> nat \<Rightarrow> replica \<times> fs \<Rightarrow> replica \<times> fs \<Rightarrow> bool" where
  "untouched D rf s s' \<longleftrightarrow> calm_rel D rf s s' \<and> shrink_rel s s'"

definition kept :: "(replica \<Rightarrow> bool) \<Rightarrow> fs \<Rightarrow> nat set \<Rightarrow> nat \<Rightarrow> nat \<Rightarrow> sfile \<Rightarrow> replica \<times> fs \<Rightarrow> bool" where
  "kept V w0 D rf f F s \<longleftrightarrow>
     V (fst s) \<and> fs_clean (insert f D) rf (snd s) \<and> (\<forall>i\<in>D. ino_data (snd s) i = ino_data w0 i) \<and>
     slen (ino_data w0 rf) \<le> slen (ino_data (snd s) rf) \<and> ino_data (snd s) f = F"

lemma after_still:
  assumes "along shrink_rel m" "along (calm_rel D rf) m"
  shows "after (untouched D rf s0) m (\<lambda>_. untouched D rf s0)"
  unfolding after_def untouched_def
  using alongD [OF assms(1)] alongD [OF assms(2)] shrink.Q_trans calm.Q_trans by blast

lemma kept_step:
  assumes c: "calm_rel (insert f D) rf s s'" and k: "kept V w0 D rf f F s" and V: "\<And>r r'. V r \<Longrightarrow> same_view r r' \<Longrightarrow> V r'"
  shows "kept V w0 D rf f F s'"
proof -
  have "same_view (fst s) (fst s')" "keeps (insert f D) rf (snd s) (snd s')"
    using c by (simp_all add: calm_rel_def case_prod_unfold)
  then show ?thesis using k V [of "fst s" "fst s'"] unfolding kept_def keeps_def by auto
qed

lemma after_kept:
  assumes "along (calm_rel (insert f D) rf) m" "\<And>r r'. V r \<Longrightarrow> same_view r r' \<Longrightarrow> V r'"
  shows "after (kept V w0 D rf f F) m (\<lambda>_. kept V w0 D rf f F)"
  by (rule after_along [OF assms(1)], rule kept_step [OF _ _ assms(2)])

definition hole_file :: "int \<Rightarrow> sfile" where
  "hole_file n = \<lparr>sdata = (\<lambda>_. 0), salloc = (\<lambda>_. False), slen = n\<rparr>"

definition all_below :: "fs \<Rightarrow> bool" where
  "all_below w \<longleftrightarrow> (\<forall>name i. dirents w name = Some i \<longrightarrow> i < next_ino w)"

lemma after_lift: "after P (liftC (\<lambda>_. y)) (\<lambda>x s. P s \<and> y = Inr x)"
  by (auto simp: after_def liftC_def)

lemma plain_names [simp]:
  "plain (headName n)" "plain (name @ metadataSuffix)" "plain (GenerateSnapshotDiskName name)"
  by (simp_all add: plain_def headName_def metadataSuffix_def GenerateSnapshotDiskName_def imgSuffix_def revisionCounterFile_def
      headPrefix_def diskPrefix_def)

lemma nextFile_plain: "nextFile old = Inr nh \<Longrightarrow> plain nh"
  by (auto simp: nextFile_def split: if_splits option.splits)

text \<open>A file that already has the name of the next head is none of the files that matter.\<close>

definition apart :: "nat set \<Rightarrow> nat \<Rightarrow> fs \<Rightarrow> string \<Rightarrow> bool" where
  "apart D rf w name \<longleftrightarrow> (\<forall>i. dirents w name = Some i \<longrightarrow> i \<notin> insert rf D \<and> fs_clean (insert i D) rf w)"

lemma open_new:
  assumes ab: "all_below w0" and c: "fs_clean D rf w0" and nm: "apart D rf w0 nh" and pl: "plain nh"
  shows "after (untouched D rf (r0, w0)) (openFile nh True)
    (\<lambda>f s. f \<notin> insert rf D \<and> fst s = r0 \<and> kept (same_view r0) w0 D rf f empty_file s \<and> dirents (snd s) nh = Some f)"
proof (unfold after_def, intro allI impI)
  fix s f s'
  assume u: "untouched D rf (r0, w0) s" and e: "openFile nh True s = (Inr f, s')"
  obtain w where s: "s = (r0, w)" and sh: "dirents w \<subseteq>\<^sub>m dirents w0" "next_ino w = next_ino w0" and k: "keeps D rf w0 w"
    using u by (cases s) (auto simp: untouched_def calm_rel_def shrink_rel_def)
  have sub: "dirents w0 name = Some i" if "dirents w name = Some i" for name i
    using that sh(1) unfolding map_le_def by (metis domI)
  have cw: "fs_clean D rf w" "\<forall>i\<in>D. ino_data w i = ino_data w0 i" "slen (ino_data w0 rf) \<le> slen (ino_data w rf)"
    using k c by (auto simp: keeps_def)
  have lt: "\<forall>i\<in>insert rf D. i < next_ino w0" using c by (simp add: fs_clean_def)
  obtain w' where w': "s' = (r0, w')" "dirents w' = (dirents w)(nh \<mapsto> f)" "ino_data w' = (ino_data w)(f := empty_file)" "next_ino w0 \<le> next_ino w'"
      and f: "dirents w0 nh = Some f \<or> f = next_ino w0 \<and> next_ino w' = Suc f"
    using e sh(2) sub [of nh] by (auto simp: s openFile_def fsR_def os_Open_def sys_def fun_upd_idem split: option.splits if_splits)
  have new: "f \<notin> insert rf D" "f < next_ino w'" and nt: "\<And>name. dirents w0 (name @ ''.tmp'') \<noteq> Some f" and nr: "dirents w0 revisionCounterFile \<noteq> Some f"
    using f nm ab lt w'(4) unfolding apart_def all_below_def fs_clean_def by force+
  have tmp: "dirents w' (name @ ''.tmp'') = dirents w (name @ ''.tmp'')" "dirents w' revisionCounterFile = dirents w revisionCounterFile" for name
    using plain_tmp [OF pl, of name] pl by (auto simp: w'(2) plain_def)
  have "fs_clean (insert f D) rf w'"
    unfolding fs_clean_def tmp
  proof (intro conjI)
    show "\<forall>i\<in>insert rf (insert f D). i < next_ino w'" using lt new(2) w'(4) by auto
    show "\<forall>name i. dirents w (name @ ''.tmp'') = Some i \<longrightarrow> i \<notin> insert rf (insert f D)"
      using cw(1) nt sub unfolding fs_clean_def by (metis insert_iff)
    show "\<forall>i. dirents w revisionCounterFile = Some i \<longrightarrow> i \<notin> insert f D"
      using cw(1) nr sub unfolding fs_clean_def by (metis insert_iff)
  qed
  moreover have "\<forall>i\<in>D. ino_data w' i = ino_data w0 i" "slen (ino_data w0 rf) \<le> slen (ino_data w' rf)" "ino_data w' f = empty_file"
    using cw new(1) by (auto simp: w'(3))
  ultimately show "f \<notin> insert rf D \<and> fst s' = r0 \<and> kept (same_view r0) w0 D rf f empty_file s' \<and> dirents (snd s') nh = Some f"
    using new(1) by (simp add: kept_def w'(1,2))
qed

lemma truncate_new:
  assumes "0 \<le> n" "f \<notin> insert rf D"
  shows "after (\<lambda>s. kept V w0 D rf f empty_file s \<and> dirents (snd s) nh = Some f) (fsR (os_Truncate nh n))
    (\<lambda>_. kept V w0 D rf f (hole_file n))"
proof (unfold after_def, intro allI impI)
  fix s x s'
  assume k: "kept V w0 D rf f empty_file s \<and> dirents (snd s) nh = Some f" and e: "fsR (os_Truncate nh n) s = (Inr x, s')"
  obtain r w where s: "s = (r, w)" by (cases s)
  have s': "s' = (r, w\<lparr>tick := tick w + 1, ino_data := (ino_data w)(f := resize_file n (ino_data w f))\<rparr>)"
    using e k by (auto simp: s fsR_def os_Truncate_def sys_def split: option.splits if_splits)
  have F: "resize_file n (ino_data w f) = hole_file n"
    using k by (auto simp: s kept_def resize_file_def empty_file_def hole_file_def fun_eq_iff)
  have "fs_clean (insert f D) rf (snd s') = fs_clean (insert f D) rf w" unfolding s' by (rule fs_clean_cong) simp_all
  then show "kept V w0 D rf f (hole_file n) s'"
    using k assms(2) F by (auto simp: kept_def s s')
qed

text \<open>A head of that name that holds nothing is removed first.\<close>

lemma old_file_along:
  fixes name :: string
  defines "m \<equiv> \<lambda>ex. if ex then bindR (getDiskSize name) (\<lambda>n.
                 thenR (guardR (\<not> n > 0) (Err ''Can't remove head file as it contains some data''))
                   (bindR (attemptR (rmDisk name))
                      (\<lambda>res. case res of Inl e \<Rightarrow> failR (Err ''Failed to remove disk'') | Inr _ \<Rightarrow> retR ())))
               else retR ()"
  shows "along shrink_rel (m ex)" "along (calm_rel D rf) (m ex)"
  unfolding m_def by (intro shrink.f_intros getDiskSize_along rmDisk_along, intro calm.f_intros getDiskSize_along rmDisk_along)

lemma kept_calm:
  "along (calm_rel (insert f D) rf) m \<Longrightarrow>
   after (kept (same_view r0) w0 D rf f F) m (\<lambda>_. kept (same_view r0) w0 D rf f F)"
  by (rule after_kept) (auto intro: same_view_trans)

lemma new_head:
  assumes ab: "all_below w0" and c: "fs_clean D rf w0" and sz: "0 \<le> iSize (rInfo r0)"
    and nm: "\<And>nh. nextFile oldHead = Inr nh \<Longrightarrow> apart D rf w0 nh"
  shows "after (untouched D rf (r0, w0)) (createNewHead E oldHead parent created)
    (\<lambda>(err, f, d) s. err = None \<longrightarrow> f \<notin> insert rf D \<and> kept (same_view r0) w0 D rf f (hole_file (iSize (rInfo r0))) s)"
proof -
  define U where "U = untouched D rf (r0, w0)"
  define H where "H f s \<longleftrightarrow> f \<notin> insert rf D \<and> kept (same_view r0) w0 D rf f (hole_file (iSize (rInfo r0))) s" for f s
  define N where "N nh f s \<longleftrightarrow> f \<notin> insert rf D \<and> fst s = r0 \<and> kept (same_view r0) w0 D rf f empty_file s \<and> dirents (snd s) nh = Some f" for nh f s
  have tr: "after (N nh f) (withR (\<lambda>r. fsR (os_Truncate nh (iSize (rInfo r))))) (\<lambda>_. H f)" for f nh
  proof (rule after_with)
    fix r
    show "after (\<lambda>s. N nh f s \<and> fst s = r) (fsR (os_Truncate nh (iSize (rInfo r)))) (\<lambda>_. H f)"
      using truncate_new [OF sz, of f rf D "same_view r0" w0 nh] unfolding after_def H_def N_def by blast
  qed
  have cm: "after (H f) m (\<lambda>_. H f)" if "\<And>D. tame D rf m" for f and m :: "'y rop"
    using kept_calm [OF calm_tame [OF that], where ?r0.0 = r0 and ?w0.0 = w0 and F = "hole_file (iSize (rInfo r0))"] unfolding after_def H_def by blast
  have nx: "after (\<lambda>s. U s \<and> nextFile oldHead = Inr nh) (openFile nh True) (N nh)" for nh
    using open_new [OF ab c nm nextFile_plain, of nh oldHead r0] unfolding after_def U_def N_def by blast
  have st: "after (\<lambda>s. U s \<and> b) m (\<lambda>_ s. U s \<and> b)" if "along shrink_rel m" "along (calm_rel D rf) m" for b and m :: "'x rop"
    using after_still [OF that, of "(r0, w0)"] unfolding after_def U_def by blast
  have rc: "after (H f) (GetRevisionCounter E) (\<lambda>_. H f)" for f by (rule cm [OF tame_GetRevisionCounter])
  have en: "after (H f) (attemptR (encodeToFile a b)) (\<lambda>_. H f)" for f a b by (rule cm [OF tame_attemptR [OF tame_encodeToFile]])
  let ?Q = "\<lambda>(f, d). H f" and ?R = "\<lambda>(err, f, d) s. err = None \<longrightarrow> H f s"
  have fin: "after (\<lambda>s. case res of Inl e \<Rightarrow> True | Inr x \<Rightarrow> ?Q x s) (case res of Inl e \<Rightarrow> retR (Some e, 0, disk0)
        | Inr (f, newDisk) \<Rightarrow>
            bindR (attemptR (encodeToFile (MDisk newDisk) (dName newDisk @ metadataSuffix)))
              (\<lambda>res. retR (case res of Inl e \<Rightarrow> Some e | Inr _ \<Rightarrow> None, f, newDisk))) ?R" for res
  proof (cases res)
    case (Inr x)
    then show ?thesis by (cases x) (simp, rule after_bind [OF en], rule after_ret, simp)
  qed (simp add: after_def retR_def)
  show ?thesis unfolding createNewHead_def U_def [symmetric] H_def [symmetric]
    by (rule after_bind [OF after_attempt [where Q = ?Q] fin],
        rule after_bind [OF after_lift], rule after_bind [OF st [OF exists_along]], rule after_then [OF st [OF old_file_along]],
        rule after_bind [OF nx], rule after_then [OF tr], rule after_bind [OF rc], rule after_ret, simp)
qed

section \<open>The old head becomes the snapshot\<close>

definition grown :: "replica \<Rightarrow> nat \<Rightarrow> replica \<Rightarrow> bool" where
  "grown r0 f r \<longleftrightarrow>
     (\<exists>u si uc. rVolume r = (rVolume r0)\<lparr>UsedBlocks := u, files := files (rVolume r0) @ [Some f], SnapIndx := si, UserCreatedSnap := uc\<rparr>) \<and>
     rChan r = rChan r0 \<and> revisionFile r = revisionFile r0 \<and> readOnly r = readOnly r0 \<and> rReplicaType r = rReplicaType r0 \<and>
     iSize (rInfo r) = iSize (rInfo r0)"

lemma grownI:
  "rVolume r = (rVolume r0)\<lparr>UsedBlocks := u, files := files (rVolume r0) @ [Some f], SnapIndx := si, UserCreatedSnap := uc\<rparr> \<Longrightarrow>
   rChan r = rChan r0 \<Longrightarrow> revisionFile r = revisionFile r0 \<Longrightarrow> readOnly r = readOnly r0 \<Longrightarrow> rReplicaType r = rReplicaType r0 \<Longrightarrow>
   iSize (rInfo r) = iSize (rInfo r0) \<Longrightarrow> grown r0 f r"
  unfolding grown_def by blast

lemma grown_view: "grown r0 f r \<Longrightarrow> same_view r r' \<Longrightarrow> grown r0 f r'"
proof -
  assume "grown r0 f r" "same_view r r'"
  then obtain u si uc u' where
    "rVolume r = (rVolume r0)\<lparr>UsedBlocks := u, files := files (rVolume r0) @ [Some f], SnapIndx := si, UserCreatedSnap := uc\<rparr>"
    "rVolume r' = (rVolume r)\<lparr>UsedBlocks := u'\<rparr>"
    "rChan r' = rChan r0" "revisionFile r' = revisionFile r0" "readOnly r' = readOnly r0" "rReplicaType r' = rReplicaType r0"
    "iSize (rInfo r') = iSize (rInfo r0)"
    unfolding grown_def same_view_def by auto
  then show ?thesis by (intro grownI [where u = u' and si = si and uc = uc]) simp_all
qed

lemma grown_size: "grown r0 f r \<Longrightarrow> iSize (rInfo r) = iSize (rInfo r0)"
  unfolding grown_def by (elim conjE)

lemma grown_info: "grown r0 f r \<Longrightarrow> iSize i = iSize (rInfo r0) \<Longrightarrow> grown r0 f (r\<lparr>rInfo := i\<rparr>)"
  unfolding grown_def by (elim conjE, intro conjI) simp_all

lemma grown_mod:
  "same_view r0 r \<Longrightarrow> grown r0 f (r\<lparr>diskData := dd, rVolume := (rVolume r)\<lparr>files := files (rVolume r) @ [Some f], SnapIndx := si, UserCreatedSnap := uc\<rparr>,
     activeDiskData := ad\<rparr>)"
  unfolding same_view_def by (elim conjE exE) (rule grownI [where u = "UsedBlocks (rVolume r)" and si = si and uc = uc]; simp)

lemma calm_mod: "(\<And>r. same_view r (g r)) \<Longrightarrow> along (calm_rel D rf) (modR g)"
  by (rule calm.f_mod) (simp add: calm_rel_def keeps_refl)

lemma calm_set_disk: "along (calm_rel D rf) (set_disk p g)"
  unfolding set_disk_def by (rule calm_mod) (rule same_data_view, simp add: same_data_def)

lemma calm_children: "same_view r (addChildDisk a b r)" "same_view r (rmChildDisk a b r)"
  by (rule same_data_view, simp add: addChildDisk_def rmChildDisk_def same_data_def Let_def split: option.splits)+

lemma calm_updateChild: "along (calm_rel D rf) (updateChildDisk a b)"
  unfolding updateChildDisk_def Let_def
  by (intro calm.f_intros calm_mod) (simp add: calm_children same_view_trans [OF calm_children(2) calm_children(1)])

lemma calm_linkDisk: "plain new \<Longrightarrow> along (calm_rel D rf) (linkDisk old new)"
  unfolding linkDisk_def SyncDir_def by (intro calm.f_intros exists_along calm_calls calm_link) simp_all

lemma same_view_used: "same_view r (r\<lparr>rVolume := (rVolume r)\<lparr>UsedBlocks := u\<rparr>\<rparr>)"
  by (simp add: same_view_def, rule exI [of _ u], simp)

lemma same_view_data: "same_view r (r\<lparr>diskData := d\<rparr>)"
  by (rule same_data_view) (simp add: same_data_def)

lemma calm_snapshot_head: "along (calm_rel D rf) (snapshot_head E a b c u n)"
  unfolding snapshot_head_def
  by (intro calm.f_intros calm_set_disk calm_updateChild calm_tame [OF tame_GetRevisionCounter] calm_tame [OF tame_encodeToFile] calm_mod)
    (simp_all add: calm_children same_view_used same_view_data)

lemma disk_body:
  assumes pl: "plain sn"
  shows "after (kept (same_view r0) w0 D rf f F) (createDisk_body E oldHead sn f d u created) (\<lambda>_. kept (grown r0 f) w0 D rf f F)"
proof -
  let ?K = "kept (same_view r0) w0 D rf f F" and ?G = "kept (grown r0 f) w0 D rf f F"
  have link: "along (calm_rel (insert f D) rf) (withR (\<lambda>r. linkDisk (iHead (rInfo r)) sn))"
    by (intro calm.f_with calm_linkDisk pl)
  have put: "along (calm_rel (insert f D) rf) (modR (\<lambda>r. r\<lparr>rHeap := (rHeap r)(pn := d), rNew := pn + 1, diskData := AList.update (dName d) pn (diskData r)\<rparr>))" for pn
    by (rule calm_mod, rule same_data_view) (simp add: same_data_def)
  have snap: "along (calm_rel (insert f D) rf) (if sn \<noteq> [] then snapshot_head E oldHead sn (dName d) u created else retR ())"
    by (intro calm.f_intros calm_snapshot_head)
  have grow: "after ?K (modR (\<lambda>r. let v = rVolume r; fs = files v @ [Some f] in
       r\<lparr>diskData := AList.delete oldHead (diskData r),
         rVolume := v\<lparr>files := fs, SnapIndx := (if u then int (length fs) - 2 else SnapIndx v),
                      UserCreatedSnap := UserCreatedSnap v @ [u]\<rparr>,
         activeDiskData := activeDiskData r @ [Some pn]\<rparr>)) (\<lambda>_. ?G)" for pn
    by (rule after_mod) (simp add: kept_def Let_def grown_mod)
  have calm: "after ?K m (\<lambda>_. ?K)" if "along (calm_rel (insert f D) rf) m" for m :: "'b rop" by (rule kept_calm [OF that])
  have enc: "after ?G (encodeToFile a b) (\<lambda>_. ?G)" for a b
    by (rule after_kept [OF calm_tame [OF tame_encodeToFile] grown_view])
  have info: "after ?G (withR (\<lambda>r. let i = (rInfo r)\<lparr>iHead := dName d, iDirty := True, iParent := sn,
                                  iRevisionCounter := dRevisionCounter (rHeap r pn)\<rparr> in
     thenR (encodeToFile (enc_info i) volumeMetaData) (modR (\<lambda>r. r\<lparr>rInfo := i\<rparr>)))) (\<lambda>_. ?G)" for pn
  proof (rule after_with, unfold Let_def, rule after_then)
    fix r
    show "after (\<lambda>s. ?G s \<and> fst s = r) (encodeToFile a b) (\<lambda>_ s. ?G s \<and> grown r0 f r)" for a b
      using enc [of a b] unfolding after_def by (metis kept_def)
    show "after (\<lambda>s. ?G s \<and> grown r0 f r) (modR (\<lambda>r'. r'\<lparr>rInfo := (rInfo r)\<lparr>iHead := dName d, iDirty := True, iParent := sn,
        iRevisionCounter := dRevisionCounter (rHeap r pn)\<rparr>\<rparr>)) (\<lambda>_. ?G)"
      by (rule after_mod) (simp add: kept_def, elim conjE, rule grown_info, assumption, simp add: grown_size [of r0 f r])
  qed
  show ?thesis unfolding createDisk_body_def
    by (rule after_then [OF calm [OF link]], rule after_with', unfold Let_def, rule after_then [OF calm [OF put]],
        rule after_then [OF calm [OF snap]], rule after_then [OF grow [unfolded Let_def]], rule info [unfolded Let_def])
qed

lemma after_with_at: "(\<And>s. P s \<Longrightarrow> fst s = r0) \<Longrightarrow> after P (f r0) Q \<Longrightarrow> after P (withR f) Q"
  unfolding after_def withR_def by metis

lemma after_past_guard: "after P m Q \<Longrightarrow> after P (thenR (guardR b e) m) Q"
  by (rule after_then [OF after_guard]) (auto simp: after_def)

lemma disk_created:
  assumes ab: "all_below w0" and c: "fs_clean D rf w0" and sz: "0 \<le> iSize (rInfo r0)" and hd: "iHead (rInfo r0) \<noteq> []"
    and nm: "\<And>nh. nextFile (iHead (rInfo r0)) = Inr nh \<Longrightarrow> apart D rf w0 nh"
    and st: "createDisk E name u created (r0, w0) = (Inr (), r', w')"
  shows "\<exists>f. f \<notin> insert rf D \<and> kept (grown r0 f) w0 D rf f (hole_file (iSize (rInfo r0))) (r', w')"
proof -
  define K where "K V f = kept V w0 D rf f (hole_file (iSize (rInfo r0)))" for V f
  define G where "G s \<longleftrightarrow> (\<exists>f. f \<notin> insert rf D \<and> K (grown r0 f) f s)" for s
  let ?U = "untouched D rf (r0, w0)"
  have U: "?U (r0, w0)" by (simp add: untouched_def shrink.Q_refl calm.Q_refl)
  have cl: "after ?U (createDisk E name u created) (\<lambda>_. G)"
    unfolding createDisk_def SyncDir_def
  proof (rule after_then [OF after_still [OF shrink_calls(3) calm_calls(3)]], rule after_with_at [where ?r0.0 = r0], goal_cases)
    case (1 s) then show ?case by (auto simp: untouched_def shrink_rel_def)
  next
    case 2
    have body: "after (K (same_view r0) f) (deferR (createDisk_body E old (GenerateSnapshotDiskName name) f d u created)
        (\<lambda>res. case res of Inl _ \<Rightarrow> q | Inr _ \<Rightarrow> ignoreR (rmDisk old))) (\<lambda>_. K (grown r0 f) f)" for old d q f
      unfolding K_def
    proof (rule after_defer [OF disk_body [OF plain_names(3)]])
      show "along (calm_rel (insert f D) rf) (case Inr x of Inl _ \<Rightarrow> q | Inr _ \<Rightarrow> ignoreR (rmDisk old))" for x :: unit
        by (simp, intro calm.f_ignore rmDisk_along)
    qed (rule kept_step [OF _ _ grown_view])
    have rest: "after (\<lambda>s. err = None \<longrightarrow> f \<notin> insert rf D \<and> K (same_view r0) f s)
      (case err of Some e \<Rightarrow> thenR q (failR e) | None \<Rightarrow> deferR (createDisk_body E old (GenerateSnapshotDiskName name) f d u created)
        (\<lambda>res. case res of Inl _ \<Rightarrow> q' | Inr _ \<Rightarrow> ignoreR (rmDisk old))) (\<lambda>_. G)" for err f d old and q q' :: "unit rop"
      using body [of f old d q'] unfolding G_def by (cases err) (auto simp: after_def thenR_def bindR_def failR_def split: prod.splits sum.splits)
    show ?case unfolding Let_def if_not_P [OF hd]
    proof (rule after_past_guard, rule after_past_guard, rule after_bind [OF new_head [OF ab c sz nm]], assumption, goal_cases)
      case (1 x)
      obtain err f d where x: "x = (err, f, d)" by (metis prod_cases3)
      show ?case unfolding x prod.case K_def [symmetric] by (rule rest)
    qed
  qed
  from afterD [OF cl U st] show ?thesis unfolding G_def K_def .
qed

section \<open>The volume with the new head\<close>

lemma newest_grow:
  assumes "2 \<le> length fs" "\<not> al f s"
  shows "newest al (fs @ [Some f]) s = newest al fs s"
proof -
  have "filter (\<lambda>i. al (the ((fs @ [Some f]) ! i)) s) [2..<length fs] = filter (\<lambda>i. al (the (fs ! i)) s) [2..<length fs]"
    by (rule filter_cong) (auto simp: nth_append)
  then show ?thesis using newest_Suc [of "length fs" "\<lambda>i. al (the ((fs @ [Some f]) ! i)) s"] assms
    by (simp add: newest_def)
qed

lemma vol_byte_grow:
  assumes wf: "wf_shape d" and d': "files d' = files d @ [Some f]" "location d' = location d" and al: "\<And>s. \<not> al f s"
    and p: "0 \<le> p" "p < vol_size d"
  shows "vol_byte ct al d' p = vol_byte ct al d p"
proof -
  let ?s = "p div 4096"
  have l: "2 \<le> length (files d)" using wf by (simp add: wf_shape_def)
  have b: "1 \<le> sector_src al d ?s" "sector_src al d ?s < length (files d)"
    using sector_src_bounds [OF wf, of ?s al] sector_in_range [OF p] by auto
  have loc: "location d ! nat ?s < length (files d)"
    using wf sector_in_range [OF p] nth_mem [of "nat ?s" "location d"] by (auto simp: wf_shape_def)
  have "newest al (files d) ?s = 1" if "length (files d) = 2" using that by (simp add: newest_def)
  then have "sector_src al d' ?s = sector_src al d ?s"
    using l loc newest_grow [of "files d" al f ?s] al by (auto simp: sector_src_def d')
  then show ?thesis using b by (simp add: vol_byte_def d' nth_append)
qed

lemma wf_disk_grow:
  assumes wf: "wf_disk av d" and d': "files d' = files d @ [Some f]" "location d' = location d" "sectorSize d' = sectorSize d"
    and f: "Some f \<notin> set (files d)" "av f (vol_size d)" and l: "length (files d) < 65536"
  shows "wf_disk av d'"
  using wf f l d' by (auto simp: wf_disk_def wf_shape_def vol_size_def nth_append less_Suc_eq)

lemma hole_safe_grow:
  assumes "hole_safe d h" "files d' = files d @ [Some f]" "location d' = location d"
  shows "hole_safe d' h"
proof -
  obtain i s m where "1 \<le> i" "i < length (files d)" "hole_f h = files d ! i" "hole_offset h = s * 4096" "hole_len h = m * 4096" "0 \<le> s" "1 \<le> m"
    "s + m \<le> int (length (location d))" "\<forall>t. s \<le> t \<and> t < s + m \<longrightarrow> i < location d ! nat t"
    using assms(1) unfolding hole_safe_def by blast
  then show ?thesis unfolding hole_safe_def assms(2,3) by (intro exI [of _ i] exI [of _ s] exI [of _ m]) (simp add: nth_append)
qed

text \<open>
  A replica with one snapshot below its head, and an empty file left over that has the name of the next
  head.  Its counter cannot be read: the code then records \<open>-1\<close> as the
  revision of the new disks and goes on.
\<close>

definition snap_fs :: fs where
  "snap_fs = \<lparr>dirents = [''volume-snap-s0.img'' \<mapsto> 1, ''volume-head-001.img'' \<mapsto> 2, ''revision.counter'' \<mapsto> 3, ''volume-head-001.img.meta'' \<mapsto> 4,
       ''volume-head-002.img'' \<mapsto> 5],
     ino_data = (\<lambda>f. \<lparr>sdata = (\<lambda>p. if f = 1 then 7 else 0), salloc = (\<lambda>s. f = 1 \<and> s = 0), slen = 8192\<rparr>),
     ino_meta = (\<lambda>_. None), next_ino = 6, have_dir = True, tick = 0, faults = (\<lambda>_. None)\<rparr>"

definition snap_replica :: replica where
  "snap_replica = lab_replica\<lparr>rInfo := info0\<lparr>iSize := 8192, iHead := ''volume-head-001.img''\<rparr>,
     rHeap := (\<lambda>p. disk0\<lparr>dName := if p = 0 then ''volume-snap-s0.img'' else ''volume-head-001.img''\<rparr>), rNew := 2,
     diskData := [(''volume-snap-s0.img'', 0), (''volume-head-001.img'', 1)], activeDiskData := [None, Some 0, Some 1]\<rparr>"

definition snap_renv :: renv where
  "snap_renv = lab_renv\<lparr>reF := fs_ops\<lparr>fReadAt := (\<lambda>f n off w. ([], Some (Err ''input/output error'')))\<rparr>\<rparr>"

lemma snap_run: "fst (r_Snapshot snap_renv ''s1'' True ''now'' (snap_replica, snap_fs)) = Inr ()"
  by code_simp

lemma snap_ok: "rep_ok fs_avail snap_replica snap_fs"
  by (auto simp: rep_ok_def snap_replica_def lab_replica_def new_replica_def wf_disk_def wf_shape_def vol_size_def fs_avail_def sp_avail_def
      snap_fs_def nth_Cons' all_safe_def)

lemma snap_clean:
  "fs_clean (insert 5 (vol_inodes snap_replica)) (the (revisionFile snap_replica)) snap_fs"
  "fs_clean (vol_inodes snap_replica) (the (revisionFile snap_replica)) snap_fs" "all_below snap_fs"
  "nextFile (iHead (rInfo snap_replica)) = Inr nh \<Longrightarrow> apart (vol_inodes snap_replica) (the (revisionFile snap_replica)) snap_fs nh"
proof -
  have "name @ ''.tmp'' \<noteq> s" if "last s \<noteq> CHR ''p''" for name s using that by auto
  then have "name @ ''.tmp'' \<noteq> ''volume-snap-s0.img''" "name @ ''.tmp'' \<noteq> ''volume-head-001.img''" "name @ ''.tmp'' \<noteq> ''revision.counter''"
    "name @ ''.tmp'' \<noteq> ''volume-head-001.img.meta''" "name @ ''.tmp'' \<noteq> ''volume-head-002.img''" for name by simp_all
  moreover have v: "vol_inodes snap_replica = {1, 2}" "revisionFile snap_replica = Some 3"
    by (auto simp: vol_inodes_def snap_replica_def lab_replica_def)
  ultimately show f: "fs_clean (insert 5 (vol_inodes snap_replica)) (the (revisionFile snap_replica)) snap_fs"
      "fs_clean (vol_inodes snap_replica) (the (revisionFile snap_replica)) snap_fs"
    by (auto simp: fs_clean_def snap_fs_def revisionCounterFile_def)
  show "all_below snap_fs" by (auto simp: all_below_def snap_fs_def)
  have "nextFile (iHead (rInfo snap_replica)) = Inr ''volume-head-002.img''" by code_simp
  moreover have "dirents snap_fs ''volume-head-002.img'' = Some 5" by (simp add: snap_fs_def)
  ultimately show "apart (vol_inodes snap_replica) (the (revisionFile snap_replica)) snap_fs nh" if "nextFile (iHead (rInfo snap_replica)) = Inr nh"
    using that f(1) v by (simp add: apart_def)
qed

text \<open>
  C7. A snapshot that succeeds puts an empty file of the size of the volume on top of the chain, one that is
  none of the files of the volume and not the counter's, and changes none of the old files: the volume
  shows the same bytes as before, and the replica is again in order, so that reads and writes go on.  A file
  that is left over under the name of the next head must not be one of them: an empty one is removed or
  emptied, one that holds data makes the snapshot fail.
\<close>

theorem snapshot_keeps_volume:
  assumes ok: "rep_ok fs_avail r w" and c: "fs_clean (vol_inodes r) (the (revisionFile r)) w" and ab: "all_below w"
    and sz: "vol_size (rVolume r) \<le> iSize (rInfo r)" and l: "length (files (rVolume r)) < 65536" and hd: "iHead (rInfo r) \<noteq> []"
    and nm: "\<And>nh. nextFile (iHead (rInfo r)) = Inr nh \<Longrightarrow> apart (vol_inodes r) (the (revisionFile r)) w nh"
    and st: "r_Snapshot E name u created (r, w) = (Inr (), r', w')"
  shows "\<exists>f. f \<notin> insert (the (revisionFile r)) (vol_inodes r) \<and> files (rVolume r') = files (rVolume r) @ [Some f] \<and>
    ino_data w' f = hole_file (iSize (rInfo r)) \<and> (\<forall>i\<in>vol_inodes r. ino_data w' i = ino_data w i) \<and>
    rep_ok fs_avail r' w' \<and> fs_clean (vol_inodes r') (the (revisionFile r')) w' \<and>
    (\<forall>p. 0 \<le> p \<and> p < vol_size (rVolume r) \<longrightarrow> rep_byte fs_content fs_alloc r' w' p = rep_byte fs_content fs_alloc r w p)"
proof -
  let ?v = "rVolume r" and ?v' = "rVolume r'"
  have sz0: "0 \<le> iSize (rInfo r)" using sz by (simp add: vol_size_def)
  obtain f where nf: "f \<notin> insert (the (revisionFile r)) (vol_inodes r)"
      and k: "kept (grown r f) w (vol_inodes r) (the (revisionFile r)) f (hole_file (iSize (rInfo r))) (r', w')"
    using disk_created [OF ab c sz0 hd nm st [unfolded r_Snapshot_def]] by blast
  then have g: "grown r f r'" and c': "fs_clean (insert f (vol_inodes r)) (the (revisionFile r)) w'"
    and dt: "\<forall>i\<in>vol_inodes r. ino_data w' i = ino_data w i" and fd: "ino_data w' f = hole_file (iSize (rInfo r))"
    and sl: "slen (ino_data w (the (revisionFile r))) \<le> slen (ino_data w' (the (revisionFile r)))"
    by (simp_all add: kept_def)
  have v': "files ?v' = files ?v @ [Some f]" "location ?v' = location ?v" "sectorSize ?v' = sectorSize ?v"
    "rChan r' = rChan r" "revisionFile r' = revisionFile r" "readOnly r' = readOnly r" "rReplicaType r' = rReplicaType r"
    using g by (auto simp: grown_def)
  have vi: "vol_inodes r' = insert f (vol_inodes r)" by (auto simp: vol_inodes_def v')
  have nf': "Some f \<notin> set (files ?v)" "the (revisionFile r) \<noteq> f" using nf by (auto simp: vol_inodes_def)
  have "fs_clean (vol_inodes r) (the (revisionFile r)) w'" using c' unfolding fs_clean_def by simp
  then have ks: "keeps (vol_inodes r) (the (revisionFile r)) w w'" using dt sl by (simp add: keeps_def)
  have o: "rep_ok fs_avail r w'" "\<forall>p. 0 \<le> p \<and> p < vol_size ?v \<longrightarrow> rep_byte fs_content fs_alloc r w' p = rep_byte fs_content fs_alloc r w p"
    using rep_ok_keeps [OF ok same_data_refl ks c] by simp_all
  have wf': "wf_disk (fs_avail w') ?v" and sf: "all_safe (?v, w', rChan r)" using o(1) by (simp_all add: rep_ok_def)
  have "fs_avail w' f (vol_size ?v)" using sz fd by (simp add: fs_avail_def sp_avail_def hole_file_def)
  then have wf'': "wf_disk (fs_avail w') ?v'" by (rule wf_disk_grow [OF wf' v'(1,2,3) nf'(1) _ l])
  have sf': "all_safe (?v', w', rChan r)" using sf hole_safe_grow [OF _ v'(1,2)] by (simp add: all_safe_def)
  have ro: "rep_ok fs_avail r' w'"
    using o(1) wf'' sf' v' nf'(2) by (auto simp: rep_ok_def)
  have "rep_byte fs_content fs_alloc r' w' p = rep_byte fs_content fs_alloc r w' p" if "0 \<le> p" "p < vol_size ?v" for p
    unfolding rep_byte_def
    by (rule vol_byte_grow [OF _ v'(1,2) _ that]) (use o(1) fd in \<open>simp_all add: rep_ok_def wf_disk_def fs_alloc_def sp_alloc_def hole_file_def\<close>)
  then show ?thesis using nf fd v'(1,5) dt ro c' vi o(2) by (intro exI [of _ f]) simp
qed

theorem snapshot_keeps_volume_witness:
  "\<exists>r' w' f. r_Snapshot snap_renv ''s1'' True ''now'' (snap_replica, snap_fs) = (Inr (), r', w') \<and>
     files (rVolume r') = [None, Some 1, Some 2, Some f] \<and> ino_data w' f = hole_file 8192 \<and> rep_ok fs_avail r' w' \<and>
     rep_byte fs_content fs_alloc r' w' 5 = 7"
proof -
  obtain r' w' where st: "r_Snapshot snap_renv ''s1'' True ''now'' (snap_replica, snap_fs) = (Inr (), r', w')"
    using snap_run by (metis prod_cases3 fst_conv)
  have v: "vol_size (rVolume snap_replica) = 8192" "iSize (rInfo snap_replica) = 8192" "iHead (rInfo snap_replica) \<noteq> []"
    "files (rVolume snap_replica) = [None, Some 1, Some 2]"
    by (simp_all add: snap_replica_def lab_replica_def vol_size_def)
  have b: "rep_byte fs_content fs_alloc snap_replica snap_fs 5 = 7" by code_simp
  obtain f where "files (rVolume r') = files (rVolume snap_replica) @ [Some f]" "ino_data w' f = hole_file 8192" "rep_ok fs_avail r' w'"
      "\<forall>p. 0 \<le> p \<and> p < vol_size (rVolume snap_replica) \<longrightarrow>
         rep_byte fs_content fs_alloc r' w' p = rep_byte fs_content fs_alloc snap_replica snap_fs p"
    using snapshot_keeps_volume [OF snap_ok snap_clean(2,3) _ _ v(3) snap_clean(4) st] v by auto
  then show ?thesis using st v b by (intro exI [of _ r'] exI [of _ w'] exI [of _ f]) simp
qed

section \<open>The removal of a snapshot\<close>

text \<open>The files of the other disks keep their names.\<close>

definition images_rel :: "string \<Rightarrow> replica \<times> fs \<Rightarrow> replica \<times> fs \<Rightarrow> bool" where
  "images_rel name s s' \<longleftrightarrow> (\<forall>n. has_suffix imgSuffix n \<and> n \<noteq> name \<longrightarrow> dirents (snd s') n = dirents (snd s) n)"

interpretation images: rop_frame "images_rel name" for name
  by unfold_locales (simp_all add: images_rel_def)

lemma images_mod: "along (images_rel name) (modR f)" "along (images_rel name) (set_disk p g)"
  by (simp_all add: along_def modR_def set_disk_def images_rel_def case_prod_unfold)

lemma not_image: "has_suffix imgSuffix n \<Longrightarrow> n \<noteq> s @ metadataSuffix \<and> n \<noteq> s @ ''.tmp''"
proof -
  assume "has_suffix imgSuffix n"
  then obtain k where "n = k @ imgSuffix" unfolding has_suffix_def by (metis append_take_drop_id)
  then have "last n = CHR ''g''" by (simp add: imgSuffix_def)
  then show ?thesis by (auto simp: metadataSuffix_def)
qed

lemma images_calls:
  "along (images_rel name) (fsR (os_Remove name))" "along (images_rel name) (fsR (os_Remove (s @ metadataSuffix)))" "along (images_rel name) (fsR fs_SyncDir)"
  "along (images_rel name) (encodeToFile m (s @ metadataSuffix))"
proof -
  note sp = option.splits sum.splits unit.splits if_splits
  show "along (images_rel name) (fsR (os_Remove name))" "along (images_rel name) (fsR (os_Remove (s @ metadataSuffix)))"
    by (auto simp: along_def fsR_def case_prod_unfold os_Remove_def sys_def images_rel_def not_image split: sp)
  show sy: "along (images_rel name) (fsR fs_SyncDir)"
    by (auto simp: along_def fsR_def case_prod_unfold fs_SyncDir_def os_Close_def sys_def images_rel_def split: sp)
  have o: "along (images_rel name) (fsR (os_Open True True ((s @ metadataSuffix) @ ''.tmp'')))"
    using not_image [of _ "s @ metadataSuffix"]
    by (auto simp: along_def fsR_def case_prod_unfold os_Open_def sys_def images_rel_def split: sp)
  have rn: "along (images_rel name) (fsR (os_Rename ((s @ metadataSuffix) @ ''.tmp'') (s @ metadataSuffix)))"
    using not_image [of _ "s @ metadataSuffix"] not_image [of _ s]
    by (auto simp: along_def fsR_def case_prod_unfold os_Rename_def sys_def images_rel_def split: sp)
  have en: "along (images_rel name) (fsR (json_Encode i m))" "along (images_rel name) (fsR os_Close)" for i
    by (auto simp: along_def fsR_def case_prod_unfold json_Encode_def os_Close_def sys_def images_rel_def split: sp)
  show "along (images_rel name) (encodeToFile m (s @ metadataSuffix))"
    unfolding encodeToFile_def by (intro images.f_intros o rn en sy)
qed

lemma images_rmDisk: "along (images_rel name) (rmDisk name)"
  unfolding rmDisk_def removeR_def SyncDir_def by (intro images.f_intros images_calls)

lemma images_updates:
  "along (images_rel name) (updateChildDisk a b)" "along (images_rel name) (updateParentDisk a b)" "along (images_rel name) (updateParentRevisionCounter a)"
  "along (images_rel name) (drop_disk a)"
  unfolding updateChildDisk_def updateParentDisk_def updateParentRevisionCounter_def drop_disk_def Let_def
  by (intro images.f_intros images_mod images_calls)+

lemma images_removeIndex:
  assumes "\<forall>f w. dirents (snd (fClose (reF E) f w)) = dirents w"
  shows "along (images_rel name) (removeIndexR E index)"
proof -
  have "dirents (fst (snd (snd (RemoveIndex (reF E) index (d, w, ch))))) = dirents w" for d w ch
    using assms by (auto simp: RemoveIndex_def Let_def split: option.splits prod.splits) (metis snd_conv)+
  then show ?thesis by (auto simp: along_def removeIndexR_def images_rel_def case_prod_unfold)
qed

lemma images_drain:
  assumes "\<forall>f off len w. dirents (snd (fPunch (reF E) f off len w)) = dirents w"
  shows "along (images_rel name) (drainHoles E)"
proof -
  have pr: "dirents (snd (punch_retry (reF E) f off len n w)) = dirents w" for f off len n w
    using assms by (induction n arbitrary: w) (auto split: option.splits prod.splits, (metis snd_conv)+)
  have "dirents (snd (snd (CreateHoles (reF E) st w))) = dirents w" for st w
    using pr by (auto simp: CreateHoles_def case_prod_unfold split: list.splits option.splits)
  then show ?thesis by (auto simp: along_def drainHoles_def images_rel_def case_prod_unfold)
qed

lemma images_removeDiskNode:
  assumes "\<forall>f w. dirents (snd (fClose (reF E) f w)) = dirents w"
  shows "along (images_rel name) (removeDiskNode E a)"
  unfolding removeDiskNode_def Let_def
  by (intro images.f_intros images_updates images_removeIndex [OF assms] images_mod)

lemma removal_refused:
  "rMode r \<noteq> RW \<or> name = iHead (rInfo r) \<or> name = iParent (rInfo r) \<Longrightarrow> \<exists>e. RemoveDiffDisk E name (r, w) = (Inl e, r, w)"
  by (auto simp: RemoveDiffDisk_def rop_defs)

text \<open>
  C39. \<open>RemoveDiffDisk\<close> takes no file of another disk away: whichever of its calls fail, and whatever it
  returns, every name of a disk other than the given one refers to the same file afterwards.  And the
  head, the latest snapshot and every disk of a replica that is not in mode \<open>RW\<close> are refused before
  anything is changed.  Of the operations on open files it relies only on that closing a file and punching a
  hole leave the directory alone.
\<close>

theorem removal_keeps_other_disks:
  assumes st: "RemoveDiffDisk E name (r, w) = (res, r', w')"
    and cl: "\<forall>f w. dirents (snd (fClose (reF E) f w)) = dirents w"
    and pu: "\<forall>f off len w. dirents (snd (fPunch (reF E) f off len w)) = dirents w"
  shows "(\<forall>n. has_suffix imgSuffix n \<and> n \<noteq> name \<longrightarrow> dirents w' n = dirents w n) \<and>
    (rMode r \<noteq> RW \<or> name = iHead (rInfo r) \<or> name = iParent (rInfo r) \<longrightarrow> (\<exists>e. res = Inl e) \<and> r' = r \<and> w' = w)"
proof
  have "along (images_rel name) (RemoveDiffDisk E name)"
    unfolding RemoveDiffDisk_def by (intro images.f_intros images_drain [OF pu] images_removeDiskNode [OF cl] images_rmDisk)
  from alongD [OF this st] show "\<forall>n. has_suffix imgSuffix n \<and> n \<noteq> name \<longrightarrow> dirents w' n = dirents w n"
    by (simp add: images_rel_def)
  show "rMode r \<noteq> RW \<or> name = iHead (rInfo r) \<or> name = iParent (rInfo r) \<longrightarrow> (\<exists>e. res = Inl e) \<and> r' = r \<and> w' = w"
    using removal_refused [of r name E w] st by auto
qed

definition rm_replica :: replica where
  "rm_replica = snap_replica\<lparr>rInfo := info0\<lparr>iSize := 8192, iHead := ''volume-head-001.img'', iParent := ''volume-snap-s1.img''\<rparr>\<rparr>"

theorem removal_keeps_other_disks_witness:
  "\<exists>r' w'. RemoveDiffDisk snap_renv ''volume-snap-s0.img'' (rm_replica, snap_fs) = (Inr (), r', w') \<and>
     dirents w' ''volume-head-001.img'' = Some 2 \<and> dirents w' ''volume-snap-s0.img'' = None"
proof -
  have "map_sum (\<lambda>_. ()) (\<lambda>x. x) (fst (RemoveDiffDisk snap_renv ''volume-snap-s0.img'' (rm_replica, snap_fs))) = Inr ()"
      "dirents (snd (snd (RemoveDiffDisk snap_renv ''volume-snap-s0.img'' (rm_replica, snap_fs)))) ''volume-snap-s0.img'' = None" by code_simp+
  then obtain r' w' where st: "RemoveDiffDisk snap_renv ''volume-snap-s0.img'' (rm_replica, snap_fs) = (Inr (), r', w')"
      and z: "dirents w' ''volume-snap-s0.img'' = None"
    by (cases "RemoveDiffDisk snap_renv ''volume-snap-s0.img'' (rm_replica, snap_fs)") (auto simp: map_sum_def split: sum.splits)
  have "\<forall>f w. dirents (snd (fClose (reF snap_renv) f w)) = dirents w" "\<forall>f off len w. dirents (snd (fPunch (reF snap_renv) f off len w)) = dirents w"
    by (simp_all add: snap_renv_def lab_renv_def fs_ops_def case_prod_unfold)
  from removal_keeps_other_disks [OF st this]
  have "dirents w' ''volume-head-001.img'' = dirents snap_fs ''volume-head-001.img''" by (simp add: has_suffix_def imgSuffix_def)
  then show ?thesis using st z by (simp add: snap_fs_def)
qed

end
