(* ===== verification/RpcProps.thy ===== *)
theory RpcProps
  imports Rpc
begin

text \<open>
  What the protocol between controller and replica guarantees: messages survive the encoding, a cut message
  is noticed, a request has the effect of a direct call, and each caller gets the answer to their own request.
\<close>

section \<open>Examples\<close>

text \<open>A server over a list of bytes.\<close>

definition mem_ops :: "byte list data_ops" where
  "mem_ops = \<lparr>dpReadAt = (\<lambda>buf off s. (((int (length buf), None), take (length buf) (drop (nat off) s @ buf)), s)),
     dpWriteAt = (\<lambda>b off s. if length s < nat off + length b then ((0, Some (Err ''too long'')), s)
       else ((int (length b), None), splice (nat off) b s)),
     dpSync = (\<lambda>s. ((0, None), s)), dpUnmap = (\<lambda>off len s. ((0, None), s)), dpPingResponse = (\<lambda>s. (None, s))\<rparr>"

definition demo_msg :: message where
  "demo_msg = \<lparr>MsgMagicVersion = MagicVersion, Seq = 7, Type = TypeWrite, Offset = -1, Data = [1, 2, 3], Size = 3\<rparr>"

lemma fits_demo: "fits demo_msg"
  by (simp add: fits_def demo_msg_def)

section \<open>Messages\<close>

text \<open>
  C34. A message whose fields fit their widths is read back from its encoding exactly as it was, whatever
  follows it on the connection, and what follows is left for the next message.
\<close>

theorem message_round_trip:
  assumes "fits m"
  shows "wire_Read (wire_Write m @ s) = Inr (m, s)"
  by (rule wire_Read_Write [OF assms])

theorem message_round_trip_witness: "wire_Read (wire_Write demo_msg @ [9]) = Inr (demo_msg, [9])"
  by (rule message_round_trip [OF fits_demo])

text \<open>C35. A message that is cut off anywhere is never taken for a message.\<close>

theorem cut_message_refused:
  assumes "fits m" and "k < length (wire_Write m)"
  shows "\<exists>e. wire_Read (take k (wire_Write m)) = Inl e"
  by (rule wire_Read_truncated [OF assms])

theorem cut_message_refused_witness: "\<exists>e. wire_Read (take 31 (wire_Write demo_msg)) = Inl e"
  by (rule cut_message_refused [OF fits_demo]) (simp add: wire_Write_def demo_msg_def)

section \<open>Requests\<close>

text \<open>
  C25. A write through client, connection and server is one call of the replica with the same bytes at the
  same offset: the replica's state is that after the call, the caller gets the length of the buffer when
  the call succeeds (the server does not look at the number that the replica returns), and the text of
  the error when it fails.
\<close>

theorem rpc_write_is_call:
  assumes "length buf < 2 ^ 32" and "- (2 ^ 63) \<le> offset" "offset < 2 ^ 63"
    and "dpWriteAt D buf offset s = ((c, err), s')" and "\<forall>e. err = Some e \<longrightarrow> length (error_text e) < 2 ^ 32"
  shows "rpc_call D sq TypeWrite buf offset (int (length buf)) s =
    (((if err = None then int (length buf) else 0, sent_error err), buf), s')"
  by (rule rpc_write [OF assms])

theorem rpc_write_is_call_witness:
  "rpc_call mem_ops 1 TypeWrite [8, 9] 1 2 [0, 0, 0] = (((2, None), [8, 9]), [0, 8, 9]) \<and>
   rpc_call mem_ops 1 TypeWrite [8, 9] 2 2 [0, 0, 0] = (((0, Some (Err ''too long'')), [8, 9]), [0, 0, 0])"
  using rpc_write_is_call [of "[8, 9]" 1 mem_ops "[0, 0, 0]" 2 None "[0, 8, 9]" 1]
    rpc_write_is_call [of "[8, 9]" 2 mem_ops "[0, 0, 0]" 0 "Some (Err ''too long'')" "[0, 0, 0]" 1]
  by (simp add: mem_ops_def splice_def sent_error_def)

text \<open>
  C26. A read through client, connection and server returns the bytes that the replica has read into a fresh
  buffer of the same length; when the replica fails, the caller's buffer is left alone.
\<close>

theorem rpc_read_is_call:
  assumes "length buf < 2 ^ 32" and "- (2 ^ 63) \<le> offset" "offset < 2 ^ 63"
    and "dpReadAt D (replicate (length buf) 0) offset s = (((c, err), bs), s')" and "length bs = length buf"
    and "err \<noteq> Some EOF" and "\<forall>e. err = Some e \<longrightarrow> length (error_text e) < 2 ^ 32"
  shows "rpc_call D sq TypeRead buf offset (int (length buf)) s =
    (((if err = None then int (length buf) else 0, sent_error err), if err = None then bs else buf), s')"
  by (rule rpc_read [OF assms])

theorem rpc_read_is_call_witness:
  "rpc_call mem_ops 1 TypeRead [7, 7] 1 2 [1, 2, 3, 4] = (((2, None), [2, 3]), [1, 2, 3, 4])"
  using rpc_read_is_call [of "[7, 7]" 1 mem_ops "[1, 2, 3, 4]" 2 None "[2, 3]" "[1, 2, 3, 4]" 1]
  by (simp add: mem_ops_def sent_error_def)

text \<open>
  C9. As long as the connection has been given fewer requests than a 32-bit number can tell apart, in any
  interleaving of the client's and the server's steps: a caller who is answered before the connection
  fails has the server's answer to the very request they made.
\<close>

theorem answers_belong_to_requests:
  assumes "conn_reachable D s k" and "length (cnIssued k) < 2 ^ 32" and "answers_fit D" and "clErr (cnClient k) = None" and "(i, d) \<in> set (clDone (cnClient k))"
  shows "\<exists>q r. (i, q) \<in> set (cnIssued k) \<and> (q, r) \<in> set (cnLog k) \<and> d = q\<lparr>Type := Type r, Size := Size r, Data := Data r\<rparr>"
  using conn_reachable_inv [OF assms(1,3,2)] assms(4,5) by (fastforce simp: conn_inv_def done_ok_def)

lemma mem_fits: "answers_fit mem_ops"
proof -
  have "fits r" if "request_fits m" "handle mem_ops m s = (Inr r, s')" for m s r s'
    using that
    by (auto simp: mem_ops_def handle_defs answer_def createResponse_def Let_def request_fits_def fits_def type_defs split: if_splits)
  then show ?thesis by (auto simp: answers_fit_def)
qed

text \<open>One request, from the caller to the server and back.\<close>

definition demo_request :: message where
  "demo_request = (request_of TypeSync [] 0 0)\<lparr>MsgMagicVersion := MagicVersion, Seq := 1\<rparr>"

definition demo_answer :: message where
  "demo_answer = demo_request\<lparr>Type := TypeResponse\<rparr>"

lemma demo_conn:
  "conn_reachable mem_ops [] ((conn0 [])\<lparr>cnClient := NewClient\<lparr>clSeq := 1, clDone := [(4 :: nat, demo_answer)]\<rparr>,
     cnIssued := [(4, demo_request)], cnLog := [(demo_request, demo_answer)]\<rparr>)"
proof -
  have q: "fits demo_request" and a: "fits demo_answer" by (simp_all add: demo_answer_def demo_request_def request_of_def fits_def type_defs)
  note defs = conn0_def NewClient_def demo_request_def demo_answer_def request_of_def handleRequest_def Let_def
  define k1 where "k1 = (conn0 [] :: (nat, byte list) conn)\<lparr>cnClient := NewClient\<lparr>clSeq := 1, clMessages := [(1, 4, demo_request)], clSend := [demo_request]\<rparr>, cnIssued := [(4, demo_request)]\<rparr>"
  define k2 where "k2 = k1\<lparr>cnClient := (cnClient k1)\<lparr>clSend := []\<rparr>, cnUp := wire_Write demo_request\<rparr>"
  define k3 where "k3 = k2\<lparr>cnUp := [], cnDown := wire_Write demo_answer, cnLog := [(demo_request, demo_answer)]\<rparr>"
  have 1: "conn_reachable mem_ops [] k1"
    using cr_step [OF cr_init cn_request [of "conn0 []" "request_of TypeSync [] 0 0" "handleRequest 4 (request_of TypeSync [] 0 0) NewClient" 4]]
    by (simp add: defs k1_def request_fits_def fits_def type_defs)
  have 2: "conn_reachable mem_ops [] k2" using cr_step [OF 1 cn_send [of k1 demo_request "[]"]] by (simp add: defs k1_def k2_def)
  have 3: "conn_reachable mem_ops [] k3"
    using cr_step [OF 2 cn_serve [of k2 demo_request "[]" mem_ops demo_answer "[]"]] wire_Read_Write_self [OF q]
    by (simp add: defs k1_def k2_def k3_def handle_defs type_defs mem_ops_def answer_def createResponse_def)
  show ?thesis using cr_step [OF 3 cn_receive [of k3 demo_answer "[]"]] wire_Read_Write_self [OF a] by (simp add: defs k1_def k2_def k3_def)
qed

theorem answers_belong_to_requests_witness:
  "\<exists>q r. (q, r) \<in> set [(demo_request, demo_answer)] \<and> demo_answer = q\<lparr>Type := Type r, Size := Size r, Data := Data r\<rparr>"
proof -
  show ?thesis using answers_belong_to_requests [OF demo_conn _ mem_fits, of 4 demo_answer] by (fastforce simp: NewClient_def)
qed

end
