(* ===== verification/SyncAgent.thy ===== *)
theory SyncAgent
  imports Strconv "HOL-Library.AList"
begin

text \<open>
  \<open>sync/agent\<close>: the process beside each replica that starts the tools which copy, fold and back up files.
  A request creates a process; a goroutine runs its command and records how it ended.  A process without
  a source file listens on a port of its own, which it gives back at its end.  The operating system is a
  parameter: how a command line ends.
\<close>

section \<open>State\<close>

text \<open>\<open>Process\<close> of \<open>sync/agent/model.go\<close>; its creation time is never set.\<close>

record process =
  pId :: string
  pResourceType :: string
  ProcessType :: string
  SrcFile :: string
  DestFile :: string
  pHost :: string
  pPort :: int
  ExitCode :: int
  pOutput :: string

text \<open>A process is a pointer that both maps of the server share: the second map has its identifier.\<close>

record agent =
  processCounter :: int
  currentPort :: int
  startPort :: int
  endPort :: int
  processes :: "(string \<times> process) list"
  processesByPort :: "(int \<times> string) list"

definition agent_NewServer :: "int \<Rightarrow> int \<Rightarrow> agent" where
  "agent_NewServer start end' =
     \<lparr>processCounter = 0, currentPort = start, startPort = start, endPort = end', processes = [], processesByPort = []\<rparr>"

section \<open>Requests\<close>

definition ListProcesses :: "agent \<Rightarrow> process list" where
  "ListProcesses s = map snd (processes s)"

text \<open>No process is the answer \<open>404 Not Found\<close>.\<close>

definition GetProcess :: "string \<Rightarrow> agent \<Rightarrow> process option" where
  "GetProcess pid s = map_of (processes s) pid"

definition set_process :: "string \<Rightarrow> (process \<Rightarrow> process) \<Rightarrow> agent \<Rightarrow> agent" where
  "set_process pid f s =
     (case map_of (processes s) pid of None \<Rightarrow> s | Some p \<Rightarrow> s\<lparr>processes := AList.update pid (f p) (processes s)\<rparr>)"

fun port_loop :: "nat \<Rightarrow> agent \<Rightarrow> int result \<times> agent" where
  "port_loop 0 s = (Inl (Err ''Out of ports''), s)"
| "port_loop (Suc n) s =
     (let port = currentPort s;
          s1 = s\<lparr>currentPort := (if currentPort s + 1 > endPort s then startPort s else currentPort s + 1)\<rparr>
      in case map_of (processesByPort s) port of
           Some _ \<Rightarrow> port_loop n s1
         | None \<Rightarrow> (Inr port, s1))"

definition nextPort :: "agent \<Rightarrow> int result \<times> agent" where
  "nextPort s = port_loop (nat (endPort s - startPort s + 1)) s"

text \<open>The part of \<open>CreateProcess\<close> under the lock: the identifier of the new process, and whether it has got a port.\<close>

definition CreateProcess :: "process \<Rightarrow> agent \<Rightarrow> (string \<times> bool) result \<times> agent" where
  "CreateProcess p s =
     (let (res, s1) = (if SrcFile p = [] then nextPort s else (Inr (pPort p), s))
      in case res of
           Inl e \<Rightarrow> (Inl e, s1)
         | Inr port \<Rightarrow>
             let gotNextPort = (SrcFile p = []);
                 pid = FormatInt (processCounter s1 + 1);
                 q = p\<lparr>pId := pid, pResourceType := ''process'', pPort := port\<rparr>
             in (Inr (pid, gotNextPort),
                 s1\<lparr>processCounter := processCounter s1 + 1, processes := AList.update pid q (processes s1),
                    processesByPort := (if gotNextPort then AList.update port pid (processesByPort s1) else processesByPort s1)\<rparr>))"

text \<open>After the lock is released, the process is marked as running; then its goroutine is started.\<close>

definition mark_running :: "string \<Rightarrow> agent \<Rightarrow> agent" where
  "mark_running pid = set_process pid (\<lambda>p. p\<lparr>ExitCode := -2\<rparr>)"

section \<open>Commands\<close>

text \<open>
  How a command ends: it cannot be started, waiting for it fails, or it exits with a status and the output
  it has written.  The status of a process that was killed is \<open>-1\<close>.
\<close>

datatype cmd_result = StartError error | WaitError error string | Exited int string

definition sync_args :: "string \<Rightarrow> process \<Rightarrow> string list" where
  "sync_args httpTimeout p =
     [''ssync''] @ (if pHost p \<noteq> [] then [''-host'', pHost p] else []) @ [''-timeout'', FormatInt 7] @
     (if httpTimeout \<noteq> [] then [''-httpTimeout'', httpTimeout] else []) @
     (if pPort p \<noteq> 0 then [''-port'', FormatInt (pPort p)] else []) @
     (if SrcFile p = [] then [''-daemon''] @ (if DestFile p \<noteq> [] then [DestFile p] else []) else [SrcFile p])"

definition list_args :: "process \<Rightarrow> string list" where
  "list_args p = [''sbackup'', ''list'', SrcFile p] @ (if DestFile p \<noteq> [] then [''--volume'', DestFile p] else [])"

text \<open>\<open>launch\<close>: the command line of each type of process, and whether its output is kept.\<close>

definition command_of :: "string \<Rightarrow> process \<Rightarrow> (string list \<times> bool) result" where
  "command_of httpTimeout p =
     (if ProcessType p = ''sync'' then Inr (sync_args httpTimeout p, False)
      else if ProcessType p = ''fold'' then Inr ([''sfold'', SrcFile p, DestFile p], False)
      else if ProcessType p = ''backup''
        then Inr ([''sbackup'', ''create'', SrcFile p, ''--dest'', DestFile p, ''--volume'', pHost p], True)
      else if ProcessType p = ''rmbackup'' then Inr ([''sbackup'', ''delete'', SrcFile p], True)
      else if ProcessType p = ''restore'' then Inr ([''sbackup'', ''restore'', SrcFile p, ''--to'', DestFile p], True)
      else if ProcessType p = ''inspectbackup'' then Inr ([''sbackup'', ''inspect'', SrcFile p], True)
      else if ProcessType p = ''listbackup'' then Inr (list_args p, True)
      else Inl (Err ''Unknown process type''))"

definition run_command :: "bool \<Rightarrow> cmd_result \<Rightarrow> process \<Rightarrow> error option \<times> process" where
  "run_command keep r p =
     (case r of
        StartError e \<Rightarrow> (Some e, p)
      | WaitError e out \<Rightarrow> (Some e, (if keep then p\<lparr>pOutput := out\<rparr> else p)\<lparr>ExitCode := 1\<rparr>)
      | Exited n out \<Rightarrow>
          (if n = 0 then None else Some (Err ''exit status''), (if keep then p\<lparr>pOutput := out\<rparr> else p)\<lparr>ExitCode := n\<rparr>))"

definition launch :: "(string list \<Rightarrow> cmd_result) \<Rightarrow> string \<Rightarrow> process \<Rightarrow> error option \<times> process" where
  "launch os httpTimeout p =
     (case command_of httpTimeout p of
        Inl e \<Rightarrow> (Some e, p)
      | Inr (args, keep) \<Rightarrow> run_command keep (os args) p)"

text \<open>The goroutine of a process, in two steps: the command ends, then the port is given back under the lock.\<close>

definition process_ends :: "(string list \<Rightarrow> cmd_result) \<Rightarrow> string \<Rightarrow> string \<Rightarrow> agent \<Rightarrow> agent" where
  "process_ends os httpTimeout pid = set_process pid (\<lambda>p. snd (launch os httpTimeout p))"

definition release_port :: "string \<Rightarrow> agent \<Rightarrow> agent" where
  "release_port pid s =
     (case map_of (processes s) pid of
        None \<Rightarrow> s
      | Some p \<Rightarrow> s\<lparr>processesByPort := AList.delete (pPort p) (processesByPort s)\<rparr>)"

section \<open>Interleaving\<close>

text \<open>
  Any number of requests are under way: each has created its process, marked it, or seen its command end.
  \<open>Bool\<close> is whether the process has got a port.
\<close>

datatype phase = Created | Running | Ended

type_synonym agent_state = "agent \<times> (string \<times> bool \<times> phase) list"

inductive agent_step :: "agent_state \<Rightarrow> agent_state \<Rightarrow> bool" where
  create: "CreateProcess p s = (Inr (pid, got), s') \<Longrightarrow> agent_step (s, ts) (s', (pid, got, Created) # ts)"
| refuse: "CreateProcess p s = (Inl e, s') \<Longrightarrow> agent_step (s, ts) (s', ts)"
| mark: "agent_step (s, as @ (pid, got, Created) # bs) (mark_running pid s, as @ (pid, got, Running) # bs)"
| ends: "agent_step (s, as @ (pid, got, Running) # bs) (process_ends os h pid s, as @ (pid, got, Ended) # bs)"
| release: "agent_step (s, as @ (pid, got, Ended) # bs) (if got then release_port pid s else s, as @ bs)"

inductive agent_reachable :: "int \<Rightarrow> int \<Rightarrow> agent_state \<Rightarrow> bool" for a b where
  init: "agent_reachable a b (agent_NewServer a b, [])"
| step: "agent_reachable a b st \<Longrightarrow> agent_step st st' \<Longrightarrow> agent_reachable a b st'"

end
