(* ===== verification/Http.thy ===== *)
theory Http
  imports SyncAgent Types
begin

text \<open>
  What the HTTP clients and the rebuild task of a replica share: the values that travel as JSON, the transport
  they travel on, and string functions of Go's library.  The transport is a parameter: a request may change the
  world, fail, or be answered with any status and any body; the world also changes while a client sleeps.
\<close>

section \<open>Strings\<close>

text \<open>\<open>strings.Split\<close> at a character, \<open>strings.Split\<close> at \<open>://\<close>, \<open>strings.Contains\<close>, \<open>strings.Replace\<close> of all occurrences.\<close>

fun split_on :: "char \<Rightarrow> string \<Rightarrow> string list" where
  "split_on c [] = [[]]"
| "split_on c (x # xs) =
     (if x = c then [] # split_on c xs
      else case split_on c xs of [] \<Rightarrow> [[x]] | s # ss \<Rightarrow> (x # s) # ss)"

fun contains_str :: "string \<Rightarrow> string \<Rightarrow> bool" where
  "contains_str [] p = (p = [])"
| "contains_str (c # s) p = (has_prefix p (c # s) \<or> contains_str s p)"

function replace_all :: "string \<Rightarrow> string \<Rightarrow> string \<Rightarrow> string" where
  "replace_all old new [] = []"
| "replace_all old new (c # s) =
     (if old \<noteq> [] \<and> has_prefix old (c # s) then new @ replace_all old new (drop (length old) (c # s))
      else c # replace_all old new s)"
  by pat_completeness auto
termination
  by (relation "measure (\<lambda>(_, _, s). length s)") auto

function split_str :: "string \<Rightarrow> string \<Rightarrow> string \<Rightarrow> string list" where
  "split_str sep acc [] = [rev acc]"
| "split_str sep acc (c # s) =
     (if sep \<noteq> [] \<and> has_prefix sep (c # s) then rev acc # split_str sep [] (drop (length sep) (c # s))
      else split_str sep (c # acc) s)"
  by pat_completeness auto
termination
  by (relation "measure (\<lambda>(_, _, s). length s)") auto

lemma has_prefix_longer:
  assumes "has_prefix p s"
  shows "has_prefix p (s @ t)"
proof -
  have "s = p @ drop (length p) s" using assms append_take_drop_id [of "length p" s] by (simp add: has_prefix_def)
  then show ?thesis by (metis append.assoc has_prefix_append)
qed

section \<open>Values\<close>

text \<open>\<open>Snapshot\<close> and \<open>SyncInfo\<close> of \<open>types/types.go\<close>, the progress of a rebuild.\<close>

record snapshot =
  snName :: string
  RWSize :: string
  WOSize :: string
  snStatus :: string

record syncInfo =
  Snapshots :: "snapshot list"
  RWReplica :: string
  WOReplica :: string
  RWSnapshotsTotalSize :: string
  WOSnapshotsTotalSize :: string

text \<open>
  The resources of the two servers, as far as a client looks at them: the links of the actions they offer,
  their own link, their fields.  A missing action is the empty string.
\<close>

record restReplica =
  rrActions :: "(string \<times> string) list"
  rrInfo :: replicaInfo

record ctlReplica =
  crId :: string
  crActions :: "(string \<times> string) list"
  crSelf :: string
  crAddress :: string
  crMode :: string

record ctlVolume =
  cvId :: string
  cvActions :: "(string \<times> string) list"
  cvName :: string
  cvReplicaCount :: int
  cvReadOnly :: string

record volumeStats =
  vsIsClientConnected :: bool
  vsRevisionCounter :: int
  vsReplicaCounter :: int
  vsSCSIIOCount :: "(int \<times> int) list"
  vsReadIOPS :: string
  vsTotalReadTime :: string
  vsTotalReadBlockCount :: string
  vsWriteIOPS :: string
  vsTotalWriteTime :: string
  vsTotalWriteBlockCount :: string
  vsUsedLogicalBlocks :: string
  vsUsedBlocks :: string
  vsSectorSize :: string
  vsSize :: string
  vsUpTime :: string
  vsName :: string
  vsReplica :: "replicaEntry list"
  vsReplicaInfo :: "replicaInfo list"
  vsControllerStatus :: string

record registration =
  rgAddress :: string
  rgUUID :: string
  rgRevCount :: string
  rgRepType :: string
  rgUpTime :: int
  rgRepState :: string

record logToFile =
  lfEnable :: bool
  lfMaxLogFileSize :: int
  lfRetentionPeriod :: int
  lfMaxBackups :: int

text \<open>Bodies of requests and of answers.  \<open>JNull\<close> is Go's \<open>nil\<close>, \<open>JEmpty\<close> an empty map, \<open>JBad\<close> a body that does not decode.\<close>

datatype body =
    JNull
  | JEmpty
  | JBad
  | JReplica restReplica
  | JProcess string process
  | JVolumes "ctlVolume list"
  | JVolume ctlVolume
  | JReplicas "ctlReplica list"
  | JCtlReplica ctlReplica
  | JCheckpoint string
  | JRebuildInfo syncInfo
  | JSnapshotOutput string string
  | JPrepareRebuild "string list"
  | JPrepareRemove "prepareRemoveAction list"
  | JCreate string
  | JRevert string string
  | JLogging logToFile
  | JRebuilding bool
  | JName string
  | JReplaceDisk string string
  | JCloneUpdate string string
  | JStart "string list"
  | JResize string string
  | JJournal int
  | JTimeout string string
  | JStats volumeStats
  | JRegister registration
  | JDeleted "(string \<times> string \<times> string) list"

definition replicaInfo0 :: replicaInfo where
  "replicaInfo0 = \<lparr>riDirty = False, riRebuilding = False, riHead = [], riParent = [], riSize = [], riSectorSize = 0, riState = [],
     riChain = [], riDisks = [], riRemainSnapshots = 0, riReplicaMode = [], riRevisionCounter = [], riUsedLogicalBlocks = [],
     riUsedBlocks = [], riCloneStatus = [], riCheckpoint = []\<rparr>"

definition process0 :: process where
  "process0 = \<lparr>pId = [], pResourceType = [], ProcessType = [], SrcFile = [], DestFile = [], pHost = [], pPort = 0, ExitCode = 0, pOutput = []\<rparr>"

text \<open>
  Decoding into a variable of a type: fields that the body does not have keep their zero values, so a body of
  another type decodes without an error.
\<close>

definition dec_replica :: "body \<Rightarrow> restReplica result" where
  "dec_replica b = (case b of JBad \<Rightarrow> Inl EOF | JReplica r \<Rightarrow> Inr r | _ \<Rightarrow> Inr \<lparr>rrActions = [], rrInfo = replicaInfo0\<rparr>)"

definition dec_process :: "body \<Rightarrow> (string \<times> process) result" where
  "dec_process b = (case b of JBad \<Rightarrow> Inl EOF | JProcess self p \<Rightarrow> Inr (self, p) | _ \<Rightarrow> Inr ([], process0))"

definition dec_rebuildInfo :: "body \<Rightarrow> syncInfo result" where
  "dec_rebuildInfo b = (case b of JBad \<Rightarrow> Inl EOF | JRebuildInfo i \<Rightarrow> Inr i
     | _ \<Rightarrow> Inr \<lparr>Snapshots = [], RWReplica = [], WOReplica = [], RWSnapshotsTotalSize = [], WOSnapshotsTotalSize = []\<rparr>)"

definition dec_operations :: "body \<Rightarrow> prepareRemoveAction list result" where
  "dec_operations b = (case b of JBad \<Rightarrow> Inl EOF | JPrepareRemove ops \<Rightarrow> Inr ops | _ \<Rightarrow> Inr [])"

definition dec_ctlReplica :: "body \<Rightarrow> ctlReplica result" where
  "dec_ctlReplica b = (case b of JBad \<Rightarrow> Inl EOF | JCtlReplica r \<Rightarrow> Inr r
     | _ \<Rightarrow> Inr \<lparr>crId = [], crActions = [], crSelf = [], crAddress = [], crMode = []\<rparr>)"

definition dec_volumes :: "body \<Rightarrow> ctlVolume list result" where
  "dec_volumes b = (case b of JBad \<Rightarrow> Inl EOF | JVolumes vs \<Rightarrow> Inr vs | _ \<Rightarrow> Inr [])"

definition dec_volume :: "body \<Rightarrow> ctlVolume result" where
  "dec_volume b = (case b of JBad \<Rightarrow> Inl EOF | JVolume v \<Rightarrow> Inr v
     | _ \<Rightarrow> Inr \<lparr>cvId = [], cvActions = [], cvName = [], cvReplicaCount = 0, cvReadOnly = []\<rparr>)"

definition dec_replicas :: "body \<Rightarrow> ctlReplica list result" where
  "dec_replicas b = (case b of JBad \<Rightarrow> Inl EOF | JReplicas rs \<Rightarrow> Inr rs | _ \<Rightarrow> Inr [])"

definition dec_checkpoint :: "body \<Rightarrow> string result" where
  "dec_checkpoint b = (case b of JBad \<Rightarrow> Inl EOF | JCheckpoint s \<Rightarrow> Inr s | _ \<Rightarrow> Inr [])"

definition dec_disks :: "body \<Rightarrow> string list result" where
  "dec_disks b = (case b of JBad \<Rightarrow> Inl EOF | JPrepareRebuild ds \<Rightarrow> Inr ds | _ \<Rightarrow> Inr [])"

definition dec_snapshot :: "body \<Rightarrow> string result" where
  "dec_snapshot b = (case b of JBad \<Rightarrow> Inl EOF | JSnapshotOutput name msg \<Rightarrow> Inr name | _ \<Rightarrow> Inr [])"

definition action_link :: "(string \<times> string) list \<Rightarrow> string \<Rightarrow> string" where
  "action_link actions name = (case map_of actions name of None \<Rightarrow> [] | Some l \<Rightarrow> l)"

section \<open>The transport\<close>

text \<open>A request has a method, a URL and a body; an answer has a status and a body.\<close>

record 'w transport =
  httpDo :: "string \<Rightarrow> string \<Rightarrow> body \<Rightarrow> 'w \<Rightarrow> (int \<times> body) result \<times> 'w"
  sleepFor :: "int \<Rightarrow> 'w \<Rightarrow> 'w"

type_synonym ('w, 'a) call = "'w \<Rightarrow> 'a result \<times> 'w"

definition bindC :: "('w, 'a) call \<Rightarrow> ('a \<Rightarrow> ('w, 'b) call) \<Rightarrow> ('w, 'b) call" where
  "bindC m f = (\<lambda>w. case m w of (Inl e, w') \<Rightarrow> (Inl e, w') | (Inr x, w') \<Rightarrow> f x w')"

definition retC :: "'a \<Rightarrow> ('w, 'a) call" where
  "retC x = (\<lambda>w. (Inr x, w))"

definition failC :: "error \<Rightarrow> ('w, 'a) call" where
  "failC e = (\<lambda>w. (Inl e, w))"

definition pureC :: "'a result \<Rightarrow> ('w, 'a) call" where
  "pureC r = (\<lambda>w. (r, w))"

definition sleepC :: "'w transport \<Rightarrow> int \<Rightarrow> ('w, unit) call" where
  "sleepC T d = (\<lambda>w. (Inr (), sleepFor T d w))"

text \<open>An error that the caller looks at itself; a panic, the end of the process and no answer are not such errors.\<close>

definition attemptC :: "('w, 'a) call \<Rightarrow> ('w, 'a result) call" where
  "attemptC m = (\<lambda>w. case m w of
      (Inl e, w') \<Rightarrow> if crashes e then (Inl e, w') else (Inr (Inl e), w')
    | (Inr x, w') \<Rightarrow> (Inr (Inr x), w'))"

lemmas call_defs = bindC_def retC_def failC_def pureC_def sleepC_def attemptC_def

end
