(* ===== verification/ReplicaClient.thy ===== *)
theory ReplicaClient
  imports Http
begin

text \<open>
  \<open>replica/client/client.go\<close>: the HTTP client of a replica and of its sync agent.  Where the source waits for a
  process of the agent, it asks again until the process has ended; the number of questions is the fuel of the
  model, and using it up is \<open>Diverge\<close>.
\<close>

section \<open>Addresses\<close>

text \<open>
  The host of \<open>url.Parse\<close>: the part between \<open>//\<close> and the next slash, after the user information, with a port
  of digits or none.  Escapes are not decoded.
\<close>

definition url_host :: "string \<Rightarrow> string result" where
  "url_host address =
     (let u = takeWhile (\<lambda>c. c \<noteq> CHR ''?'' \<and> c \<noteq> CHR ''#'') address;
          scheme = takeWhile (\<lambda>c. c \<noteq> CHR '':'') u; rest = drop (Suc (length scheme)) u
      in if has_prefix ''//'' rest then
           let auth = takeWhile (\<lambda>c. c \<noteq> CHR ''/'') (drop 2 rest);
               host = rev (takeWhile (\<lambda>c. c \<noteq> CHR ''@'') (rev auth));
               port = rev (takeWhile (\<lambda>c. c \<noteq> CHR '':'') (rev host))
           in if CHR '':'' \<in> set host \<and> list_ex (\<lambda>c. digit_val c = None) port then Inl (Err ''invalid port'') else Inr host
         else Inr [])"

record replicaClient =
  rcAddress :: string
  rcSyncAgent :: string
  rcHost :: string

definition NewReplicaClient :: "string \<Rightarrow> replicaClient result" where
  "NewReplicaClient address0 =
     (let a1 = (if has_prefix ''tcp://'' address0 then drop 6 address0 else address0);
          a2 = (if \<not> has_prefix ''http'' a1 then ''http://'' @ a1 else a1);
          address = (if \<not> has_suffix ''/v1'' a2 then a2 @ ''/v1'' else a2)
      in case url_host address of
           Inl e \<Rightarrow> Inl e
         | Inr host \<Rightarrow>
             let parts = split_on (CHR '':'') host in
             if length parts < 2 then Inl (Err ''Invalid address, must have a port in it'')
             else case ParseInt (parts ! 1) of
               Inl e \<Rightarrow> Inl e
             | Inr port \<Rightarrow>
                 Inr \<lparr>rcAddress = address,
                      rcSyncAgent = replace_all ('':'' @ FormatInt port) ('':'' @ FormatInt (i64 (port + 2))) address,
                      rcHost = parts ! 0\<rparr>)"

section \<open>Requests\<close>

definition rc_get :: "'w transport \<Rightarrow> replicaClient \<Rightarrow> string \<Rightarrow> ('w, body) call" where
  "rc_get T c url =
     (let u = (if \<not> has_prefix ''http'' url then rcAddress c @ url else url)
      in bindC (httpDo T ''GET'' u JNull) (\<lambda>(status, b). if status \<ge> 300 then failC (Err ''Bad response'') else retC b))"

definition rc_post :: "'w transport \<Rightarrow> replicaClient \<Rightarrow> string \<Rightarrow> body \<Rightarrow> ('w, body) call" where
  "rc_post T c path req =
     (let u = (if \<not> has_prefix ''http'' path then rcAddress c @ path else path)
      in bindC (httpDo T ''POST'' u req) (\<lambda>(status, b). if status \<ge> 300 then failC (Err ''Bad response'') else retC b))"

definition post_nil :: "'w transport \<Rightarrow> replicaClient \<Rightarrow> string \<Rightarrow> body \<Rightarrow> ('w, unit) call" where
  "post_nil T c path req = bindC (rc_post T c path req) (\<lambda>_. retC ())"

definition rc_GetReplica :: "'w transport \<Rightarrow> replicaClient \<Rightarrow> ('w, restReplica) call" where
  "rc_GetReplica T c = bindC (rc_get T c (rcAddress c @ ''/replicas/1'')) (\<lambda>b. pureC (dec_replica b))"

text \<open>An action of the replica: its link is taken from a fresh description.\<close>

definition rc_action :: "'w transport \<Rightarrow> replicaClient \<Rightarrow> string \<Rightarrow> body \<Rightarrow> ('w, unit) call" where
  "rc_action T c action req =
     bindC (rc_GetReplica T c) (\<lambda>r. post_nil T c (action_link (rrActions r) action) req)"

definition rc_Create :: "'w transport \<Rightarrow> replicaClient \<Rightarrow> string \<Rightarrow> ('w, unit) call" where
  "rc_Create T c sz = rc_action T c ''create'' (JCreate sz)"

text \<open>The status of the answer to a deletion is not looked at.\<close>

definition rc_Delete :: "'w transport \<Rightarrow> replicaClient \<Rightarrow> string \<Rightarrow> ('w, unit) call" where
  "rc_Delete T c path =
     bindC (rc_GetReplica T c) (\<lambda>_. bindC (httpDo T ''DELETE'' (rcAddress c @ path) JNull) (\<lambda>_. retC ()))"

definition rc_Revert :: "'w transport \<Rightarrow> replicaClient \<Rightarrow> string \<Rightarrow> string \<Rightarrow> ('w, unit) call" where
  "rc_Revert T c name created = rc_action T c ''revert'' (JRevert name created)"

definition rc_SetLogging :: "'w transport \<Rightarrow> replicaClient \<Rightarrow> logToFile \<Rightarrow> ('w, unit) call" where
  "rc_SetLogging T c lf = rc_action T c ''setlogging'' (JLogging lf)"

definition rc_Close :: "'w transport \<Rightarrow> replicaClient \<Rightarrow> ('w, unit) call" where
  "rc_Close T c = rc_action T c ''close'' JNull"

definition rc_SetRebuilding :: "'w transport \<Rightarrow> replicaClient \<Rightarrow> bool \<Rightarrow> ('w, unit) call" where
  "rc_SetRebuilding T c rebuilding = rc_action T c ''setrebuilding'' (JRebuilding rebuilding)"

text \<open>The removal of a disk asks for a replica in mode \<open>RW\<close> first.\<close>

definition rc_if_RW :: "'w transport \<Rightarrow> replicaClient \<Rightarrow> string \<Rightarrow> body \<Rightarrow> ('w, body) call" where
  "rc_if_RW T c action req =
     bindC (rc_GetReplica T c) (\<lambda>r.
       if riReplicaMode (rrInfo r) \<noteq> ''RW'' then failC (Err ''Replica mode is'')
       else rc_post T c (action_link (rrActions r) action) req)"

definition rc_RemoveDisk :: "'w transport \<Rightarrow> replicaClient \<Rightarrow> string \<Rightarrow> ('w, unit) call" where
  "rc_RemoveDisk T c disk = bindC (rc_if_RW T c ''removedisk'' (JName disk)) (\<lambda>_. retC ())"

definition rc_ReplaceDisk :: "'w transport \<Rightarrow> replicaClient \<Rightarrow> string \<Rightarrow> string \<Rightarrow> ('w, unit) call" where
  "rc_ReplaceDisk T c target source = bindC (rc_if_RW T c ''replacedisk'' (JReplaceDisk target source)) (\<lambda>_. retC ())"

definition rc_PrepareRemoveDisk :: "'w transport \<Rightarrow> replicaClient \<Rightarrow> string \<Rightarrow> ('w, prepareRemoveAction list) call" where
  "rc_PrepareRemoveDisk T c disk = bindC (rc_if_RW T c ''prepareremovedisk'' (JName disk)) (\<lambda>b. pureC (dec_operations b))"

definition rc_OpenReplica :: "'w transport \<Rightarrow> replicaClient \<Rightarrow> ('w, unit) call" where
  "rc_OpenReplica T c = rc_action T c ''open'' JNull"

definition rc_GetRebuildInfo :: "'w transport \<Rightarrow> replicaClient \<Rightarrow> ('w, syncInfo) call" where
  "rc_GetRebuildInfo T c = bindC (rc_get T c (rcAddress c @ ''/rebuildinfo'')) (\<lambda>b. pureC (dec_rebuildInfo b))"

definition rc_ReloadReplica :: "'w transport \<Rightarrow> replicaClient \<Rightarrow> ('w, restReplica) call" where
  "rc_ReloadReplica T c = bindC (rc_post T c (rcAddress c @ ''/replicas/1?action=reload'') JEmpty) (\<lambda>b. pureC (dec_replica b))"

definition rc_UpdateCloneInfo :: "'w transport \<Rightarrow> replicaClient \<Rightarrow> string \<Rightarrow> string \<Rightarrow> ('w, restReplica) call" where
  "rc_UpdateCloneInfo T c snapName revCount =
     bindC (rc_post T c (rcAddress c @ ''/replicas/1?action=updatecloneinfo'') (JCloneUpdate snapName revCount)) (\<lambda>b. pureC (dec_replica b))"

section \<open>Processes of the agent\<close>

definition start_process :: "'w transport \<Rightarrow> replicaClient \<Rightarrow> process \<Rightarrow> ('w, string \<times> process) call" where
  "start_process T c p = bindC (rc_post T c (rcSyncAgent c @ ''/processes'') (JProcess [] p)) (\<lambda>b. pureC (dec_process b))"

definition rc_LaunchReceiver :: "'w transport \<Rightarrow> replicaClient \<Rightarrow> string \<Rightarrow> ('w, string \<times> int) call" where
  "rc_LaunchReceiver T c toFilePath =
     bindC (start_process T c (process0\<lparr>ProcessType := ''sync'', DestFile := toFilePath\<rparr>)) (\<lambda>(_, p). retC (rcHost c, pPort p))"

text \<open>Durations are in nanoseconds.\<close>

definition defaultSleepTime :: int where
  "defaultSleepTime = 250000000"

definition maxSleepTime :: int where
  "maxSleepTime = 1000000000"

definition RetrySleep :: "int \<Rightarrow> int" where
  "RetrySleep sleepTime = (let t = i64 (sleepTime * 2) in if t > maxSleepTime then maxSleepTime else t)"

definition get_process :: "'w transport \<Rightarrow> replicaClient \<Rightarrow> string \<Rightarrow> ('w, string \<times> process) call" where
  "get_process T c self = bindC (rc_get T c self) (\<lambda>b. pureC (dec_process b))"

fun wait_exit :: "nat \<Rightarrow> 'w transport \<Rightarrow> replicaClient \<Rightarrow> string \<Rightarrow> int \<Rightarrow> ('w, string) call" where
  "wait_exit 0 T c self start = failC Diverge"
| "wait_exit (Suc n) T c self start =
     bindC (get_process T c self) (\<lambda>(self', p).
       if ExitCode p = -2 then bindC (sleepC T start) (\<lambda>_. wait_exit n T c self' (RetrySleep start))
       else if ExitCode p = 0 then retC (pOutput p)
       else failC (Err ''ExitCode''))"

text \<open>\<open>SendFile\<close> asks once more after the first success.\<close>

fun wait_twice :: "nat \<Rightarrow> 'w transport \<Rightarrow> replicaClient \<Rightarrow> string \<Rightarrow> nat \<Rightarrow> int \<Rightarrow> ('w, unit) call" where
  "wait_twice 0 T c self successCount start = failC Diverge"
| "wait_twice (Suc n) T c self successCount start =
     bindC (get_process T c self) (\<lambda>(self', p).
       if ExitCode p = -2 then bindC (sleepC T start) (\<lambda>_. wait_twice n T c self' successCount (RetrySleep start))
       else if ExitCode p = 0 then
         (if successCount + 1 = 2 then retC () else bindC (sleepC T start) (\<lambda>_. wait_twice n T c self' (successCount + 1) start))
       else failC (Err ''ExitCode''))"

definition rc_SendFile :: "nat \<Rightarrow> 'w transport \<Rightarrow> replicaClient \<Rightarrow> string \<Rightarrow> string \<Rightarrow> int \<Rightarrow> ('w, unit) call" where
  "rc_SendFile n T c from host port =
     bindC (start_process T c (process0\<lparr>ProcessType := ''sync'', pHost := host, SrcFile := from, pPort := port\<rparr>))
       (\<lambda>(self, _). wait_twice n T c self 0 defaultSleepTime)"

definition run_process :: "nat \<Rightarrow> 'w transport \<Rightarrow> replicaClient \<Rightarrow> process \<Rightarrow> ('w, string) call" where
  "run_process n T c p = bindC (start_process T c p) (\<lambda>(self, _). wait_exit n T c self defaultSleepTime)"

definition fileOperation :: "nat \<Rightarrow> 'w transport \<Rightarrow> replicaClient \<Rightarrow> string \<Rightarrow> string \<Rightarrow> string \<Rightarrow> ('w, unit) call" where
  "fileOperation n T c from to processType =
     bindC (run_process n T c (process0\<lparr>ProcessType := processType, SrcFile := from, DestFile := to\<rparr>)) (\<lambda>_. retC ())"

definition rc_Coalesce :: "nat \<Rightarrow> 'w transport \<Rightarrow> replicaClient \<Rightarrow> string \<Rightarrow> string \<Rightarrow> ('w, unit) call" where
  "rc_Coalesce n T c from to = fileOperation n T c from to ''fold''"

definition rc_HardLink :: "nat \<Rightarrow> 'w transport \<Rightarrow> replicaClient \<Rightarrow> string \<Rightarrow> string \<Rightarrow> ('w, unit) call" where
  "rc_HardLink n T c from to = fileOperation n T c from to ''hardlink''"

definition rc_CreateBackup :: "nat \<Rightarrow> 'w transport \<Rightarrow> replicaClient \<Rightarrow> string \<Rightarrow> string \<Rightarrow> string \<Rightarrow> ('w, string) call" where
  "rc_CreateBackup n T c snap dest volume =
     run_process n T c (process0\<lparr>ProcessType := ''backup'', SrcFile := snap, DestFile := dest, pHost := volume\<rparr>)"

definition rc_RmBackup :: "nat \<Rightarrow> 'w transport \<Rightarrow> replicaClient \<Rightarrow> string \<Rightarrow> ('w, unit) call" where
  "rc_RmBackup n T c backup = bindC (run_process n T c (process0\<lparr>ProcessType := ''rmbackup'', SrcFile := backup\<rparr>)) (\<lambda>_. retC ())"

definition rc_RestoreBackup :: "nat \<Rightarrow> 'w transport \<Rightarrow> replicaClient \<Rightarrow> string \<Rightarrow> string \<Rightarrow> ('w, unit) call" where
  "rc_RestoreBackup n T c backup snapshotFile =
     bindC (run_process n T c (process0\<lparr>ProcessType := ''restore'', SrcFile := backup, DestFile := snapshotFile\<rparr>)) (\<lambda>_. retC ())"

definition rc_InspectBackup :: "nat \<Rightarrow> 'w transport \<Rightarrow> replicaClient \<Rightarrow> string \<Rightarrow> ('w, string) call" where
  "rc_InspectBackup n T c backup = run_process n T c (process0\<lparr>ProcessType := ''inspectbackup'', SrcFile := backup\<rparr>)"

definition rc_ListBackup :: "nat \<Rightarrow> 'w transport \<Rightarrow> replicaClient \<Rightarrow> string \<Rightarrow> string \<Rightarrow> ('w, string) call" where
  "rc_ListBackup n T c destURL volume =
     run_process n T c (process0\<lparr>ProcessType := ''listbackup'', SrcFile := destURL, DestFile := volume\<rparr>)"

end
