(* ===== verification/SyncAgentProps.thy ===== *)
theory SyncAgentProps
  imports SyncAgent
begin

text \<open>
  The ports of the sync agent: whatever requests and ends of processes are interleaved, two listeners never
  share a port, and a request is refused only when all ports are taken.
\<close>

section \<open>Names of processes\<close>

lemma FormatInt_inj: "0 \<le> m \<Longrightarrow> 0 \<le> n \<Longrightarrow> FormatInt m = FormatInt n \<Longrightarrow> m = n"
proof -
  assume "0 \<le> m" "0 \<le> n" "FormatInt m = FormatInt n"
  then have "format_nat (nat m) = format_nat (nat n)" "0 \<le> m" "0 \<le> n" by (auto simp: FormatInt_def)
  moreover from this have "Some (int (nat m)) = Some (int (nat n))" by (metis parse_format_nat)
  ultimately show "m = n" by simp
qed

section \<open>The search for a port\<close>

text \<open>The \<open>k\<close>-th port that the search looks at.\<close>

definition turn :: "agent \<Rightarrow> nat \<Rightarrow> int" where
  "turn s k = startPort s + (currentPort s - startPort s + int k) mod (endPort s - startPort s + 1)"

definition in_range :: "agent \<Rightarrow> bool" where
  "in_range s \<longleftrightarrow> startPort s \<le> currentPort s \<and> currentPort s \<le> endPort s"

definition advance :: "agent \<Rightarrow> agent" where
  "advance s = s\<lparr>currentPort := (if currentPort s + 1 > endPort s then startPort s else currentPort s + 1)\<rparr>"

lemma advance_simps [simp]:
  "startPort (advance s) = startPort s" "endPort (advance s) = endPort s" "processesByPort (advance s) = processesByPort s"
  "processes (advance s) = processes s" "processCounter (advance s) = processCounter s"
  by (simp_all add: advance_def)

lemma turn_0 [simp]: "in_range s \<Longrightarrow> turn s 0 = currentPort s"
  by (simp add: turn_def in_range_def)

lemma in_range_advance: "in_range s \<Longrightarrow> in_range (advance s)"
  by (auto simp: in_range_def advance_def)

lemma turn_advance:
  assumes r: "in_range s"
  shows "turn (advance s) k = turn s (Suc k)"
proof (cases "currentPort s + 1 > endPort s")
  case True
  define N where "N = endPort s - startPort s + 1"
  have "currentPort s - startPort s + int (Suc k) = int k + N" using r True by (simp add: in_range_def N_def)
  then have "(currentPort s - startPort s + int (Suc k)) mod N = int k mod N" by (simp only: mod_add_self2)
  then show ?thesis using True by (simp add: turn_def advance_def N_def)
qed (simp add: turn_def advance_def algebra_simps)

lemma turn_range: "in_range s \<Longrightarrow> turn s k \<in> {startPort s..endPort s}"
  using pos_mod_bound [of "endPort s - startPort s + 1" "currentPort s - startPort s + int k"]
    pos_mod_sign [of "endPort s - startPort s + 1" "currentPort s - startPort s + int k"]
  by (auto simp: turn_def in_range_def)

lemma turn_onto:
  assumes r: "in_range s" and p: "startPort s \<le> p" "p \<le> endPort s"
  obtains k where "k < nat (endPort s - startPort s + 1)" "turn s k = p"
proof -
  define N where "N = endPort s - startPort s + 1"
  define k where "k = nat ((p - currentPort s) mod N)"
  have N: "0 < N" using p by (simp add: N_def)
  have k: "int k = (p - currentPort s) mod N" using N by (simp add: k_def)
  have "(currentPort s - startPort s + int k) mod N = (p - startPort s) mod N" unfolding k by (simp add: mod_simps)
  also have "\<dots> = p - startPort s" using p by (intro mod_pos_pos_trivial) (auto simp: N_def)
  finally have "turn s k = p" by (simp add: turn_def N_def)
  moreover have "k < nat N" using N k by (metis nat_less_iff of_nat_0_le_iff pos_mod_bound zless_nat_eq_int_zless)
  ultimately show ?thesis using that by (simp add: N_def)
qed

lemma port_loop_step:
  "port_loop (Suc n) s = (if map_of (processesByPort s) (currentPort s) = None then (Inr (currentPort s), advance s) else port_loop n (advance s))"
  by (simp add: advance_def Let_def split: option.splits)

lemma port_loop_spec:
  assumes "in_range s" "port_loop n s = (res, s')"
  shows "in_range s' \<and> (\<exists>c. s' = s\<lparr>currentPort := c\<rparr>) \<and>
    (case res of Inl e \<Rightarrow> \<forall>k<n. map_of (processesByPort s) (turn s k) \<noteq> None
       | Inr p \<Rightarrow> (\<exists>k<n. p = turn s k) \<and> map_of (processesByPort s) p = None)"
  using assms
proof (induction n arbitrary: s)
  case 0
  have "s = s\<lparr>currentPort := currentPort s\<rparr>" by simp
  then show ?case using 0 by (auto intro: exI [of _ "currentPort s"])
next
  case (Suc n)
  show ?case
  proof (cases "map_of (processesByPort s) (currentPort s)")
    case None
    then have "res = Inr (currentPort s)" "s' = advance s" using Suc.prems(2) unfolding port_loop_step by auto
    then show ?thesis using None in_range_advance [OF Suc.prems(1)] Suc.prems(1) by (auto simp: advance_def intro: exI [of _ 0])
  next
    case (Some i)
    then have "port_loop n (advance s) = (res, s')" using Suc.prems(2) unfolding port_loop_step by simp
    from Suc.IH [OF in_range_advance [OF Suc.prems(1)] this] turn_advance [OF Suc.prems(1)] Some turn_0 [OF Suc.prems(1)]
    show ?thesis by (auto simp: advance_def less_Suc_eq_0_disj split: sum.splits)
  qed
qed

lemma nextPort_spec:
  assumes r: "in_range s" and n: "nextPort s = (res, s')"
  shows "in_range s' \<and> (\<exists>c. s' = s\<lparr>currentPort := c\<rparr>) \<and>
    (case res of Inl e \<Rightarrow> \<forall>p\<in>{startPort s..endPort s}. map_of (processesByPort s) p \<noteq> None
       | Inr p \<Rightarrow> p \<in> {startPort s..endPort s} \<and> map_of (processesByPort s) p = None)"
proof -
  note l = port_loop_spec [OF r n [unfolded nextPort_def]]
  show ?thesis
  proof (cases res)
    case (Inl e)
    have "map_of (processesByPort s) p \<noteq> None" if "p \<in> {startPort s..endPort s}" for p
    proof -
      have "startPort s \<le> p" "p \<le> endPort s" using that by auto
      then obtain k where "k < nat (endPort s - startPort s + 1)" "turn s k = p" by (rule turn_onto [OF r])
      then show ?thesis using l Inl by auto
    qed
    then show ?thesis using l Inl by simp
  qed (use l turn_range [OF r] in auto)
qed

section \<open>The invariant\<close>

text \<open>
  The ports that are taken are those of the listeners that have not given theirs back; identifiers are
  numbers up to the counter, so that a new one is new.
\<close>

definition agent_inv :: "int \<Rightarrow> int \<Rightarrow> agent_state \<Rightarrow> bool" where
  "agent_inv a b = (\<lambda>(s, ts).
     startPort s = a \<and> endPort s = b \<and> in_range s \<and> 0 \<le> processCounter s \<and>
     (\<forall>i\<in>dom (map_of (processes s)). \<exists>n. 1 \<le> n \<and> n \<le> processCounter s \<and> i = FormatInt n) \<and>
     distinct (map fst ts) \<and> fst ` set ts \<subseteq> dom (map_of (processes s)) \<and>
     (\<forall>q i. map_of (processesByPort s) q = Some i \<longrightarrow> q \<in> {a..b}) \<and>
     (\<forall>q i. map_of (processesByPort s) q = Some i \<longleftrightarrow>
        (\<exists>ph p. (i, True, ph) \<in> set ts \<and> map_of (processes s) i = Some p \<and> pPort p = q)))"

lemma agent_inv_init: "a \<le> b \<Longrightarrow> agent_inv a b (agent_NewServer a b, [])"
  by (simp add: agent_inv_def agent_NewServer_def in_range_def)

text \<open>Neither marking a process nor its end touches its port.\<close>

lemma set_process_inv:
  assumes inv: "agent_inv a b (s, ts)" and f: "\<And>p. pPort (f p) = pPort p"
  shows "agent_inv a b (set_process i f s, ts)"
proof (cases "map_of (processes s) i")
  case None then show ?thesis using inv by (simp add: set_process_def)
next
  case (Some p)
  define s' where "s' = set_process i f s"
  have s': "startPort s' = startPort s" "endPort s' = endPort s" "in_range s' = in_range s" "processCounter s' = processCounter s"
    "processesByPort s' = processesByPort s" "map_of (processes s') = (map_of (processes s))(i \<mapsto> f p)"
    using Some by (simp_all add: s'_def set_process_def in_range_def update_conv')
  have d: "dom (map_of (processes s')) = dom (map_of (processes s))" using Some s'(6) by auto
  have "(\<exists>x. map_of (processes s') j = Some x \<and> pPort x = q) \<longleftrightarrow> (\<exists>x. map_of (processes s) j = Some x \<and> pPort x = q)" for j q
    using Some s'(6) f by auto
  then have "(\<exists>ph x. (j, True, ph) \<in> set ts \<and> map_of (processes s') j = Some x \<and> pPort x = q) \<longleftrightarrow>
      (\<exists>ph x. (j, True, ph) \<in> set ts \<and> map_of (processes s) j = Some x \<and> pPort x = q)" for j q by blast
  then show ?thesis using inv unfolding agent_inv_def s'_def [symmetric] by (simp add: s'(1-5) d)
qed

lemma agent_inv_tasks:
  assumes "agent_inv a b (s, as @ (i, got, ph) # bs)"
  shows "agent_inv a b (s, as @ (i, got, ph') # bs)"
proof -
  have "(\<exists>x. (j, True, x) \<in> set (as @ (i, got, ph') # bs)) \<longleftrightarrow> (\<exists>x. (j, True, x) \<in> set (as @ (i, got, ph) # bs))" for j by auto
  then have "(\<exists>x p. (j, True, x) \<in> set (as @ (i, got, ph') # bs) \<and> map_of (processes s) j = Some p \<and> pPort p = q) \<longleftrightarrow>
      (\<exists>x p. (j, True, x) \<in> set (as @ (i, got, ph) # bs) \<and> map_of (processes s) j = Some p \<and> pPort p = q)" for j q by blast
  then show ?thesis using assms unfolding agent_inv_def by simp
qed

lemma launch_port: "pPort (snd (launch os h p)) = pPort p"
  by (auto simp: launch_def run_command_def split: sum.splits cmd_result.splits)

lemma agent_inv_ids:
  assumes "agent_inv a b (s, ts)" "map_of (processes s) j = Some y"
  obtains n where "1 \<le> n" "n \<le> processCounter s" "j = FormatInt n"
proof -
  have "j \<in> dom (map_of (processes s))" using assms(2) by (rule domI)
  then show ?thesis using assms(1) that unfolding agent_inv_def by simp blast
qed

lemma agent_inv_range: "agent_inv a b (s, ts) \<Longrightarrow> map_of (processesByPort s) q = Some i \<Longrightarrow> q \<in> {a..b}"
  unfolding agent_inv_def prod.case by metis

lemma agent_inv_owner:
  "agent_inv a b (s, ts) \<Longrightarrow> map_of (processesByPort s) q = Some i \<longleftrightarrow>
     (\<exists>ph p. (i, True, ph) \<in> set ts \<and> map_of (processes s) i = Some p \<and> pPort p = q)"
  unfolding agent_inv_def prod.case by (elim conjE) (erule allE [of _ q], erule allE [of _ i], assumption)

lemma agent_inv_fields:
  assumes "agent_inv a b (s, ts)"
  shows "startPort s = a" "endPort s = b" "in_range s" "0 \<le> processCounter s" "distinct (map fst ts)" "fst ` set ts \<subseteq> dom (map_of (processes s))"
  using assms unfolding agent_inv_def by (simp_all only: prod.case)

lemma next_id_new:
  assumes "agent_inv a b (s, ts)"
  shows "map_of (processes s) (FormatInt (processCounter s + 1)) = None"
proof (rule ccontr)
  assume "map_of (processes s) (FormatInt (processCounter s + 1)) \<noteq> None"
  then obtain y where "map_of (processes s) (FormatInt (processCounter s + 1)) = Some y" by blast
  from agent_inv_ids [OF assms this] obtain n where "1 \<le> n" "n \<le> processCounter s" "FormatInt (processCounter s + 1) = FormatInt n" .
  then show False using FormatInt_inj [of "processCounter s + 1" n] by simp
qed

lemma agent_inv_port: "agent_inv a b (s, ts) \<Longrightarrow> in_range (s\<lparr>currentPort := c\<rparr>) \<Longrightarrow> agent_inv a b (s\<lparr>currentPort := c\<rparr>, ts)"
  by (simp add: agent_inv_def)

text \<open>A new process, with a port that is free or with none.\<close>

lemma agent_inv_new:
  assumes inv: "agent_inv a b (s, ts)" and q: "got \<Longrightarrow> q \<in> {a..b} \<and> map_of (processesByPort s) q = None" and p: "pPort p = q"
    and i: "i = FormatInt (processCounter s + 1)"
  shows "agent_inv a b (s\<lparr>processCounter := processCounter s + 1, processes := AList.update i p (processes s),
     processesByPort := (if got then AList.update q i (processesByPort s) else processesByPort s)\<rparr>, (i, got, Created) # ts)"
proof -
  define s' where "s' = s\<lparr>processCounter := processCounter s + 1, processes := AList.update i p (processes s),
     processesByPort := (if got then AList.update q i (processesByPort s) else processesByPort s)\<rparr>"
  have new: "map_of (processes s) i = None" unfolding i by (rule next_id_new [OF inv])
  then have nt: "i \<notin> fst ` set ts" using agent_inv_fields(6) [OF inv] by (auto simp: dom_def)
  have m: "map_of (processes s') = (map_of (processes s))(i \<mapsto> p)" by (simp add: s'_def update_conv')
  have b: "map_of (processesByPort s') = (if got then (map_of (processesByPort s))(q \<mapsto> i) else map_of (processesByPort s))"
    by (simp add: s'_def update_conv')
  have old: "map_of (processesByPort s) x = Some j \<longleftrightarrow> (\<exists>ph y. (j, True, ph) \<in> set ts \<and> map_of (processes s) j = Some y \<and> pPort y = x)" for x j
    by (rule agent_inv_owner [OF inv])
  have "map_of (processesByPort s') x = Some j \<longleftrightarrow>
      (\<exists>ph y. (j, True, ph) \<in> set ((i, got, Created) # ts) \<and> map_of (processes s') j = Some y \<and> pPort y = x)" for x j
  proof (cases "j = i")
    case True
    have "map_of (processesByPort s) x \<noteq> Some i" using old new by auto
    then show ?thesis using True nt q p by (auto simp: m b image_iff)
  next
    case False
    have "map_of (processesByPort s') x = Some j \<longleftrightarrow> map_of (processesByPort s) x = Some j" using q False by (auto simp: b)
    then show ?thesis using old [of x j] False by (simp add: m)
  qed
  moreover have "\<exists>n. 1 \<le> n \<and> n \<le> processCounter s' \<and> j = FormatInt n" if dj: "j \<in> dom (map_of (processes s'))" for j
  proof (cases "j = i")
    case True
    then show ?thesis using inv i by (intro exI [of _ "processCounter s + 1"]) (simp add: s'_def agent_inv_fields(4) [OF inv])
  next
    case False
    then obtain y where "map_of (processes s) j = Some y" using dj unfolding m dom_def by (auto split: if_splits)
    from agent_inv_ids [OF inv this] obtain n where "1 \<le> n" "n \<le> processCounter s" "j = FormatInt n" .
    then show ?thesis by (intro exI [of _ n]) (simp add: s'_def)
  qed
  moreover have "x \<in> {a..b}" if "map_of (processesByPort s') x = Some j" for x j
    using that q agent_inv_range [OF inv] by (auto simp: b split: if_splits)
  moreover have "startPort s' = a" "endPort s' = b" "in_range s'" "0 \<le> processCounter s'" "distinct (map fst ((i, got, Created) # ts))"
    "fst ` set ((i, got, Created) # ts) \<subseteq> dom (map_of (processes s'))"
    using agent_inv_fields [OF inv] nt by (simp_all add: s'_def in_range_def update_conv' subset_insertI2)
  ultimately show ?thesis unfolding s'_def [symmetric] agent_inv_def prod.case by blast
qed

lemma create_inv:
  assumes inv: "agent_inv a b (s, ts)" and c: "CreateProcess p s = (res, s')"
  shows "case res of Inl e \<Rightarrow> agent_inv a b (s', ts) | Inr (i, got) \<Rightarrow> agent_inv a b (s', (i, got, Created) # ts)"
proof (cases "SrcFile p = []")
  case True
  obtain r s1 where n: "nextPort s = (r, s1)" by (metis prod.exhaust)
  have ir: "in_range s" and ab: "startPort s = a" "endPort s = b" using agent_inv_fields [OF inv] by auto
  note np = nextPort_spec [OF ir n]
  then obtain k where s1: "s1 = s\<lparr>currentPort := k\<rparr>" by auto
  have i1: "agent_inv a b (s1, ts)" using agent_inv_port [OF inv] np unfolding s1 by simp
  show ?thesis
  proof (cases r)
    case (Inl e) then show ?thesis using c i1 True by (auto simp: CreateProcess_def n)
  next
    case (Inr q)
    have "q \<in> {a..b}" "map_of (processesByPort s1) q = None" using np Inr ab by (auto simp: s1)
    then show ?thesis
      using c True agent_inv_new [OF i1, of True q "p\<lparr>pId := FormatInt (processCounter s1 + 1), pResourceType := ''process'', pPort := q\<rparr>"]
      by (auto simp: CreateProcess_def n Inr Let_def)
  qed
next
  case False
  then show ?thesis
    using c agent_inv_new [OF inv, of False "pPort p" "p\<lparr>pId := FormatInt (processCounter s + 1), pResourceType := ''process''\<rparr>"]
    by (auto simp: CreateProcess_def Let_def)
qed

lemma release_inv:
  assumes inv: "agent_inv a b (s, as @ (i, got, Ended) # bs)"
  shows "agent_inv a b (if got then release_port i s else s, as @ bs)"
proof -
  note fs = agent_inv_fields [OF inv]
  obtain p where p: "map_of (processes s) i = Some p" using fs(6) by (auto simp: dom_def)
  have "i \<notin> fst ` set (as @ bs)" using fs(5) by (simp add: image_Un)
  then have d: "(i, x, y) \<notin> set (as @ bs)" for x y by force
  have old: "map_of (processesByPort s) x = Some j \<longleftrightarrow>
      (\<exists>ph y. (j, True, ph) \<in> set (as @ (i, got, Ended) # bs) \<and> map_of (processes s) j = Some y \<and> pPort y = x)" for x j
    using inv by (simp add: agent_inv_def)
  define s' where "s' = (if got then release_port i s else s)"
  have s': "startPort s' = startPort s" "endPort s' = endPort s" "in_range s' = in_range s" "processCounter s' = processCounter s" "processes s' = processes s"
    "map_of (processesByPort s') = (if got then (map_of (processesByPort s))(pPort p := None) else map_of (processesByPort s))"
    by (simp_all add: s'_def release_port_def p in_range_def delete_conv')
  have own: "map_of (processesByPort s) (pPort p) = Some i" if got using old that p by auto
  have "map_of (processesByPort s') x = Some j \<longleftrightarrow>
      (\<exists>ph y. (j, True, ph) \<in> set (as @ bs) \<and> map_of (processes s) j = Some y \<and> pPort y = x)" for x j
  proof (cases "j = i")
    case True
    have "map_of (processesByPort s') x \<noteq> Some i" using old [of x i] p d by (auto simp: s'(6))
    then show ?thesis using True d by auto
  next
    case False
    have "map_of (processesByPort s') x = Some j \<longleftrightarrow> map_of (processesByPort s) x = Some j" using own False by (auto simp: s'(6))
    then show ?thesis using old [of x j] False by auto
  qed
  moreover have "q \<in> {a..b}" if "map_of (processesByPort s') q = Some j" for q j
    using agent_inv_range [OF inv] that by (auto simp: s'(6) split: if_splits)
  moreover have "\<exists>n. 1 \<le> n \<and> n \<le> processCounter s \<and> j = FormatInt n" if "j \<in> dom (map_of (processes s))" for j
    using that agent_inv_ids [OF inv] by (metis domD)
  moreover have "distinct (map fst (as @ bs))" "fst ` set (as @ bs) \<subseteq> dom (map_of (processes s))" using fs(5,6) by auto
  ultimately show ?thesis using fs(1-4) unfolding s'_def [symmetric] agent_inv_def prod.case s'(1-5) by blast
qed

lemma agent_step_inv: "agent_step st st' \<Longrightarrow> agent_inv a b st \<Longrightarrow> agent_inv a b st'"
proof (induction rule: agent_step.induct)
  case (create p s pid got s' ts) then show ?case using create_inv [of a b s ts p "Inr (pid, got)" s'] by simp
next
  case (refuse p s e s' ts) then show ?case using create_inv [of a b s ts p "Inl e" s'] by simp
next
  case (mark s as pid got bs)
  then show ?case unfolding mark_running_def by (intro set_process_inv [OF agent_inv_tasks [of a b s as pid got Created bs]]) auto
next
  case (ends s as pid got bs os h)
  then show ?case unfolding process_ends_def by (intro set_process_inv [OF agent_inv_tasks [of a b s as pid got Running bs]]) (auto simp: launch_port)
next
  case (release s as pid got bs) then show ?case by (rule release_inv)
qed

lemma agent_reachable_inv: "agent_reachable a b st \<Longrightarrow> a \<le> b \<Longrightarrow> agent_inv a b st"
  by (induction rule: agent_reachable.induct) (auto intro: agent_inv_init agent_step_inv)

section \<open>Ports\<close>

text \<open>
  C16. In every state that any interleaving of requests and ends of processes leads to, two listeners that are
  under way have different ports, all in the agent's range, and a request for a listener is refused exactly when
  every port of the range belongs to a listener under way.
\<close>

theorem listeners_have_own_ports:
  assumes r: "agent_reachable a b (s, ts)" and ab: "a \<le> b"
  shows "(\<forall>i j x y. (i, True, x) \<in> set ts \<and> (j, True, y) \<in> set ts \<and> i \<noteq> j \<longrightarrow>
      (\<exists>p q. GetProcess i s = Some p \<and> GetProcess j s = Some q \<and> pPort p \<noteq> pPort q \<and> pPort p \<in> {a..b})) \<and>
    ((\<exists>e s'. nextPort s = (Inl e, s')) \<longleftrightarrow>
      (\<forall>q\<in>{a..b}. \<exists>i x p. (i, True, x) \<in> set ts \<and> GetProcess i s = Some p \<and> pPort p = q))"
proof (intro conjI allI impI)
  note inv = agent_reachable_inv [OF r ab]
  note fs = agent_inv_fields [OF inv] and own = agent_inv_owner [OF inv]
  fix i j x y
  assume a: "(i, True, x) \<in> set ts \<and> (j, True, y) \<in> set ts \<and> i \<noteq> j"
  then obtain p q where pq: "map_of (processes s) i = Some p" "map_of (processes s) j = Some q"
    using fs(6) by (metis (no_types, lifting) domD fst_conv image_eqI subsetD)
  then have "map_of (processesByPort s) (pPort p) = Some i" "map_of (processesByPort s) (pPort q) = Some j" using own a by blast+
  then show "\<exists>p q. GetProcess i s = Some p \<and> GetProcess j s = Some q \<and> pPort p \<noteq> pPort q \<and> pPort p \<in> {a..b}"
    using pq a agent_inv_range [OF inv] by (auto simp: GetProcess_def)
next
  note inv = agent_reachable_inv [OF r ab]
  note fs = agent_inv_fields [OF inv]
  obtain res s' where n: "nextPort s = (res, s')" by (metis prod.exhaust)
  have u: "map_of (processesByPort s) q \<noteq> None \<longleftrightarrow> (\<exists>i x p. (i, True, x) \<in> set ts \<and> GetProcess i s = Some p \<and> pPort p = q)" for q
    using agent_inv_owner [OF inv, of q] by (auto simp: GetProcess_def)
  show "(\<exists>e s'. nextPort s = (Inl e, s')) \<longleftrightarrow> (\<forall>q\<in>{a..b}. \<exists>i x p. (i, True, x) \<in> set ts \<and> GetProcess i s = Some p \<and> pPort p = q)"
    unfolding u [symmetric] using nextPort_spec [OF fs(3) n] fs(1,2) by (cases res) (auto simp: n)
qed

text \<open>Two listeners and a sender, all running, on an agent with three ports.\<close>

definition demo_agent :: agent_state where
  "demo_agent =
     (let p = \<lparr>pId = [], pResourceType = [], ProcessType = ''sync'', SrcFile = [], DestFile = ''f'', pHost = [], pPort = 0, ExitCode = 0, pOutput = []\<rparr>;
          s1 = snd (CreateProcess p (agent_NewServer 9700 9702));
          s2 = snd (CreateProcess p s1);
          s3 = snd (CreateProcess (p\<lparr>SrcFile := ''g'', pPort := 9700\<rparr>) s2)
      in (s3, [(''3'', False, Created), (''2'', True, Created), (''1'', True, Created)]))"

lemma reach_create:
  assumes "agent_reachable a b (s, ts)" "fst (CreateProcess p s) = Inr (i, got)"
  shows "agent_reachable a b (snd (CreateProcess p s), (i, got, Created) # ts)"
  by (rule agent_reachable.step [OF assms(1)], rule agent_step.create [of p]) (simp add: prod_eq_iff assms(2))

lemma demo_reachable: "agent_reachable 9700 9702 demo_agent"
  unfolding demo_agent_def Let_def by (intro reach_create agent_reachable.init) code_simp+

theorem listeners_have_own_ports_witness:
  "\<exists>p q. GetProcess ''2'' (fst demo_agent) = Some p \<and> GetProcess ''1'' (fst demo_agent) = Some q \<and> pPort p \<noteq> pPort q \<and> pPort p \<in> {9700..9702}"
proof -
  have t: "snd demo_agent = [(''3'', False, Created), (''2'', True, Created), (''1'', True, Created)]" by (simp add: demo_agent_def Let_def)
  have r: "agent_reachable 9700 9702 (fst demo_agent, snd demo_agent)" using demo_reachable by simp
  have le: "(9700::int) \<le> 9702" by simp
  have "(''2'', True, Created) \<in> set (snd demo_agent) \<and> (''1'', True, Created) \<in> set (snd demo_agent) \<and> ''2'' \<noteq> ''1''" by (simp add: t)
  with conjunct1 [OF listeners_have_own_ports [OF r le]] show ?thesis by blast
qed

end
