(* ===== verification/ClientProps.thy ===== *)
theory ClientProps
  imports ReplicaClient SyncAgentProps
begin

text \<open>
  A replica's client together with the sync agent it talks to.  While the client sleeps, the agent may take any
  steps.
\<close>

section \<open>The agent behind its routes\<close>

definition self_link :: "string \<Rightarrow> string \<Rightarrow> string" where
  "self_link base i = base @ ''/processes/'' @ i"

text \<open>\<open>NewRouter\<close> of \<open>sync/agent/router.go\<close>: the requests for processes; an error is answered with status 500.\<close>

definition agent_serve :: "string \<Rightarrow> string \<Rightarrow> string \<Rightarrow> body \<Rightarrow> agent_state \<Rightarrow> (int \<times> body) result \<times> agent_state" where
  "agent_serve base meth url b = (\<lambda>(s, ts).
     if meth = ''POST'' \<and> url = base @ ''/processes'' then
       (case b of
          JProcess _ p \<Rightarrow>
            (case CreateProcess p s of
               (Inl e, s1) \<Rightarrow> (Inr (500, JEmpty), s1, ts)
             | (Inr (i, got), s1) \<Rightarrow>
                 let s2 = mark_running i s1 in
                 (Inr (200, case GetProcess i s2 of None \<Rightarrow> JBad | Some q \<Rightarrow> JProcess (self_link base i) q), s2, (i, got, Running) # ts))
        | _ \<Rightarrow> (Inr (500, JEmpty), s, ts))
     else if meth = ''GET'' \<and> has_prefix (base @ ''/processes/'') url then
       (case GetProcess (drop (length (base @ ''/processes/'')) url) s of
          None \<Rightarrow> (Inr (404, JBad), s, ts)
        | Some q \<Rightarrow> (Inr (200, JProcess url q), s, ts))
     else (Inr (404, JBad), s, ts))"

definition agent_http :: "string \<Rightarrow> (int \<Rightarrow> agent_state \<Rightarrow> agent_state) \<Rightarrow> agent_state transport" where
  "agent_http base sl = \<lparr>httpDo = agent_serve base, sleepFor = sl\<rparr>"

section \<open>A process that never ends\<close>

text \<open>A process of a type that the agent does not know keeps the exit code \<open>-2\<close>, whatever happens.\<close>

definition stuck :: "string \<Rightarrow> agent_state \<Rightarrow> bool" where
  "stuck i = (\<lambda>(s, ts). \<exists>p. map_of (processes s) i = Some p \<and> ProcessType p = ''hardlink'' \<and> ExitCode p = -2)"

lemma stuck_set:
  assumes "stuck i (s, ts)"
    and f: "\<forall>p. ProcessType p = ''hardlink'' \<and> ExitCode p = -2 \<longrightarrow> ProcessType (f p) = ''hardlink'' \<and> ExitCode (f p) = -2"
  shows "stuck i (set_process j f s, ts')"
proof -
  obtain p where p: "map_of (processes s) i = Some p" "ProcessType p = ''hardlink''" "ExitCode p = -2" using assms(1) by (auto simp: stuck_def)
  show ?thesis
  proof (cases "j = i")
    case True then show ?thesis using p f by (simp add: stuck_def set_process_def update_conv')
  next
    case False then show ?thesis using p by (simp add: stuck_def set_process_def update_conv' split: option.splits)
  qed
qed

lemma launch_unknown: "ProcessType p = ''hardlink'' \<Longrightarrow> launch os h p = (Some (Err ''Unknown process type''), p)"
  by (simp add: launch_def command_of_def)

lemma processes_create:
  assumes "agent_inv a b (s, ts)" "CreateProcess p s = (res, s')" "map_of (processes s) i = Some q"
  shows "map_of (processes s') i = Some q"
proof -
  have ne: "i \<noteq> FormatInt (processCounter s + 1)" using next_id_new [OF assms(1)] assms(3) by auto
  have "in_range s" using agent_inv_fields [OF assms(1)] by simp
  then have n: "processes s1 = processes s \<and> processCounter s1 = processCounter s" if "nextPort s = (r, s1)" for r s1
    using nextPort_spec [OF _ that] by auto
  obtain r s1 where 1: "nextPort s = (r, s1)" by (metis prod.exhaust)
  show ?thesis using assms(2,3) ne n [OF 1]
    by (cases r) (auto simp: CreateProcess_def Let_def update_conv' 1 split: if_splits)
qed

lemma stuck_step: "agent_step st st' \<Longrightarrow> agent_inv a b st \<Longrightarrow> stuck i st \<Longrightarrow> stuck i st'"
proof (induction rule: agent_step.induct)
  case (create p s pid got s' ts) then show ?case using processes_create [OF create(2,1)] by (auto simp: stuck_def)
next
  case (refuse p s e s' ts) then show ?case using processes_create [OF refuse(2,1)] by (auto simp: stuck_def)
next
  case (mark s as pid got bs) then show ?case unfolding mark_running_def by (intro stuck_set) auto
next
  case (ends s as pid got bs os h) then show ?case unfolding process_ends_def by (intro stuck_set) (auto simp: launch_unknown)
next
  case (release s as pid got bs) then show ?case by (auto simp: stuck_def release_port_def split: option.splits)
qed

lemma steps_keep:
  "agent_step\<^sup>*\<^sup>* st st' \<Longrightarrow> agent_inv a b st \<Longrightarrow> stuck i st \<Longrightarrow> agent_inv a b st' \<and> stuck i st'"
  by (induction rule: rtranclp_induct) (auto intro: stuck_step agent_step_inv)

lemma get_stuck:
  assumes "stuck i st" "has_prefix ''http'' base"
  obtains p where "get_process (agent_http base sl) c (self_link base i) st = (Inr (self_link base i, p), st)" "ExitCode p = -2"
proof -
  obtain s ts p where st: "st = (s, ts)" "map_of (processes s) i = Some p" "ExitCode p = -2" using assms(1) by (auto simp: stuck_def)
  have u: "has_prefix (base @ ''/processes/'') (self_link base i)" "drop (length (base @ ''/processes/'')) (self_link base i) = i"
    "has_prefix ''http'' (self_link base i)"
    using has_prefix_longer [OF assms(2)] has_prefix_append [of "base @ ''/processes/''" i] by (simp_all add: self_link_def)
  have "get_process (agent_http base sl) c (self_link base i) st = (Inr (self_link base i, p), st)"
    unfolding get_process_def rc_get_def agent_http_def agent_serve_def st(1) call_defs
    using st(2) u by (simp add: GetProcess_def dec_process_def)
  then show ?thesis using st(3) that by blast
qed

lemma wait_stuck:
  assumes "agent_inv a b st" "stuck i st" "has_prefix ''http'' base" and sl: "\<And>d st. agent_step\<^sup>*\<^sup>* st (sl d st)"
  shows "fst (wait_exit n (agent_http base sl) c (self_link base i) d st) = Inl Diverge"
  using assms(1,2)
proof (induction n arbitrary: d st)
  case 0 then show ?case by (simp add: failC_def)
next
  case (Suc n)
  obtain p where g: "get_process (agent_http base sl) c (self_link base i) st = (Inr (self_link base i, p), st)" "ExitCode p = -2"
    by (rule get_stuck [OF Suc.prems(2) assms(3)])
  have "agent_inv a b (sl d st)" "stuck i (sl d st)" using steps_keep [OF sl Suc.prems] by auto
  from Suc.IH [OF this] have "fst (wait_exit n (agent_http base sl) c (self_link base i) (RetrySleep d) (sleepFor (agent_http base sl) d st)) = Inl Diverge"
    by (simp add: agent_http_def)
  then show ?case by (simp add: bindC_def g sleepC_def)
qed

lemma start_stuck:
  assumes inv: "agent_inv a b st" and base: "has_prefix ''http'' (rcSyncAgent c)" and src: "SrcFile p \<noteq> []" and ty: "ProcessType p = ''hardlink''"
  obtains i st' q where "start_process (agent_http (rcSyncAgent c) sl) c p st = (Inr (self_link (rcSyncAgent c) i, q), st')"
    "agent_inv a b st'" "stuck i st'"
proof -
  obtain s ts where st: "st = (s, ts)" by (cases st)
  obtain s1 where c1: "CreateProcess p s = (Inr (FormatInt (processCounter s + 1), False), s1)"
    and m: "map_of (processes s1) (FormatInt (processCounter s + 1)) = Some (p\<lparr>pId := FormatInt (processCounter s + 1), pResourceType := ''process''\<rparr>)"
    using src by (auto simp: CreateProcess_def Let_def update_conv')
  define i where "i = FormatInt (processCounter s + 1)"
  define q where "q = p\<lparr>pId := i, pResourceType := ''process'', ExitCode := -2\<rparr>"
  define s2 where "s2 = mark_running i s1"
  have i1: "agent_inv a b (s1, (i, False, Created) # ts)" using create_inv [OF inv [unfolded st] c1] by (simp add: i_def)
  have "agent_inv a b (s2, (i, False, Running) # ts)"
    using agent_step_inv [OF agent_step.mark [of s1 "[]" i False ts], of a b] i1 by (simp add: s2_def)
  moreover have q: "map_of (processes s2) i = Some q" using m by (simp add: s2_def mark_running_def set_process_def i_def update_conv' q_def)
  moreover have "start_process (agent_http (rcSyncAgent c) sl) c p st = (Inr (self_link (rcSyncAgent c) i, q), s2, (i, False, Running) # ts)"
    using has_prefix_longer [OF base] c1 [folded i_def] q
    unfolding start_process_def rc_post_def call_defs agent_http_def agent_serve_def st
    by (simp add: GetProcess_def dec_process_def s2_def [symmetric] Let_def)
  ultimately show ?thesis using that [of i q "(s2, (i, False, Running) # ts)"] ty by (simp add: stuck_def q_def)
qed

text \<open>
  C21. A client that asks for a hard link never gets an answer.  The agent knows no process of the type
  \<open>hardlink\<close>, reports the error only in its log and leaves the exit code at \<open>-2\<close>, for which the client goes on
  asking, whatever the agent does meanwhile and however often the client asks.
\<close>

theorem hardlink_never_returns:
  assumes "agent_reachable a b st" "a \<le> b" and "has_prefix ''http'' (rcSyncAgent c)" "from \<noteq> []"
    and sl: "\<And>d st. agent_step\<^sup>*\<^sup>* st (sl d st)"
  shows "fst (rc_HardLink n (agent_http (rcSyncAgent c) sl) c from to st) = Inl Diverge"
proof -
  let ?p = "process0\<lparr>ProcessType := ''hardlink'', SrcFile := from, DestFile := to\<rparr>"
  have inv: "agent_inv a b st" by (rule agent_reachable_inv [OF assms(1,2)])
  obtain i st' q where s: "start_process (agent_http (rcSyncAgent c) sl) c ?p st = (Inr (self_link (rcSyncAgent c) i, q), st')"
    and k: "agent_inv a b st'" "stuck i st'"
    by (rule start_stuck [OF inv assms(3), of ?p sl]) (simp_all add: assms(4))
  obtain x w where w: "wait_exit n (agent_http (rcSyncAgent c) sl) c (self_link (rcSyncAgent c) i) defaultSleepTime st' = (x, w)" by (metis prod.exhaust)
  have "x = Inl Diverge" using wait_stuck [OF k assms(3), where sl = sl and n = n and c = c and d = defaultSleepTime] sl w by simp
  then show ?thesis by (simp add: rc_HardLink_def fileOperation_def run_process_def bindC_def s w)
qed

definition demo_client :: replicaClient where
  "demo_client = \<lparr>rcAddress = ''http://a:9502/v1'', rcSyncAgent = ''http://a:9504/v1'', rcHost = ''a''\<rparr>"

theorem hardlink_never_returns_witness:
  "fst (rc_HardLink 1000 (agent_http (rcSyncAgent demo_client) (\<lambda>_ st. st)) demo_client ''f'' ''g'' demo_agent) = Inl Diverge"
proof -
  have "has_prefix ''http'' (rcSyncAgent demo_client)" by (simp add: demo_client_def has_prefix_def)
  from hardlink_never_returns [OF demo_reachable _ this, where sl = "\<lambda>_ st. st"] show ?thesis by simp
qed

end
