(* ===== verification/ControllerRest.thy ===== *)
theory ControllerRest
  imports ControllerRebuild ReplicaRest ReplicaClient
begin

text \<open>
  \<open>controller/rest\<close>: the HTTP interface of the controller.  Resources are named by identifiers that encode their
  names; the handlers take the controller's lock themselves or call operations that take it, so the lock is part
  of the state.  Routing and the writing of answers are the libraries'; an answer is a status and a body, and an
  error of a handler is written as an answer by \<open>HandleError\<close>.
\<close>

section \<open>Identifiers\<close>

text \<open>\<open>base64.StdEncoding\<close>.\<close>

definition b64_alphabet :: string where
  "b64_alphabet = ''ABCDEFGHIJKLMNOPQRSTUVWXYZabcdefghijklmnopqrstuvwxyz0123456789+/''"

definition b64_char :: "nat \<Rightarrow> char" where
  "b64_char n = b64_alphabet ! n"

definition b64_val :: "char \<Rightarrow> nat option" where
  "b64_val c = map_of (zip b64_alphabet [0..<64]) c"

fun EncodeID :: "string \<Rightarrow> string" where
  "EncodeID [] = []"
| "EncodeID [a] = (let x = of_char a :: nat in [b64_char (x div 4), b64_char (x mod 4 * 16), CHR ''='', CHR ''=''])"
| "EncodeID [a, b] =
     (let x = of_char a :: nat; y = of_char b :: nat
      in [b64_char (x div 4), b64_char (x mod 4 * 16 + y div 16), b64_char (y mod 16 * 4), CHR ''=''])"
| "EncodeID (a # b # c # s) =
     (let x = of_char a :: nat; y = of_char b :: nat; z = of_char c :: nat
      in [b64_char (x div 4), b64_char (x mod 4 * 16 + y div 16), b64_char (y mod 16 * 4 + z div 64), b64_char (z mod 64)] @ EncodeID s)"

text \<open>The decoder skips line ends and takes padding only at the end; spare bits of the last digit are dropped.\<close>

fun decode_quads :: "string \<Rightarrow> string result" where
  "decode_quads [] = Inr []"
| "decode_quads (a # b # c # d # s) =
     (if c = CHR ''='' \<and> d = CHR ''='' \<and> s = [] then
        (case (b64_val a, b64_val b) of
           (Some i, Some j) \<Rightarrow> Inr [char_of (i * 4 + j div 16)]
         | _ \<Rightarrow> Inl (Err ''illegal base64 data''))
      else if d = CHR ''='' \<and> s = [] then
        (case (b64_val a, b64_val b, b64_val c) of
           (Some i, Some j, Some k) \<Rightarrow> Inr [char_of (i * 4 + j div 16), char_of (j mod 16 * 16 + k div 4)]
         | _ \<Rightarrow> Inl (Err ''illegal base64 data''))
      else
        (case (b64_val a, b64_val b, b64_val c, b64_val d) of
           (Some i, Some j, Some k, Some l) \<Rightarrow>
             (case decode_quads s of
                Inl e \<Rightarrow> Inl e
              | Inr t \<Rightarrow> Inr (char_of (i * 4 + j div 16) # char_of (j mod 16 * 16 + k div 4) # char_of (k mod 4 * 64 + l) # t))
         | _ \<Rightarrow> Inl (Err ''illegal base64 data'')))"
| "decode_quads _ = Inl (Err ''illegal base64 data'')"

definition DencodeID :: "string \<Rightarrow> string result" where
  "DencodeID s = decode_quads (filter (\<lambda>c. c \<noteq> CHR 0x0A \<and> c \<noteq> CHR 0x0D) s)"

section \<open>The state of a handler\<close>

text \<open>
  Whether the lock is held, the controller and the world.  Taking a lock that the handler itself holds never
  returns; releasing a lock that is not held ends the process.
\<close>

record stats =
  stIsClientConnected :: bool
  stRevisionCounter :: int
  stSCSIIOCount :: "(int \<times> int) list"
  stReadIOPS :: int
  stTotalReadTime :: int
  stTotalReadBlockCount :: int
  stWriteIOPS :: int
  stTotalWriteTime :: int
  stTotalWriteBlockCount :: int
  stUsedLogicalBlocks :: int
  stUsedBlocks :: int
  stSectorSize :: int

text \<open>
  What the handlers take from elsewhere: the controller's environment, the transport to the replicas, the links
  that the API library builds, the numbers that the frontend keeps, the journal of a library, \<open>os.Setenv\<close>, the
  time since the start, and the router's answer to a path that it has no handler for.
\<close>

record ('w, 'b) rest_env =
  heE :: "('w, 'b) env"
  heT :: "'w transport"
  heActionLink :: "string \<Rightarrow> string \<Rightarrow> string \<Rightarrow> string"
  heSelfLink :: "string \<Rightarrow> string \<Rightarrow> string"
  heFrontendStats :: "'w \<Rightarrow> stats"
  heJournal :: "int \<Rightarrow> 'w \<Rightarrow> 'w"
  heSetenv :: "string \<Rightarrow> string \<Rightarrow> 'w \<Rightarrow> unit result \<times> 'w"
  heUpTime :: "'w \<Rightarrow> string"
  heUnrouted :: "string \<Rightarrow> int \<times> body"
  heFuel :: nat

type_synonym ('w, 'b) hstate = "bool \<times> 'b controller \<times> 'w"
type_synonym ('w, 'b, 'a) hop = "('w, 'b) hstate \<Rightarrow> 'a result \<times> ('w, 'b) hstate"
type_synonym http_answer = "int \<times> body"

definition lockH :: "('w, 'b, unit) hop" where
  "lockH = (\<lambda>(l, c, w). if l then (Inl Diverge, l, c, w) else (Inr (), True, c, w))"

definition unlockH :: "('w, 'b, unit) hop" where
  "unlockH = (\<lambda>(l, c, w). if l then (Inr (), False, c, w) else (Inl (Fatal ''sync: Unlock of unlocked RWMutex''), l, c, w))"

text \<open>\<open>defer\<close>: not run when the process has ended or the body does not return.\<close>

definition deferH :: "('w, 'b, 'a) hop \<Rightarrow> ('w, 'b, unit) hop \<Rightarrow> ('w, 'b, 'a) hop" where
  "deferH m d = (\<lambda>st. case m st of
      (Inl (Fatal x), st1) \<Rightarrow> (Inl (Fatal x), st1)
    | (Inl Diverge, st1) \<Rightarrow> (Inl Diverge, st1)
    | (x, st1) \<Rightarrow> (case d st1 of (Inl e, st2) \<Rightarrow> (Inl e, st2) | (Inr _, st2) \<Rightarrow> (x, st2)))"

definition lockedH :: "('w, 'b, 'a) hop \<Rightarrow> ('w, 'b, 'a) hop" where
  "lockedH m = bindC lockH (\<lambda>_. deferH m unlockH)"

definition ctlH :: "('b controller \<Rightarrow> 'w \<Rightarrow> error option \<times> 'b controller \<times> 'w) \<Rightarrow> ('w, 'b, unit) hop" where
  "ctlH f = (\<lambda>(l, c, w). case f c w of (None, c', w') \<Rightarrow> (Inr (), l, c', w') | (Some e, c', w') \<Rightarrow> (Inl e, l, c', w'))"

definition worldH :: "('w, 'a) call \<Rightarrow> ('w, 'b, 'a) hop" where
  "worldH m = (\<lambda>(l, c, w). case m w of (x, w') \<Rightarrow> (x, l, c, w'))"

definition getsH :: "('b controller \<Rightarrow> 'a) \<Rightarrow> ('w, 'b, 'a) hop" where
  "getsH f = (\<lambda>(l, c, w). (Inr (f c), l, c, w))"

definition notFound :: http_answer where
  "notFound = (404, JNull)"

text \<open>\<open>RLock\<close> around a read of the controller.\<close>

definition rlockedH :: "('b controller \<Rightarrow> 'a) \<Rightarrow> ('w, 'b, 'a) hop" where
  "rlockedH f = (\<lambda>(l, c, w). if l then (Inl Diverge, l, c, w) else (Inr (f c), l, c, w))"

text \<open>\<open>RLock\<close> around something that only reads the controller and does not take the lock itself.\<close>

definition rsectionH :: "('b controller \<Rightarrow> ('w, 'a) call) \<Rightarrow> ('w, 'b, 'a) hop" where
  "rsectionH m = (\<lambda>(l, c, w). if l then (Inl Diverge, l, c, w) else case m c w of (x, w') \<Rightarrow> (x, l, c, w'))"

text \<open>Something that reads the controller without a lock.\<close>

definition readsH :: "('b controller \<Rightarrow> ('w, 'a) call) \<Rightarrow> ('w, 'b, 'a) hop" where
  "readsH m = (\<lambda>(l, c, w). case m c w of (x, w') \<Rightarrow> (x, l, c, w'))"

lemmas hop_defs = rsectionH_def readsH_def lockH_def unlockH_def deferH_def lockedH_def ctlH_def worldH_def getsH_def rlockedH_def call_defs

section \<open>Resources\<close>

definition NewVolume :: "('w, 'b) rest_env \<Rightarrow> string \<Rightarrow> bool \<Rightarrow> int \<Rightarrow> ctlVolume" where
  "NewVolume R name readOnly' n =
     (let vid = EncodeID name; link = (\<lambda>a. (a, heActionLink R ''volume'' vid a)) in
      \<lparr>cvId = vid,
       cvActions = (if n = 0 then [link ''start'']
                    else map link [''shutdown'', ''snapshot'', ''revert'', ''deleteSnapshot'', ''resize'', ''setlogging'']),
       cvName = name, cvReplicaCount = n, cvReadOnly = (if readOnly' then ''true'' else ''false'')\<rparr>)"

definition ctl_NewReplica :: "('w, 'b) rest_env \<Rightarrow> replicaEntry \<Rightarrow> ctlReplica" where
  "ctl_NewReplica R rep =
     (let rid = EncodeID (Address rep) in
      \<lparr>crId = rid, crActions = map (\<lambda>a. (a, heActionLink R ''replica'' rid a)) [''preparerebuild'', ''verifyrebuild''],
       crSelf = heSelfLink R ''replica'' rid, crAddress = Address rep, crMode = mode_string (Mode rep)\<rparr>)"

definition listVolumes :: "('w, 'b) rest_env \<Rightarrow> 'b controller \<Rightarrow> ctlVolume list" where
  "listVolumes R c = [NewVolume R (cName c) (ReadOnly c) (int (length (replicas c)))]"

definition getVolume :: "('w, 'b) rest_env \<Rightarrow> string \<Rightarrow> 'b controller \<Rightarrow> ctlVolume option" where
  "getVolume R vid c = List.find (\<lambda>v. cvId v = vid) (listVolumes R c)"

section \<open>Volumes\<close>

definition h_ListVolumes :: "('w, 'b) rest_env \<Rightarrow> ('w, 'b, http_answer) hop" where
  "h_ListVolumes R = bindC (getsH (listVolumes R)) (\<lambda>vs. retC (200, JVolumes [hd vs]))"

definition h_GetVolume :: "('w, 'b) rest_env \<Rightarrow> string \<Rightarrow> ('w, 'b, http_answer) hop" where
  "h_GetVolume R vid =
     bindC (getsH (getVolume R vid)) (\<lambda>v. retC (case v of None \<Rightarrow> notFound | Some v \<Rightarrow> (200, JVolume v)))"

definition with_volume :: "('w, 'b) rest_env \<Rightarrow> string \<Rightarrow> ('w, 'b, http_answer) hop \<Rightarrow> ('w, 'b, http_answer) hop" where
  "with_volume R vid m = bindC (getsH (getVolume R vid)) (\<lambda>v. case v of None \<Rightarrow> retC notFound | Some _ \<Rightarrow> m)"

definition h_GetCheckpoint :: "('w, 'b, http_answer) hop" where
  "h_GetCheckpoint = bindC (rlockedH Checkpoint) (\<lambda>s. retC (200, JCheckpoint s))"

text \<open>Inputs are read from the body of the request; a body that does not decode is an error.\<close>

definition dec_name :: "body \<Rightarrow> string result" where
  "dec_name b = (case b of JBad \<Rightarrow> Inl EOF | JName s \<Rightarrow> Inr s | _ \<Rightarrow> Inr [])"

definition dec_logging :: "body \<Rightarrow> logToFile result" where
  "dec_logging b = (case b of JBad \<Rightarrow> Inl EOF | JLogging lf \<Rightarrow> Inr lf
     | _ \<Rightarrow> Inr \<lparr>lfEnable = False, lfMaxLogFileSize = 0, lfRetentionPeriod = 0, lfMaxBackups = 0\<rparr>)"

definition dec_resize :: "body \<Rightarrow> (string \<times> string) result" where
  "dec_resize b = (case b of JBad \<Rightarrow> Inl EOF | JResize n s \<Rightarrow> Inr (n, s) | _ \<Rightarrow> Inr ([], []))"

definition dec_start :: "body \<Rightarrow> string list result" where
  "dec_start b = (case b of JBad \<Rightarrow> Inl EOF | JStart rs \<Rightarrow> Inr rs | _ \<Rightarrow> Inr [])"

text \<open>\<open>Shutdown\<close> takes the lock twice: for reading, for the frontend, and for writing, for the backend; their errors are only logged.\<close>

definition shutdownH :: "('w, 'b) env \<Rightarrow> ('w, 'b, unit) hop" where
  "shutdownH E =
     bindC (rsectionH (\<lambda>c w. (Inr (), snd (shutdownFrontend E w)))) (\<lambda>_.
     lockedH (ctlH (\<lambda>c w. (None, snd (shutdownBackend E c w)))))"

definition h_ShutdownVolume :: "('w, 'b) rest_env \<Rightarrow> string \<Rightarrow> ('w, 'b, http_answer) hop" where
  "h_ShutdownVolume R vid = with_volume R vid (bindC (shutdownH (heE R)) (\<lambda>_. h_GetVolume R vid))"

text \<open>\<open>Revert\<close> looks at the replicas without the lock, shuts the frontend down with the lock for reading, and then takes it for writing.\<close>

definition revertH :: "('w, 'b) env \<Rightarrow> string \<Rightarrow> ('w, 'b, unit) hop" where
  "revertH E name =
     bindC (getsH revert_doable) (\<lambda>doable.
     if \<not> doable then failC (Err ''Not valid state to revert'')
     else bindC (readsH (clientsAndSnapshot E name)) (\<lambda>(clients, name').
          bindC (rsectionH (\<lambda>c w. case shutdownFrontend E w of (None, w') \<Rightarrow> (Inr (), w') | (Some e, w') \<Rightarrow> (Inl e, w'))) (\<lambda>_.
          lockedH (ctlH (revert_locked E clients name')))))"

definition h_RevertVolume :: "('w, 'b) rest_env \<Rightarrow> string \<Rightarrow> body \<Rightarrow> ('w, 'b, http_answer) hop" where
  "h_RevertVolume R vid b =
     with_volume R vid (bindC (pureC (dec_name b)) (\<lambda>name. bindC (revertH (heE R) name) (\<lambda>_. h_GetVolume R vid)))"

text \<open>
  \<open>appendError\<close> appends to its own copy of the slice and \<open>PostSetLoggingRequest\<close> has a copy itself: the list
  of errors that \<open>SetLogging\<close> looks at is the one it started with.
\<close>

definition appendError :: "error list \<Rightarrow> error \<Rightarrow> unit" where
  "appendError errList e = (let errList = errList @ [e] in ())"

fun PostSetLoggingRequest :: "'w transport \<Rightarrow> replicaEntry list \<Rightarrow> logToFile \<Rightarrow> error list \<Rightarrow> ('w, unit) call" where
  "PostSetLoggingRequest T [] lf errList = retC ()"
| "PostSetLoggingRequest T (r # rs) lf errList =
     bindC (case NewReplicaClient (Address r) of
              Inl e \<Rightarrow> retC (appendError errList e)
            | Inr cl \<Rightarrow>
                bindC (attemptC (rc_SetLogging T cl lf)) (\<lambda>res.
                  retC (case res of Inl e \<Rightarrow> appendError errList e | Inr _ \<Rightarrow> ())))
       (\<lambda>_. PostSetLoggingRequest T rs lf errList)"

definition h_SetLogging :: "('w, 'b) rest_env \<Rightarrow> string \<Rightarrow> body \<Rightarrow> ('w, 'b, http_answer) hop" where
  "h_SetLogging R vid b =
     with_volume R vid
       (bindC (pureC (dec_logging b)) (\<lambda>lf.
        bindC (rlockedH (\<lambda>c. (replicas c, ReplicationFactor c))) (\<lambda>(reps, factor).
        if int (length reps) \<noteq> factor then failC (Err ''Can't set logging'')
        else let errList = [] in
             bindC (worldH (PostSetLoggingRequest (heT R) reps lf errList)) (\<lambda>_.
             if errList \<noteq> [] then failC (Err ''Fail to post set logging request'') else h_GetVolume R vid))))"

definition h_ResizeVolume :: "('w, 'b) rest_env \<Rightarrow> string \<Rightarrow> body \<Rightarrow> ('w, 'b, http_answer) hop" where
  "h_ResizeVolume R vid b =
     with_volume R vid
       (bindC (pureC (dec_resize b)) (\<lambda>(name, sz). bindC (lockedH (ctlH (c_Resize (heE R) name sz))) (\<lambda>_. h_GetVolume R vid)))"

definition snapshotH :: "('w, 'b) env \<Rightarrow> string \<Rightarrow> ('w, 'b, string) hop" where
  "snapshotH E name = (\<lambda>(l, c, w). case c_Snapshot E name c w of
      ((n, None), c', w') \<Rightarrow> (Inr n, l, c', w')
    | ((n, Some e), c', w') \<Rightarrow> (Inl e, l, c', w'))"

definition h_SnapshotVolume :: "('w, 'b) rest_env \<Rightarrow> string \<Rightarrow> body \<Rightarrow> ('w, 'b, http_answer) hop" where
  "h_SnapshotVolume R vid b =
     with_volume R vid
       (bindC (pureC (dec_name b)) (\<lambda>name. bindC (lockedH (snapshotH (heE R) name)) (\<lambda>n.
          retC (200, JSnapshotOutput n (''Snapshot: '' @ n @ '' created successfully'')))))"

definition startH :: "('w, 'b) env \<Rightarrow> nat \<Rightarrow> string list \<Rightarrow> ('w, 'b, unit) hop" where
  "startH E fuel addresses = (\<lambda>(l, c, w). case Start E fuel addresses c w of
      None \<Rightarrow> (Inl Diverge, l, c, w)
    | Some (None, c', w') \<Rightarrow> (Inr (), l, c', w')
    | Some (Some e, c', w') \<Rightarrow> (Inl e, l, c', w'))"

definition h_StartVolume :: "('w, 'b) rest_env \<Rightarrow> string \<Rightarrow> body \<Rightarrow> ('w, 'b, http_answer) hop" where
  "h_StartVolume R vid b =
     with_volume R vid
       (bindC (pureC (dec_start b)) (\<lambda>rs. bindC (lockedH (startH (heE R) (heFuel R) rs)) (\<lambda>_. h_GetVolume R vid)))"

text \<open>The lock is held from the beginning; a body that does not decode releases it before the deferred release.\<close>

definition h_DeleteSnapshot :: "('w, 'b) rest_env \<Rightarrow> body \<Rightarrow> ('w, 'b, http_answer) hop" where
  "h_DeleteSnapshot R b =
     lockedH (case dec_name b of
       Inl e \<Rightarrow> bindC unlockH (\<lambda>_. failC e)
     | Inr name \<Rightarrow>
         bindC (getsH (\<lambda>c. c)) (\<lambda>c.
         if rw_count (replicas c) \<noteq> ReplicationFactor c then failC (Err ''Can't delete snapshot, rwReplicaCount'')
         else if Checkpoint c = [] then failC (Err ''Can't delete snapshot, checkpoint not set at controller'')
         else if contains_str (Checkpoint c) name then failC (Err ''Can't delete snapshot, snapshotName same as checkpoint'')
         else bindC (worldH (\<lambda>w. case DeleteSnapshot (heE R) name (replicas c) w of (None, w') \<Rightarrow> (Inr (), w') | (Some e, w') \<Rightarrow> (Inl e, w')))
                (\<lambda>_. retC (200, JSnapshotOutput name (''Snapshot: '' @ name @ '' deleted successfully'')))))"

section \<open>Replicas\<close>

text \<open>
  \<open>ListReplicas\<close> of the controller takes no lock, \<open>ListQuorumReplicas\<close> takes it.
\<close>

definition ListQuorumReplicas :: "('w, 'b, replicaEntry list) hop" where
  "ListQuorumReplicas = lockedH (getsH quorumReplicas)"

definition h_ListReplicas :: "('w, 'b) rest_env \<Rightarrow> ('w, 'b, http_answer) hop" where
  "h_ListReplicas R =
     bindC lockH (\<lambda>_. bindC (getsH replicas) (\<lambda>rs. bindC unlockH (\<lambda>_. retC (200, JReplicas (map (ctl_NewReplica R) rs)))))"

definition getReplica :: "('w, 'b) rest_env \<Rightarrow> string \<Rightarrow> ('w, 'b, ctlReplica option) hop" where
  "getReplica R rid =
     lockedH (bindC (getsH replicas) (\<lambda>rs. retC (map_option (ctl_NewReplica R) (List.find (\<lambda>r. Address r = rid) rs))))"

definition getQuorumReplica :: "('w, 'b) rest_env \<Rightarrow> string \<Rightarrow> ('w, 'b, ctlReplica option) hop" where
  "getQuorumReplica R rid =
     lockedH (bindC ListQuorumReplicas (\<lambda>rs. retC (map_option (ctl_NewReplica R) (List.find (\<lambda>r. Address r = rid) rs))))"

text \<open>An identifier that does not decode is answered with 404.\<close>

definition with_id :: "string \<Rightarrow> (string \<Rightarrow> ('w, 'b, http_answer) hop) \<Rightarrow> ('w, 'b, http_answer) hop" where
  "with_id v f = (case DencodeID v of Inl e \<Rightarrow> retC notFound | Inr rid \<Rightarrow> f rid)"

definition h_GetReplica :: "('w, 'b) rest_env \<Rightarrow> string \<Rightarrow> ('w, 'b, http_answer) hop" where
  "h_GetReplica R v =
     with_id v (\<lambda>rid. bindC (getReplica R rid) (\<lambda>r. retC (case r of None \<Rightarrow> notFound | Some r \<Rightarrow> (200, JCtlReplica r))))"

definition dec_registration :: "body \<Rightarrow> registration result" where
  "dec_registration b = (case b of JBad \<Rightarrow> Inl EOF | JRegister r \<Rightarrow> Inr r
     | _ \<Rightarrow> Inr \<lparr>rgAddress = [], rgUUID = [], rgRevCount = [], rgRepType = [], rgUpTime = 0, rgRepState = []\<rparr>)"

text \<open>The status 200 is written before the registration: an error of it no longer changes the status.\<close>

definition h_RegisterReplica :: "('w, 'b) rest_env \<Rightarrow> body \<Rightarrow> ('w, 'b, http_answer) hop" where
  "h_RegisterReplica R b =
     bindC (pureC (dec_registration b)) (\<lambda>g.
     bindC (lockedH (ctlH (registerReplica (heE R)
              \<lparr>rrAddress = rgAddress g, rrUUID = rgUUID g, rrUpTime = rgUpTime g, RevCount = ParseInt_value (rgRevCount g),
               RepType = rgRepType g, RepState = rgRepState g\<rparr>))) (\<lambda>_. retC (200, JNull)))"

text \<open>
  \<open>addReplica\<close> and \<open>addQuorumReplica\<close> take the lock for their checks and release it by hand on every way out of
  them, connect to the new backend without it, and take it again.  A panic in the checks leaves it held.
\<close>

definition addReplicaH :: "('w, 'b) env \<Rightarrow> string \<Rightarrow> bool \<Rightarrow> ('w, 'b, unit) hop" where
  "addReplicaH E address snapshot =
     bindC lockH (\<lambda>_.
     bindC (attemptC (ctlH (canAdd E address))) (\<lambda>res. case res of
       Inl e \<Rightarrow> bindC unlockH (\<lambda>_. failC e)
     | Inr _ \<Rightarrow>
         bindC (getsH (verifyReplicationFactor E)) (\<lambda>err. case err of
           Some e \<Rightarrow> bindC unlockH (\<lambda>_. failC (Err ''can't add''))
         | None \<Rightarrow>
             bindC unlockH (\<lambda>_.
             bindC (worldH (fCreate (eF E) address)) (\<lambda>newBackend.
             lockedH (ctlH (addReplica_commit E newBackend address snapshot)))))))"

definition addQuorumReplicaH :: "('w, 'b) env \<Rightarrow> string \<Rightarrow> bool \<Rightarrow> ('w, 'b, unit) hop" where
  "addQuorumReplicaH E address snapshot =
     bindC lockH (\<lambda>_.
     bindC (attemptC (ctlH (canAdd E address))) (\<lambda>res. case res of
       Inl e \<Rightarrow> bindC unlockH (\<lambda>_. failC e)
     | Inr _ \<Rightarrow>
         bindC unlockH (\<lambda>_.
         bindC (worldH (fCreate (eF E) address)) (\<lambda>newBackend.
         lockedH (ctlH (addQuorumReplica_commit E newBackend address snapshot))))))"

definition h_CreateReplica :: "('w, 'b) rest_env \<Rightarrow> body \<Rightarrow> ('w, 'b, http_answer) hop" where
  "h_CreateReplica R b =
     bindC (pureC (dec_ctlReplica b)) (\<lambda>rep.
     bindC (addReplicaH (heE R) (crAddress rep) True) (\<lambda>_.
     bindC (getReplica R (crAddress rep)) (\<lambda>r.
       case r of None \<Rightarrow> failC (Err ''createReplica failed while getting it'') | Some r \<Rightarrow> retC (200, JCtlReplica r))))"

definition h_CreateQuorumReplica :: "('w, 'b) rest_env \<Rightarrow> body \<Rightarrow> ('w, 'b, http_answer) hop" where
  "h_CreateQuorumReplica R b =
     bindC (pureC (dec_ctlReplica b)) (\<lambda>rep.
     bindC (addQuorumReplicaH (heE R) (crAddress rep) False) (\<lambda>_.
     bindC (getQuorumReplica R (crAddress rep)) (\<lambda>r.
       case r of None \<Rightarrow> failC (Err ''createQuorumReplica failed while getting it'') | Some r \<Rightarrow> retC (200, JCtlReplica r))))"

definition h_DeleteReplica :: "('w, 'b) rest_env \<Rightarrow> string \<Rightarrow> ('w, 'b, http_answer) hop" where
  "h_DeleteReplica R v =
     with_id v (\<lambda>rid. bindC (lockedH (ctlH (RemoveReplicaNoLock (heE R) rid))) (\<lambda>_. retC (200, JNull)))"

definition mode_of_string :: "string \<Rightarrow> mode" where
  "mode_of_string s =
     (if s = ''WO'' then WO else if s = ''RW'' then RW else if s = ''ERR'' then ERR
      else if s = ''INIT'' then INIT else if s = ''CLOSED'' then CLOSED else ModeStr s)"

text \<open>\<open>SetReplicaMode\<close> takes the lock for the two modes that can be set only.\<close>

definition set_modeH :: "('w, 'b) env \<Rightarrow> string \<Rightarrow> mode \<Rightarrow> ('w, 'b, unit) hop" where
  "set_modeH E rid m =
     (if m = ERR \<or> m = RW then lockedH (ctlH (SetReplicaMode E rid m)) else ctlH (SetReplicaMode E rid m))"

text \<open>\<open>UpdateReplica\<close> does not look at the error of reading the body.\<close>

definition h_UpdateReplica :: "('w, 'b) rest_env \<Rightarrow> string \<Rightarrow> body \<Rightarrow> ('w, 'b, http_answer) hop" where
  "h_UpdateReplica R v b =
     with_id v (\<lambda>rid.
       let m = mode_of_string (case dec_ctlReplica b of Inl _ \<Rightarrow> [] | Inr rep \<Rightarrow> crMode rep)
       in bindC (set_modeH (heE R) rid m) (\<lambda>_. h_GetReplica R v))"

definition prepareH :: "('w, 'b) env \<Rightarrow> string \<Rightarrow> ('w, 'b, string list) hop" where
  "prepareH E address = (\<lambda>(l, c, w). case PrepareRebuildReplica E address c w of (x, w') \<Rightarrow> (x, l, c, w'))"

definition h_PrepareRebuildReplica :: "('w, 'b) rest_env \<Rightarrow> string \<Rightarrow> ('w, 'b, http_answer) hop" where
  "h_PrepareRebuildReplica R v =
     with_id v (\<lambda>rid. bindC (lockedH (prepareH (heE R) rid)) (\<lambda>disks. retC (200, JPrepareRebuild disks)))"

definition h_VerifyRebuildReplica :: "('w, 'b) rest_env \<Rightarrow> string \<Rightarrow> ('w, 'b, http_answer) hop" where
  "h_VerifyRebuildReplica R v =
     with_id v (\<lambda>rid. bindC (lockedH (ctlH (VerifyRebuildReplica (heE R) rid))) (\<lambda>_. h_GetReplica R v))"

section \<open>Deleting the volume\<close>

definition error_text :: "error \<Rightarrow> string" where
  "error_text e = (case e of EOF \<Rightarrow> ''EOF'' | Err s \<Rightarrow> s | _ \<Rightarrow> [])"

text \<open>Entries of the answer are the replica, the error and the message.\<close>

fun delete_replicas :: "'w transport \<Rightarrow> replicaEntry list \<Rightarrow> (string \<times> string \<times> string) list \<Rightarrow> ('w, (string \<times> string \<times> string) list) call" where
  "delete_replicas T [] acc = retC acc"
| "delete_replicas T (r # rs) acc =
     (case NewReplicaClient (Address r) of
        Inl e \<Rightarrow> delete_replicas T rs (acc @ [(Address r, error_text e, ''Error in creating replica client'')])
      | Inr cl \<Rightarrow>
          bindC (attemptC (rc_Delete T cl ''/delete'')) (\<lambda>res.
            delete_replicas T rs
              (acc @ [case res of Inl e \<Rightarrow> (Address r, error_text e, ''Error deleting replica'')
                               | Inr _ \<Rightarrow> (Address r, [], ''Replica deleted successfully'')])))"

text \<open>The goroutines that \<open>delete\<close> starts run, in the order of the list, until \<open>wg.Wait\<close> returns.\<close>

definition h_DeleteVolume :: "('w, 'b) rest_env \<Rightarrow> ('w, 'b, http_answer) hop" where
  "h_DeleteVolume R =
     bindC (getsH (\<lambda>c. int (length (replicas c)))) (\<lambda>replicaCount.
     if replicaCount = 0 then
       retC (200, JDeleted [([], ''Volume not found'', ''No replicas registered with this controller instance'')])
     else if replicaCount \<noteq> eCheckReplicationFactor (heE R) then
       retC (200, JDeleted [([], ''Replication factor: '' @ FormatInt (eCheckReplicationFactor (heE R)) @
                                 '' is not equal to replica count: '' @ FormatInt replicaCount, ''Error deleting replica'')])
     else
       bindC (lockedH (getsH replicas)) (\<lambda>rs.
       bindC (worldH (delete_replicas (heT R) rs [])) (\<lambda>acc. retC (200, JDeleted acc))))"

section \<open>Statistics\<close>

definition stats0 :: stats where
  "stats0 = \<lparr>stIsClientConnected = False, stRevisionCounter = 0, stSCSIIOCount = [], stReadIOPS = 0, stTotalReadTime = 0,
     stTotalReadBlockCount = 0, stWriteIOPS = 0, stTotalWriteTime = 0, stTotalWriteBlockCount = 0, stUsedLogicalBlocks = 0,
     stUsedBlocks = 0, stSectorSize = 0\<rparr>"

text \<open>The error of the usage is returned beside the numbers; the handler does not look at it.\<close>

definition c_Stats :: "('w, 'b) rest_env \<Rightarrow> 'b controller \<Rightarrow> ('w, stats \<times> error option) call" where
  "c_Stats R c w =
     (case eFrontend (heE R) of
        None \<Rightarrow> (Inr (stats0, None), w)
      | Some fe \<Rightarrow>
          (case rp_GetVolUsage (eB (heE R)) (backend c) w of
             ((u, e), w') \<Rightarrow>
               (Inr ((heFrontendStats R w)\<lparr>stRevisionCounter := vuRevisionCounter u, stUsedLogicalBlocks := vuUsedLogicalBlocks u,
                   stUsedBlocks := vuUsedBlocks u, stSectorSize := vuSectorSize u\<rparr>, e), w')))"

text \<open>The goroutines run in the order of the list; a replica that does not answer is left out.\<close>

fun GetReplicaInfo :: "'w transport \<Rightarrow> replicaEntry list \<Rightarrow> ('w, replicaInfo list) call" where
  "GetReplicaInfo T [] = retC []"
| "GetReplicaInfo T (r # rs) =
     bindC (case NewReplicaClient (Address r) of
              Inl e \<Rightarrow> retC []
            | Inr cl \<Rightarrow>
                bindC (attemptC (rc_GetReplica T cl)) (\<lambda>res. retC (case res of Inl e \<Rightarrow> [] | Inr rep \<Rightarrow> [rrInfo rep])))
       (\<lambda>i. bindC (GetReplicaInfo T rs) (\<lambda>is. retC (i @ is)))"

definition h_GetVolumeStats :: "('w, 'b) rest_env \<Rightarrow> ('w, 'b, http_answer) hop" where
  "h_GetVolumeStats R =
     bindC (rsectionH (c_Stats R)) (\<lambda>(st, _).
     bindC (rlockedH replicas) (\<lambda>reps.
     bindC (getsH (\<lambda>c. if ReadOnly c then ''RO'' else ''RW'')) (\<lambda>status.
     bindC (worldH (GetReplicaInfo (heT R) reps)) (\<lambda>infos.
     readsH (\<lambda>c w. (Inr (200, JStats
       \<lparr>vsIsClientConnected = stIsClientConnected st, vsRevisionCounter = stRevisionCounter st, vsReplicaCounter = int (length reps),
        vsSCSIIOCount = stSCSIIOCount st, vsReadIOPS = FormatInt (stReadIOPS st), vsTotalReadTime = FormatInt (stTotalReadTime st),
        vsTotalReadBlockCount = FormatInt (stTotalReadBlockCount st), vsWriteIOPS = FormatInt (stWriteIOPS st),
        vsTotalWriteTime = FormatInt (stTotalWriteTime st), vsTotalWriteBlockCount = FormatInt (stTotalWriteBlockCount st),
        vsUsedLogicalBlocks = FormatInt (stUsedLogicalBlocks st), vsUsedBlocks = FormatInt (stUsedBlocks st),
        vsSectorSize = FormatInt (stSectorSize st), vsSize = FormatInt (csize c), vsUpTime = heUpTime R w, vsName = cName c,
        vsReplica = reps, vsReplicaInfo = infos, vsControllerStatus = status\<rparr>), w))))))"

definition h_ListJournal :: "('w, 'b) rest_env \<Rightarrow> body \<Rightarrow> ('w, 'b, http_answer) hop" where
  "h_ListJournal R b =
     bindC (pureC (case b of JBad \<Rightarrow> Inl EOF | JJournal limit \<Rightarrow> Inr limit | _ \<Rightarrow> Inr 0)) (\<lambda>limit.
     worldH (\<lambda>w. (Inr (200, JNull), heJournal R limit w)))"

definition h_AddTimeout :: "('w, 'b) rest_env \<Rightarrow> body \<Rightarrow> ('w, 'b, http_answer) hop" where
  "h_AddTimeout R b =
     bindC (pureC (case b of JBad \<Rightarrow> Inl EOF | JTimeout t p \<Rightarrow> Inr (t, p) | _ \<Rightarrow> Inr ([], []))) (\<lambda>(timeout, rpcPingTimeout).
     if timeout \<noteq> [] then bindC (worldH (heSetenv R ''DEBUG_TIMEOUT'' timeout)) (\<lambda>_. retC (200, JNull))
     else if rpcPingTimeout \<noteq> [] then bindC (worldH (heSetenv R ''RPC_PING_TIMEOUT'' rpcPingTimeout)) (\<lambda>_. retC (200, JNull))
     else failC (Err ''Error in setting timeout, received empty value''))"

section \<open>Routes\<close>

datatype ctl_request =
    ReqListVolumes
  | ReqDelete
  | ReqGetVolume string
  | ReqShutdown string
  | ReqSnapshot string body
  | ReqRevert string body
  | ReqResize string body
  | ReqSetLogging string body
  | ReqStart string body
  | ReqDeleteSnapshot string body
  | ReqCheckpoint
  | ReqListReplicas
  | ReqGetReplica string
  | ReqRegister body
  | ReqCreateReplica body
  | ReqCreateQuorum body
  | ReqPrepareRebuild string
  | ReqVerifyRebuild string
  | ReqUpdateReplica string body
  | ReqDeleteReplica string
  | ReqStats
  | ReqJournal body
  | ReqTimeout body

text \<open>A request with an identifier reaches its handler if the identifier is one segment of the path.\<close>

definition with_route :: "('w, 'b) rest_env \<Rightarrow> string \<Rightarrow> ('w, 'b, http_answer) hop \<Rightarrow> ('w, 'b, http_answer) hop" where
  "with_route R v m = (if v \<noteq> [] \<and> CHR ''/'' \<notin> set v then m else retC (heUnrouted R v))"

fun ctl_serve :: "('w, 'b) rest_env \<Rightarrow> ctl_request \<Rightarrow> ('w, 'b, http_answer) hop" where
  "ctl_serve R ReqListVolumes = h_ListVolumes R"
| "ctl_serve R ReqDelete = h_DeleteVolume R"
| "ctl_serve R (ReqGetVolume v) = with_route R v (h_GetVolume R v)"
| "ctl_serve R (ReqShutdown v) = with_route R v (h_ShutdownVolume R v)"
| "ctl_serve R (ReqSnapshot v b) = with_route R v (h_SnapshotVolume R v b)"
| "ctl_serve R (ReqRevert v b) = with_route R v (h_RevertVolume R v b)"
| "ctl_serve R (ReqResize v b) = with_route R v (h_ResizeVolume R v b)"
| "ctl_serve R (ReqSetLogging v b) = with_route R v (h_SetLogging R v b)"
| "ctl_serve R (ReqStart v b) = with_route R v (h_StartVolume R v b)"
| "ctl_serve R (ReqDeleteSnapshot v b) = with_route R v (h_DeleteSnapshot R b)"
| "ctl_serve R ReqCheckpoint = h_GetCheckpoint"
| "ctl_serve R ReqListReplicas = h_ListReplicas R"
| "ctl_serve R (ReqGetReplica v) = with_route R v (h_GetReplica R v)"
| "ctl_serve R (ReqRegister b) = h_RegisterReplica R b"
| "ctl_serve R (ReqCreateReplica b) = h_CreateReplica R b"
| "ctl_serve R (ReqCreateQuorum b) = h_CreateQuorumReplica R b"
| "ctl_serve R (ReqPrepareRebuild v) = with_route R v (h_PrepareRebuildReplica R v)"
| "ctl_serve R (ReqVerifyRebuild v) = with_route R v (h_VerifyRebuildReplica R v)"
| "ctl_serve R (ReqUpdateReplica v b) = with_route R v (h_UpdateReplica R v b)"
| "ctl_serve R (ReqDeleteReplica v) = with_route R v (h_DeleteReplica R v)"
| "ctl_serve R ReqStats = h_GetVolumeStats R"
| "ctl_serve R (ReqJournal b) = h_ListJournal R b"
| "ctl_serve R (ReqTimeout b) = h_AddTimeout R b"

end
