(* ===== verification/ControllerRestProps.thy ===== *)
theory ControllerRestProps
  imports ControllerRest ControllerProps
begin

text \<open>
  The HTTP interface of the controller: identifiers of replicas come back to the replica they were made for, the
  lock is free after every request that is answered, a request after which it is never free again, and one that
  ends the process.
\<close>

section \<open>Identifiers\<close>

lemma b64_val_char:
  assumes "n < 64"
  shows "b64_val (b64_char n) = Some n"
proof -
  have d: "distinct b64_alphabet" "length b64_alphabet = 64" by (code_simp, code_simp)
  have z: "zip b64_alphabet [0..<64] ! n = (b64_alphabet ! n, n)" using assms d by simp
  have m: "(b64_alphabet ! n, n) \<in> set (zip b64_alphabet [0..<64])"
    using assms d nth_mem [of n "zip b64_alphabet [0..<64]"] z by simp
  have k: "distinct (map fst (zip b64_alphabet [0..<64]))" using d by simp
  show ?thesis unfolding b64_val_def b64_char_def by (rule map_of_is_SomeI [OF k m])
qed

lemma b64_char_plain:
  assumes "n < 64"
  shows "b64_char n \<noteq> CHR ''=''" "b64_char n \<noteq> CHR 0x0A" "b64_char n \<noteq> CHR 0x0D"
proof -
  have l: "length b64_alphabet = 64" by code_simp
  have "list_all (\<lambda>c. c \<noteq> CHR ''='' \<and> c \<noteq> CHR 0x0A \<and> c \<noteq> CHR 0x0D) b64_alphabet" by code_simp
  then have "b64_char n \<noteq> CHR ''='' \<and> b64_char n \<noteq> CHR 0x0A \<and> b64_char n \<noteq> CHR 0x0D"
    unfolding list_all_length b64_char_def using assms l by simp
  then show "b64_char n \<noteq> CHR ''=''" "b64_char n \<noteq> CHR 0x0A" "b64_char n \<noteq> CHR 0x0D" by simp_all
qed

lemma of_char_lt: "(of_char c :: nat) < 256"
  using nat_of_char_less_256 by simp

lemma digit_bounds:
  fixes x y z :: nat
  assumes "x < 256" "y < 256" "z < 256"
  shows "x div 4 < 64" "x mod 4 * 16 < 64" "x mod 4 * 16 + y div 16 < 64"
    "y mod 16 * 4 < 64" "y mod 16 * 4 + z div 64 < 64" "z mod 64 < 64"
proof -
  have "x mod 4 < 4" "y mod 16 < 16" by simp_all
  moreover have "y div 16 < 16" "z div 64 < 4" "x div 4 < 64" using assms by (simp_all add: div_less_iff_less_mult)
  ultimately show "x div 4 < 64" "x mod 4 * 16 < 64" "x mod 4 * 16 + y div 16 < 64"
    "y mod 16 * 4 < 64" "y mod 16 * 4 + z div 64 < 64" "z mod 64 < 64" by linarith+
qed

lemmas byte_bounds = digit_bounds [OF of_char_lt of_char_lt of_char_lt]

lemma rejoin_nat:
  fixes y z :: nat
  assumes "y < 256" "z < 256"
  shows "y div 16 div 16 = 0" "y div 16 mod 16 * 16 + y mod 16 = y"
    "y div 16 mod 16 * 16 + (y mod 16 + z div 64 div 4) = y" "z div 64 mod 4 * 64 + z mod 64 = z"
proof -
  have d: "y div 16 < 16" "z div 64 < 4" using assms by (simp_all add: div_less_iff_less_mult)
  then have "y div 16 mod 16 = y div 16" "z div 64 mod 4 = z div 64" "z div 64 div 4 = 0" by simp_all
  then show "y div 16 div 16 = 0" "y div 16 mod 16 * 16 + y mod 16 = y"
    "y div 16 mod 16 * 16 + (y mod 16 + z div 64 div 4) = y" "z div 64 mod 4 * 64 + z mod 64 = z"
    using d by simp_all
qed

lemmas rejoin = rejoin_nat [OF of_char_lt of_char_lt]

lemma decode_encode: "decode_quads (EncodeID s) = Inr s"
proof (induction s rule: EncodeID.induct)
  case (4 a b c s)
  have "decode_quads (EncodeID s) = Inr s" by (rule 4 [OF refl refl refl])
  then show ?case
    by (simp add: Let_def b64_val_char byte_bounds b64_char_plain rejoin)
qed (simp_all add: Let_def b64_val_char byte_bounds b64_char_plain rejoin)

lemma EncodeID_no_line_ends: "filter (\<lambda>c. c \<noteq> CHR 0x0A \<and> c \<noteq> CHR 0x0D) (EncodeID s) = EncodeID s"
  by (induction s rule: EncodeID.induct) (simp_all add: Let_def b64_char_plain byte_bounds)

lemma DencodeID_EncodeID [simp]: "DencodeID (EncodeID s) = Inr s"
  by (simp add: DencodeID_def EncodeID_no_line_ends decode_encode)

lemma find_distinct:
  assumes "distinct (map f xs)" and "x \<in> set xs"
  shows "List.find (\<lambda>y. f y = f x) xs = Some x"
  using assms by (induction xs) (auto simp: image_iff)

text \<open>
  The characters of an address for which its identifier is one segment of a path: the digit for 63 is the slash,
  and a third byte that ends in six ones gives it.
\<close>

definition plain_address :: "string \<Rightarrow> bool" where
  "plain_address a = (a \<noteq> [] \<and> list_all (\<lambda>ch. (of_char ch :: nat) < 127 \<and> ch \<noteq> CHR ''?'') a)"

lemma b64_char_slash:
  assumes "n < 63"
  shows "b64_char n \<noteq> CHR ''/''"
proof -
  have l: "length b64_alphabet = 64" by code_simp
  have "list_all (\<lambda>c. c \<noteq> CHR ''/'') (take 63 b64_alphabet)" by code_simp
  then show ?thesis unfolding list_all_length b64_char_def using assms l by simp
qed

lemma small_digits:
  fixes x y z :: nat
  assumes "x < 127" "y < 127" "z < 127" "z \<noteq> 63"
  shows "x div 4 < 63" "x mod 4 * 16 < 63" "x mod 4 * 16 + y div 16 < 63" "y mod 16 * 4 < 63" "y mod 16 * 4 + z div 64 < 63" "z mod 64 < 63"
proof -
  have "x mod 4 < 4" "y mod 16 < 16" "z mod 64 < 64" by simp_all
  moreover have "y div 16 < 8" "z div 64 < 2" "x div 4 < 32" using assms by (simp_all add: div_less_iff_less_mult)
  ultimately show "x div 4 < 63" "x mod 4 * 16 < 63" "x mod 4 * 16 + y div 16 < 63" "y mod 16 * 4 < 63" "y mod 16 * 4 + z div 64 < 63"
    by linarith+
  have "z = z div 64 * 64 + z mod 64" by simp
  then show "z mod 64 < 63" using assms(3,4) \<open>z mod 64 < 64\<close> \<open>z div 64 < 2\<close> by (cases "z div 64") auto
qed

lemma plain_char: "ch \<noteq> CHR ''?'' \<Longrightarrow> (of_char ch :: nat) \<noteq> 63"
proof
  assume ne: "ch \<noteq> CHR ''?''" and "(of_char ch :: nat) = 63"
  then have "ch = char_of (63 :: nat)" by (metis char_of_char)
  moreover have "char_of (63 :: nat) = CHR ''?''" by code_simp
  ultimately show False using ne by simp
qed

lemma EncodeID_segment: "plain_address s \<or> s = [] \<Longrightarrow> CHR ''/'' \<notin> set (EncodeID s)"
proof (induction s rule: EncodeID.induct)
  case (4 a b c s)
  have "CHR ''/'' \<notin> set (EncodeID s)" using 4 by (cases s) (auto simp: plain_address_def)
  moreover have "(of_char a :: nat) < 127" "(of_char b :: nat) < 127" "(of_char c :: nat) < 127" "(of_char c :: nat) \<noteq> 63"
    using 4(2) plain_char [of c] by (auto simp: plain_address_def)
  ultimately show ?case using b64_char_slash small_digits by (simp add: Let_def) metis
next
  case (2 a)
  then have "(of_char a :: nat) < 127" by (simp add: plain_address_def)
  then show ?case using b64_char_slash small_digits(1,2) [of _ 0 0] by (simp add: Let_def) metis
next
  case (3 a b)
  then have "(of_char a :: nat) < 127" "(of_char b :: nat) < 127" by (simp_all add: plain_address_def)
  then show ?case using b64_char_slash small_digits(1,3,4) [of _ _ 0] by (simp add: Let_def) metis
qed simp

lemma EncodeID_nonempty: "s \<noteq> [] \<Longrightarrow> EncodeID s \<noteq> []"
  by (cases s rule: EncodeID.cases) (simp_all add: Let_def)

text \<open>
  C37. The identifier that the controller publishes for a replica leads back to it: when no two replicas have the
  same address, every entry of the list of replicas whose address is of printable ASCII characters other than the
  question mark is found under its own identifier, by a request that goes through the router, and the request
  changes nothing.
\<close>

theorem replica_found_by_id:
  assumes d: "distinct (map Address (replicas c))" and ls: "ctl_serve R ReqListReplicas (False, c, w) = (Inr (200, JReplicas L), False, c, w)"
    and x: "x \<in> set L" and p: "plain_address (crAddress x)"
  shows "ctl_serve R (ReqGetReplica (crId x)) (False, c, w) = ((Inr (200, JCtlReplica x), False, c, w))"
proof -
  have "L = map (ctl_NewReplica R) (replicas c)" using ls by (simp add: h_ListReplicas_def hop_defs)
  then obtain r where r: "r \<in> set (replicas c)" "x = ctl_NewReplica R r" using x by auto
  have i: "crId x = EncodeID (Address r)" "crAddress x = Address r" by (simp_all add: r(2) ctl_NewReplica_def Let_def)
  have "EncodeID (Address r) \<noteq> []" "CHR ''/'' \<notin> set (EncodeID (Address r))"
    using p EncodeID_segment [of "Address r"] EncodeID_nonempty [of "Address r"] by (simp_all add: i plain_address_def)
  then show ?thesis unfolding i(1) using find_distinct [OF d r(1)] r(2)
    by (simp add: with_route_def h_GetReplica_def with_id_def getReplica_def hop_defs split: option.splits)
qed

definition lab_rest :: "(nat list, nat) rest_env" where
  "lab_rest = \<lparr>heE = lab_env, heT = \<lparr>httpDo = (\<lambda>_ _ _ w. (Inl EOF, w)), sleepFor = (\<lambda>_ w. w)\<rparr>,
     heActionLink = (\<lambda>t i a. ''/v1/'' @ t @ ''s/'' @ i @ ''?action='' @ a), heSelfLink = (\<lambda>t i. ''/v1/'' @ t @ ''s/'' @ i),
     heFrontendStats = (\<lambda>_. stats0), heJournal = (\<lambda>_ w. w), heSetenv = (\<lambda>_ _ w. (Inr (), w)), heUpTime = (\<lambda>_. ''1.0''),
     heUnrouted = (\<lambda>_. (404, JNull)), heFuel = 3\<rparr>"

theorem replica_found_by_id_witness:
  "fst (ctl_serve lab_rest (ReqGetReplica ''dGNwOi8vYjo5NTAy'') (False, lab_ctl 2 [(''tcp://a:9502'', RW), (''tcp://b:9502'', WO)], [])) =
     Inr (200, JCtlReplica (ctl_NewReplica lab_rest \<lparr>Address = ''tcp://b:9502'', Mode = WO\<rparr>))"
proof -
  let ?c = "lab_ctl 2 [(''tcp://a:9502'', RW), (''tcp://b:9502'', WO)]" and ?x = "ctl_NewReplica lab_rest \<lparr>Address = ''tcp://b:9502'', Mode = WO\<rparr>"
  have e: "crId ?x = ''dGNwOi8vYjo5NTAy''" "plain_address (crAddress ?x)" by code_simp+
  have 1: "distinct (map Address (replicas ?c))" by (simp add: lab_ctl_def)
  have 2: "ctl_serve lab_rest ReqListReplicas (False, ?c, []) = (Inr (200, JReplicas (map (ctl_NewReplica lab_rest) (replicas ?c))), False, ?c, [])"
    by (simp add: h_ListReplicas_def hop_defs)
  have 3: "?x \<in> set (map (ctl_NewReplica lab_rest) (replicas ?c))" by (simp add: lab_ctl_def)
  show ?thesis using replica_found_by_id [OF 1 2 3 e(2)] unfolding e(1) by simp
qed

section \<open>The lock\<close>

text \<open>Not answered: the process has ended, the request waits for ever, or a panic has closed its connection.\<close>

definition ended :: "'a result \<Rightarrow> bool" where
  "ended x = (case x of Inl e \<Rightarrow> crashes e | Inr _ \<Rightarrow> False)"

lemma ended_simps [simp]: "ended (Inl e) = crashes e" "\<not> ended (Inr x)"
  by (simp_all add: ended_def)

text \<open>An operation that starts with the lock free and returns leaves it free; one that starts with the lock held releases it.\<close>

definition frees :: "('w, 'b, 'a) hop \<Rightarrow> bool" where
  "frees m \<longleftrightarrow> (\<forall>c w. case m (False, c, w) of (x, l, _) \<Rightarrow> l \<longrightarrow> ended x)"

definition releases :: "('w, 'b, 'a) hop \<Rightarrow> bool" where
  "releases m \<longleftrightarrow> (\<forall>c w. case m (True, c, w) of (x, l, _) \<Rightarrow> l \<longrightarrow> ended x)"

named_theorems free_rules
named_theorems held_rules

lemma releases_rules [held_rules]:
  "frees (f ()) \<Longrightarrow> releases (bindC unlockH f)"
  "(\<And>x. releases (k x)) \<Longrightarrow> releases (bindC (getsH g) k)"
  by (simp_all add: frees_def releases_def hop_defs)

lemma releases_attempt [held_rules]:
  assumes "\<And>x. releases (k x)"
  shows "releases (bindC (attemptC (ctlH g)) k)"
  unfolding releases_def
proof (intro allI)
  fix c w
  obtain e c1 w1 where g: "g c w = (e, c1, w1)" by (metis prod_cases3)
  show "case bindC (attemptC (ctlH g)) k (True, c, w) of (x, l, _) \<Rightarrow> l \<longrightarrow> ended x"
    using assms by (cases e) (auto simp: releases_def hop_defs g split: prod.splits)
qed

lemma releases_cases [held_rules]:
  "releases m \<Longrightarrow> (\<And>x. releases (f x)) \<Longrightarrow> releases (case v of None \<Rightarrow> m | Some x \<Rightarrow> f x)"
  "(\<And>x. releases (g x)) \<Longrightarrow> (\<And>x. releases (f x)) \<Longrightarrow> releases (case s of Inl x \<Rightarrow> g x | Inr x \<Rightarrow> f x)"
  by (auto split: option.splits sum.splits)

lemma frees_lock [free_rules]: "releases (f ()) \<Longrightarrow> frees (bindC lockH f)"
  by (simp add: frees_def releases_def hop_defs)

lemma frees_bind [free_rules]:
  assumes "frees m" and "\<And>x. frees (f x)"
  shows "frees (bindC m f)"
  unfolding frees_def
proof (intro allI)
  fix c w
  obtain x l c' w' where m: "m (False, c, w) = (x, l, c', w')" by (metis prod_cases4)
  have l: "l \<longrightarrow> ended x" using assms(1) m unfolding frees_def by (metis (mono_tags, lifting) case_prod_conv)
  show "case bindC m f (False, c, w) of (x, l, _) \<Rightarrow> l \<longrightarrow> ended x"
  proof (cases x)
    case (Inl e)
    then show ?thesis using m l by (simp add: bindC_def)
  next
    case (Inr a)
    then have "\<not> l" using l by simp
    then show ?thesis using m Inr assms(2) [of a] by (simp add: bindC_def frees_def)
  qed
qed

lemma frees_locked [free_rules]: "frees (lockedH m)"
  unfolding frees_def
proof (intro allI)
  fix c w
  obtain x l c' w' where "m (True, c, w) = (x, l, c', w')" by (metis prod_cases4)
  then show "case lockedH m (False, c, w) of (x, l, _) \<Rightarrow> l \<longrightarrow> ended x"
    by (auto simp: hop_defs split: sum.splits error.splits)
qed

lemma frees_basic [free_rules]:
  "frees (retC x)" "frees (failC e)" "frees (pureC p)" "frees (getsH g)" "frees (rlockedH g)" "frees (worldH t)"
  by (auto simp: frees_def hop_defs split: prod.splits)

lemma frees_sections [free_rules]: "frees (rsectionH f)" "frees (readsH f)"
  by (auto simp: frees_def hop_defs split: prod.splits)

lemma frees_ctl: "frees (ctlH f)"
  by (auto simp: frees_def ctlH_def split: prod.splits option.splits)

lemma frees_set_mode [free_rules]: "frees (set_modeH E rid m)"
  by (simp add: set_modeH_def frees_locked frees_ctl)

lemma frees_cases [free_rules]:
  "frees m \<Longrightarrow> (\<And>x. frees (f x)) \<Longrightarrow> frees (case v of None \<Rightarrow> m | Some x \<Rightarrow> f x)"
  "(\<And>x. frees (g x)) \<Longrightarrow> (\<And>x. frees (f x)) \<Longrightarrow> frees (case s of Inl x \<Rightarrow> g x | Inr x \<Rightarrow> f x)"
  "frees m \<Longrightarrow> frees n \<Longrightarrow> frees (if b then m else n)"
  "(\<And>x y. frees (h x y)) \<Longrightarrow> frees (case p of (x, y) \<Rightarrow> h x y)"
  by (auto split: option.splits sum.splits prod.splits)

lemmas handler_defs = h_ListVolumes_def h_DeleteVolume_def h_GetVolume_def h_ShutdownVolume_def h_SnapshotVolume_def h_RevertVolume_def
  h_ResizeVolume_def h_SetLogging_def h_StartVolume_def h_DeleteSnapshot_def h_GetCheckpoint_def h_GetReplica_def
  h_RegisterReplica_def h_CreateReplica_def h_CreateQuorumReplica_def h_PrepareRebuildReplica_def h_VerifyRebuildReplica_def
  h_UpdateReplica_def h_DeleteReplica_def h_ListReplicas_def h_GetVolumeStats_def h_ListJournal_def h_AddTimeout_def
  shutdownH_def revertH_def addReplicaH_def addQuorumReplicaH_def with_route_def with_volume_def with_id_def getReplica_def getQuorumReplica_def Let_def

lemma frees_serve: "frees (ctl_serve R q)"
  by (cases q) (simp only: ctl_serve.simps handler_defs; intro free_rules held_rules)+

text \<open>
  C20. Whatever the request and whatever the replicas answer, a request that the controller answers, with a result
  or an error, leaves the lock of the controller free, so that requests can follow one another.  This holds on
  every way through the handlers, those that release the lock by hand included; only a request that is not
  answered, because the process ended, the handler panicked or waits for ever, may keep it.
\<close>

theorem answered_requests_release_lock:
  assumes "ctl_serve R q (False, c, w) = (x, l, c', w')" and "\<And>e. x = Inl e \<Longrightarrow> \<not> crashes e"
  shows "\<not> l"
proof -
  have "l \<longrightarrow> ended x" using frees_serve [of R q] assms(1) unfolding frees_def by (metis (mono_tags, lifting) case_prod_conv)
  then show ?thesis using assms(2) by (cases x) auto
qed

theorem answered_requests_release_lock_witness:
  "\<exists>c' w'. ctl_serve lab_rest (ReqUpdateReplica ''dGNwOi8vYjo5NTAy'' JBad) (False, lab_ctl 1 [(''a'', RW)], []) =
     (Inl (Err ''Can not set to mode''), False, c', w')"
proof -
  let ?r = "ctl_serve lab_rest (ReqUpdateReplica ''dGNwOi8vYjo5NTAy'' JBad) (False, lab_ctl 1 [(''a'', RW)], [])"
  obtain x l c' w' where r: "?r = (x, l, c', w')" by (metis prod_cases4)
  have "fst ?r = Inl (Err ''Can not set to mode'')" by code_simp
  then have x: "x = Inl (Err ''Can not set to mode'')" using r by simp
  then have "\<not> l" using answered_requests_release_lock [OF r] by simp
  then show ?thesis using r x by simp
qed

text \<open>A request to add a quorum replica does what \<open>addQuorumReplica\<close> does, with the lock free before and after it.\<close>

lemma addQuorumReplicaH_ok:
  assumes "addQuorumReplica E a s c w = (None, c', w')"
  shows "addQuorumReplicaH E a s (False, c, w) = (Inr (), False, c', w')"
proof -
  obtain c1 w1 nb w2 where "canAdd E a c w = (None, c1, w1)" "fCreate (eF E) a w1 = (Inr nb, w2)"
      "addQuorumReplica_commit E nb a s c1 w2 = (None, c', w')"
    using assms by (auto simp: addQuorumReplica_def split: prod.splits option.splits sum.splits)
  then show ?thesis by (simp add: addQuorumReplicaH_def hop_defs)
qed

text \<open>\<open>Shutdown\<close> and \<open>Revert\<close> in their sections do what they do in one piece, when nothing comes in between.\<close>

lemma shutdownH_run: "shutdownH E (False, c, w) = (case Shutdown E c w of (_, c', w') \<Rightarrow> (Inr (), False, c', w'))"
  by (simp add: shutdownH_def Shutdown_def hop_defs split: prod.splits)

lemma revertH_run:
  "c_Revert E name c w = (None, c', w') \<Longrightarrow> revertH E name (False, c, w) = (Inr (), False, c', w')"
  by (auto simp: revertH_def c_Revert_def hop_defs split: if_splits prod.splits sum.splits option.splits)

text \<open>
  C19. When the controller has added a quorum replica, the request for it is never answered: the lookup of the new
  replica holds the lock and asks for it again.  From then on listing the replicas, registering, adding and
  reading the checkpoint or the statistics wait for ever.
\<close>

theorem quorum_request_deadlocks:
  assumes "addQuorumReplica (heE R) (crAddress rep) False c w = (None, c', w')" and "v \<noteq> []" "CHR ''/'' \<notin> set v"
  shows "ctl_serve R (ReqCreateQuorum (JCtlReplica rep)) (False, c, w) = (Inl Diverge, True, c', w') \<and>
    (\<forall>q \<in> {ReqListReplicas, ReqCheckpoint, ReqRegister (JRegister g), ReqCreateReplica (JCtlReplica rep'), ReqDeleteSnapshot v b, ReqStats}.
       fst (ctl_serve R q (True, c', w')) = Inl Diverge)"
proof -
  have "addQuorumReplicaH (heE R) (crAddress rep) False (False, c, w) = (Inr (), False, c', w')" by (rule addQuorumReplicaH_ok [OF assms(1)])
  then have "ctl_serve R (ReqCreateQuorum (JCtlReplica rep)) (False, c, w) = (Inl Diverge, True, c', w')"
    by (simp add: h_CreateQuorumReplica_def getQuorumReplica_def ListQuorumReplicas_def dec_ctlReplica_def hop_defs)
  moreover have "fst (ctl_serve R (ReqCreateReplica (JCtlReplica rep')) (True, c', w')) = Inl Diverge"
    by (simp add: h_CreateReplica_def addReplicaH_def dec_ctlReplica_def hop_defs)
  ultimately show ?thesis using assms(2,3)
    by (simp add: with_route_def h_ListReplicas_def h_GetCheckpoint_def h_RegisterReplica_def h_DeleteSnapshot_def h_GetVolumeStats_def
        dec_registration_def hop_defs)
qed

theorem quorum_request_deadlocks_witness:
  "\<exists>c' w'. ctl_serve lab_rest (ReqCreateQuorum (JCtlReplica \<lparr>crId = [], crActions = [], crSelf = [], crAddress = ''q'', crMode = []\<rparr>))
       (False, lab_ctl 1 [(''a'', RW)], []) = (Inl Diverge, True, c', w') \<and>
     map Address (quorumReplicas c') = [''q'']"
proof -
  let ?rep = "\<lparr>crId = [], crActions = [], crSelf = [], crAddress = ''q'', crMode = []\<rparr>"
  let ?r = "addQuorumReplica lab_env ''q'' False (lab_ctl 1 [(''a'', RW)]) []"
  have "fst ?r = None" "map Address (quorumReplicas (fst (snd ?r))) = [''q'']" by (code_simp, code_simp)
  moreover obtain e c' w' where r: "?r = (e, c', w')" by (metis prod_cases3)
  ultimately have e: "?r = (None, c', w')" and q: "map Address (quorumReplicas c') = [''q'']" by simp_all
  have "addQuorumReplica (heE lab_rest) (crAddress ?rep) False (lab_ctl 1 [(''a'', RW)]) [] = (None, c', w')"
    using e by (simp add: lab_rest_def)
  from conjunct1 [OF quorum_request_deadlocks [OF this, of "''v''"]] q show ?thesis by auto
qed

text \<open>A request to delete a snapshot whose body does not decode releases the lock twice, which ends the process.\<close>

lemma bad_delete_ends_process:
  "v \<noteq> [] \<Longrightarrow> CHR ''/'' \<notin> set v \<Longrightarrow>
   ctl_serve R (ReqDeleteSnapshot v JBad) (False, c, w) = (Inl (Fatal ''sync: Unlock of unlocked RWMutex''), False, c, w)"
  by (simp add: with_route_def h_DeleteSnapshot_def dec_name_def hop_defs)

end
