(* ===== verification/ControllerClient.thy ===== *)
theory ControllerClient
  imports Http
begin

text \<open>
  \<open>controller/client/controller_client.go\<close>: the HTTP client of the controller.  A request other than \<open>GET\<close>
  reports a status of 300 or more as an error; the answer to a \<open>GET\<close> is decoded whatever its status is.
\<close>

type_synonym controllerClient = string

definition NewControllerClient :: "string \<Rightarrow> controllerClient" where
  "NewControllerClient controller = (if \<not> has_suffix ''/v1'' controller then controller @ ''/v1'' else controller)"

definition cc_do :: "'w transport \<Rightarrow> controllerClient \<Rightarrow> string \<Rightarrow> string \<Rightarrow> body \<Rightarrow> ('w, body) call" where
  "cc_do T c meth path req =
     (let u = (if \<not> has_prefix ''http'' path then c @ path else path)
      in bindC (httpDo T meth u req) (\<lambda>(status, b). if status \<ge> 300 then failC (Err ''Bad response'') else retC b))"

definition cc_get :: "'w transport \<Rightarrow> controllerClient \<Rightarrow> string \<Rightarrow> ('w, body) call" where
  "cc_get T c path = bindC (httpDo T ''GET'' (c @ path) JNull) (\<lambda>(status, b). retC b)"

definition cc_post :: "'w transport \<Rightarrow> controllerClient \<Rightarrow> string \<Rightarrow> body \<Rightarrow> ('w, body) call" where
  "cc_post T c path req = cc_do T c ''POST'' path req"

definition cc_put :: "'w transport \<Rightarrow> controllerClient \<Rightarrow> string \<Rightarrow> body \<Rightarrow> ('w, body) call" where
  "cc_put T c path req = cc_do T c ''PUT'' path req"

definition cc_delete :: "'w transport \<Rightarrow> controllerClient \<Rightarrow> string \<Rightarrow> body \<Rightarrow> ('w, body) call" where
  "cc_delete T c path req = cc_do T c ''DELETE'' path req"

section \<open>Volumes\<close>

definition cc_GetVolume :: "'w transport \<Rightarrow> controllerClient \<Rightarrow> ('w, ctlVolume) call" where
  "cc_GetVolume T c =
     bindC (cc_get T c ''/volumes'') (\<lambda>b.
     bindC (pureC (dec_volumes b)) (\<lambda>vs. case vs of [] \<Rightarrow> failC (Err ''No volume found'') | v # _ \<Rightarrow> retC v))"

definition cc_GetCheckpoint :: "'w transport \<Rightarrow> controllerClient \<Rightarrow> ('w, string) call" where
  "cc_GetCheckpoint T c =
     bindC (cc_get T c ''/checkpoint'') (\<lambda>b.
     bindC (pureC (dec_checkpoint b)) (\<lambda>s. if s = [] then failC (Err ''No checkpoint found'') else retC s))"

definition cc_Start :: "'w transport \<Rightarrow> controllerClient \<Rightarrow> string list \<Rightarrow> ('w, unit) call" where
  "cc_Start T c replicas =
     bindC (cc_GetVolume T c) (\<lambda>v. bindC (cc_post T c (action_link (cvActions v) ''start'') (JStart replicas)) (\<lambda>_. retC ()))"

definition cc_RevertVolume :: "'w transport \<Rightarrow> controllerClient \<Rightarrow> string \<Rightarrow> ('w, ctlVolume) call" where
  "cc_RevertVolume T c name =
     bindC (cc_GetVolume T c) (\<lambda>v.
     bindC (cc_post T c (action_link (cvActions v) ''revert'') (JName name)) (\<lambda>b. pureC (dec_volume b)))"

definition cc_Snapshot :: "'w transport \<Rightarrow> controllerClient \<Rightarrow> string \<Rightarrow> ('w, string) call" where
  "cc_Snapshot T c name =
     bindC (cc_GetVolume T c) (\<lambda>v.
     bindC (cc_post T c (action_link (cvActions v) ''snapshot'') (JName name)) (\<lambda>b. pureC (dec_snapshot b)))"

definition cc_RevertSnapshot :: "'w transport \<Rightarrow> controllerClient \<Rightarrow> string \<Rightarrow> ('w, unit) call" where
  "cc_RevertSnapshot T c snap =
     bindC (cc_GetVolume T c) (\<lambda>v. bindC (cc_post T c (action_link (cvActions v) ''revert'') (JName snap)) (\<lambda>_. retC ()))"

definition cc_SetLogging :: "'w transport \<Rightarrow> controllerClient \<Rightarrow> logToFile \<Rightarrow> ('w, unit) call" where
  "cc_SetLogging T c lf =
     bindC (cc_GetVolume T c) (\<lambda>v. bindC (cc_post T c (action_link (cvActions v) ''setlogging'') (JLogging lf)) (\<lambda>_. retC ()))"

definition cc_DeleteSnapshot :: "'w transport \<Rightarrow> controllerClient \<Rightarrow> string \<Rightarrow> ('w, unit) call" where
  "cc_DeleteSnapshot T c name =
     bindC (cc_GetVolume T c) (\<lambda>v. bindC (cc_delete T c (action_link (cvActions v) ''deleteSnapshot'') (JName name)) (\<lambda>_. retC ()))"

definition cc_ListJournal :: "'w transport \<Rightarrow> controllerClient \<Rightarrow> int \<Rightarrow> ('w, unit) call" where
  "cc_ListJournal T c limit = bindC (cc_post T c ''/journal'' (JJournal limit)) (\<lambda>_. retC ())"

section \<open>Replicas\<close>

definition cc_ListReplicas :: "'w transport \<Rightarrow> controllerClient \<Rightarrow> ('w, ctlReplica list) call" where
  "cc_ListReplicas T c = bindC (cc_get T c ''/replicas'') (\<lambda>b. pureC (dec_replicas b))"

text \<open>The description of a replica that is sent to the controller: its address.\<close>

definition named_replica :: "string \<Rightarrow> body" where
  "named_replica address = JCtlReplica \<lparr>crId = [], crActions = [], crSelf = [], crAddress = address, crMode = []\<rparr>"

definition cc_CreateReplica :: "'w transport \<Rightarrow> controllerClient \<Rightarrow> string \<Rightarrow> ('w, ctlReplica) call" where
  "cc_CreateReplica T c address = bindC (cc_post T c ''/replicas'' (named_replica address)) (\<lambda>b. pureC (dec_ctlReplica b))"

definition cc_CreateQuorumReplica :: "'w transport \<Rightarrow> controllerClient \<Rightarrow> string \<Rightarrow> ('w, ctlReplica) call" where
  "cc_CreateQuorumReplica T c address = bindC (cc_post T c ''/quorumreplicas'' (named_replica address)) (\<lambda>b. pureC (dec_ctlReplica b))"

text \<open>No replica of that address is no error; then no replica is returned.\<close>

fun delete_first :: "'w transport \<Rightarrow> string \<Rightarrow> ctlReplica list \<Rightarrow> ('w, ctlReplica option) call" where
  "delete_first T address [] = retC None"
| "delete_first T address (rep # reps) =
     (if crAddress rep = address then
        bindC (httpDo T ''DELETE'' (crSelf rep) JNull) (\<lambda>(status, _). if status \<ge> 300 then failC (Err ''Bad response'') else retC (Some rep))
      else delete_first T address reps)"

definition cc_DeleteReplica :: "'w transport \<Rightarrow> controllerClient \<Rightarrow> string \<Rightarrow> ('w, ctlReplica option) call" where
  "cc_DeleteReplica T c address = bindC (cc_ListReplicas T c) (delete_first T address)"

definition cc_UpdateReplica :: "'w transport \<Rightarrow> controllerClient \<Rightarrow> ctlReplica \<Rightarrow> ('w, ctlReplica) call" where
  "cc_UpdateReplica T c replica = bindC (cc_put T c (crSelf replica) (JCtlReplica replica)) (\<lambda>b. pureC (dec_ctlReplica b))"

definition cc_GetReplica :: "'w transport \<Rightarrow> controllerClient \<Rightarrow> string \<Rightarrow> ('w, ctlReplica) call" where
  "cc_GetReplica T c address = bindC (cc_get T c (''/replicas/'' @ address)) (\<lambda>b. pureC (dec_ctlReplica b))"

definition cc_VerifyRebuildReplica :: "'w transport \<Rightarrow> controllerClient \<Rightarrow> string \<Rightarrow> ('w, unit) call" where
  "cc_VerifyRebuildReplica T c address =
     bindC (cc_GetReplica T c address) (\<lambda>r.
     bindC (cc_post T c (action_link (crActions r) ''verifyrebuild'') (JCtlReplica r)) (\<lambda>_. retC ()))"

definition cc_PrepareRebuild :: "'w transport \<Rightarrow> controllerClient \<Rightarrow> string \<Rightarrow> ('w, string list) call" where
  "cc_PrepareRebuild T c address =
     bindC (cc_GetReplica T c address) (\<lambda>r.
     bindC (cc_post T c (action_link (crActions r) ''preparerebuild'') (JCtlReplica r)) (\<lambda>b. pureC (dec_disks b)))"

definition cc_Register ::
  "'w transport \<Rightarrow> controllerClient \<Rightarrow> string \<Rightarrow> string \<Rightarrow> int \<Rightarrow> string \<Rightarrow> int \<Rightarrow> string \<Rightarrow> ('w, unit) call" where
  "cc_Register T c address uuid revisionCount replicaType upTime state =
     bindC (cc_post T c ''/register'' (JRegister \<lparr>rgAddress = address, rgUUID = uuid, rgRevCount = FormatInt revisionCount,
       rgRepType = replicaType, rgUpTime = upTime, rgRepState = state\<rparr>)) (\<lambda>_. retC ())"

end
