(* ===== verification/Sync.thy ===== *)
theory Sync
  imports ControllerRest ControllerClient
begin

text \<open>
  \<open>sync/sync.go\<close> and \<open>sync/rebuild/progress.go\<close>: the task with which a replica joins its controller.  It speaks to
  the controller and to the replicas, its own included, by their HTTP interfaces, and to its own server directly.
  The world holds the server and the progress of the rebuild; both can also change while a request is on its way.
\<close>

section \<open>The task\<close>

record 'w task =
  tT :: "'w transport"
  tClient :: controllerClient
  tE :: senv
  tGet :: "'w \<Rightarrow> server \<times> fs"
  tPut :: "server \<times> fs \<Rightarrow> 'w \<Rightarrow> 'w"
  tInfo :: "'w \<Rightarrow> syncInfo option"
  tSetInfo :: "syncInfo option \<Rightarrow> 'w \<Rightarrow> 'w"
  tWait :: "'w \<Rightarrow> bool \<times> 'w"
  tUpTime :: "'w \<Rightarrow> int"
  tFuel :: nat

text \<open>An operation of the replica's own server, and of a replica that only this task has.\<close>

definition srvC :: "'w task \<Rightarrow> 'a sop \<Rightarrow> ('w, 'a) call" where
  "srvC t m = (\<lambda>w. case m (tGet t w) of (x, st) \<Rightarrow> (x, tPut t st w))"

definition tempC :: "'w task \<Rightarrow> replica \<Rightarrow> 'a rop \<Rightarrow> ('w, 'a) call" where
  "tempC t r m = (\<lambda>w. case tGet t w of (s, f) \<Rightarrow> case m (r, f) of (x, _, f') \<Rightarrow> (x, tPut t (s, f') w))"

definition preloadC :: "'w task \<Rightarrow> bool \<Rightarrow> ('w, unit) call" where
  "preloadC t b = srvC t (\<lambda>(s, f). (Inr (), SetPreload b s, f))"

definition punchC :: "'w task \<Rightarrow> bool \<Rightarrow> ('w, unit) call" where
  "punchC t b = srvC t (\<lambda>(s, f). (Inr (), s\<lparr>sShouldPunchHoles := b\<rparr>, f))"

text \<open>An operation between \<open>SetPreload(false)\<close> and \<open>SetPreload(true)\<close>; its error is looked at afterwards.\<close>

definition without_preload :: "'w task \<Rightarrow> ('w, 'a) call \<Rightarrow> ('w, 'a) call" where
  "without_preload t m =
     bindC (preloadC t False) (\<lambda>_. bindC (attemptC m) (\<lambda>res. bindC (preloadC t True) (\<lambda>_. pureC res)))"

text \<open>An error that is wrapped into another message.\<close>

definition wrapC :: "string \<Rightarrow> ('w, 'a) call \<Rightarrow> ('w, 'a) call" where
  "wrapC msg m = bindC (attemptC m) (\<lambda>res. case res of Inl e \<Rightarrow> failC (Err msg) | Inr x \<Rightarrow> retC x)"

section \<open>Progress\<close>

function human_loop :: "int \<Rightarrow> int \<Rightarrow> nat \<Rightarrow> int \<times> nat" where
  "human_loop n d e = (if n \<ge> 1024 then human_loop (n div 1024) (d * 1024) (Suc e) else (d, e))"
  by pat_completeness auto
termination
  by (relation "measure (\<lambda>(n, _, _). nat n)") auto

definition ConvertHumanReadable :: "int \<Rightarrow> string" where
  "ConvertHumanReadable b =
     (if b < 1024 then FormatInt b @ '' B''
      else case human_loop (b div 1024) 1024 0 of (d, e) \<Rightarrow> FormatInt (b div d) @ '' '' @ [''KMGTPE'' ! e] @ ''iB'')"

definition SetSyncInfo :: "'w task \<Rightarrow> syncInfo \<Rightarrow> ('w, unit) call" where
  "SetSyncInfo t i = (\<lambda>w. (Inr (), tSetInfo t (Some i) w))"

definition set_status :: "string \<Rightarrow> string \<Rightarrow> snapshot list \<Rightarrow> snapshot list" where
  "set_status disk status = map (\<lambda>sn. if snName sn = disk then sn\<lparr>snStatus := status\<rparr> else sn)"

definition SetStatus :: "'w task \<Rightarrow> string \<Rightarrow> string \<Rightarrow> ('w, unit) call" where
  "SetStatus t disk status = (\<lambda>w. case tInfo t w of
      None \<Rightarrow> (Inl (Panic ''nil pointer dereference''), w)
    | Some i \<Rightarrow> (Inr (), tSetInfo t (Some (i\<lparr>Snapshots := set_status disk status (Snapshots i)\<rparr>)) w))"

fun measured :: "snapshot list \<Rightarrow> int \<Rightarrow> fs \<Rightarrow> (snapshot list \<times> int) \<times> fs" where
  "measured [] tot f = (([], tot), f)"
| "measured (sn # sns) tot f =
     (case GetFileActualSize (snName sn) f of (n, f1) \<Rightarrow>
        case measured sns (if n = -1 then tot else i64 (tot + n)) f1 of ((rest, tot'), f2) \<Rightarrow>
          ((sn\<lparr>WOSize := if n = -1 then ''NA'' else ConvertHumanReadable n\<rparr> # rest, tot'), f2))"

definition GetRebuildInfo :: "'w task \<Rightarrow> ('w, syncInfo option) call" where
  "GetRebuildInfo t = (\<lambda>w. case tInfo t w of
      None \<Rightarrow> (Inr None, w)
    | Some i \<Rightarrow>
        (case tGet t w of (s, f) \<Rightarrow>
         case measured (Snapshots i) 0 f of ((sns, tot), f') \<Rightarrow>
           let i' = i\<lparr>Snapshots := sns, WOSnapshotsTotalSize := if tot \<noteq> 0 then ConvertHumanReadable tot else ''NA''\<rparr>
           in (Inr (Some i'), tSetInfo t (Some i') (tPut t (s, f') w))))"

section \<open>Chains\<close>

fun find_from :: "int \<Rightarrow> string list \<Rightarrow> string \<Rightarrow> int" where
  "find_from i [] item = -1"
| "find_from i (x # xs) item = (if x = item then i else find_from (i + 1) xs item)"

definition find :: "string list \<Rightarrow> string \<Rightarrow> int" where
  "find list item = find_from 0 list item"

definition getNameAndIndex :: "string list \<Rightarrow> string \<Rightarrow> string \<times> int" where
  "getNameAndIndex chain snapshot =
     (if find chain snapshot \<ge> 0 then (snapshot, find chain snapshot)
      else let snapshot' = ''volume-snap-'' @ snapshot @ ''.img''; index = find chain snapshot'
           in if index < 0 then ([], index) else (snapshot', index))"

definition isHeadDisk :: "string \<Rightarrow> bool" where
  "isHeadDisk diskName = (has_prefix ''volume-head-'' diskName \<and> has_suffix ''.img'' diskName)"

text \<open>\<open>chain[1:]\<close>.\<close>

definition slice1 :: "'a list \<Rightarrow> 'a list result" where
  "slice1 xs = (case xs of [] \<Rightarrow> Inl (Panic ''slice bounds out of range'') | _ # ys \<Rightarrow> Inr ys)"

text \<open>
  Both chains are cut at the checkpoint of the replica that is rebuilt, where they contain it; the snapshots above
  it, without the head, are the ones to copy.
\<close>

definition cut_chain :: "string \<Rightarrow> string list \<Rightarrow> string list" where
  "cut_chain checkpoint chain = (if checkpoint \<noteq> [] then takeWhile (\<lambda>sn. sn \<noteq> checkpoint) chain else chain)"

definition compare_chains :: "replicaInfo \<Rightarrow> replicaInfo \<Rightarrow> (bool \<times> string list) result" where
  "compare_chains rw cur =
     (if riCheckpoint cur \<noteq> [] \<and> \<not> ChainContainsSnapshot (riChain rw) (riCheckpoint cur)
      then Inl (Err ''Current replica's checkpoint not present in rwReplica chain'')
      else case slice1 (cut_chain (riCheckpoint cur) (riChain rw)) of
        Inl e \<Rightarrow> Inl e
      | Inr rwChain \<Rightarrow>
          if riRevisionCounter rw = riRevisionCounter cur then
            (case slice1 (cut_chain (riCheckpoint cur) (riChain cur)) of
               Inl e \<Rightarrow> Inl e
             | Inr curChain \<Rightarrow> Inr (rwChain = curChain, rwChain))
          else Inr (False, rwChain))"

definition isRevisionCountAndChainSame :: "'w task \<Rightarrow> replicaClient \<Rightarrow> replicaClient \<Rightarrow> ('w, bool \<times> string list) call" where
  "isRevisionCountAndChainSame t fromClient toClient =
     bindC (rc_GetReplica (tT t) fromClient) (\<lambda>rw.
     bindC (rc_GetReplica (tT t) toClient) (\<lambda>cur. pureC (compare_chains (rrInfo rw) (rrInfo cur))))"

definition isRebuilding :: "'w task \<Rightarrow> ctlReplica \<Rightarrow> ('w, bool) call" where
  "isRebuilding t rep =
     bindC (pureC (NewReplicaClient (crAddress rep))) (\<lambda>cl.
     bindC (rc_GetReplica (tT t) cl) (\<lambda>r. retC (riRebuilding (rrInfo r))))"

definition diskInfo0 :: diskInfo where
  "diskInfo0 = \<lparr>diName = [], diParent = [], diChildren = [], diRemoved = False, diUserCreated = False, diCreated = [], diSize = [],
     diRevisionCounter = 0\<rparr>"

definition disk_of :: "(string \<times> diskInfo) list \<Rightarrow> string \<Rightarrow> diskInfo" where
  "disk_of disks name = (case map_of disks name of None \<Rightarrow> diskInfo0 | Some d \<Rightarrow> d)"

definition isRevisionCountSame :: "'w task \<Rightarrow> replicaClient \<Rightarrow> replicaClient \<Rightarrow> string \<Rightarrow> ('w, bool) call" where
  "isRevisionCountSame t fromClient toClient disk =
     bindC (wrapC ''Failed to verify isRevisionCountSame'' (rc_GetReplica (tT t) fromClient)) (\<lambda>rw.
     let n = diRevisionCounter (disk_of (riDisks (rrInfo rw)) disk) in
     if n = 0 then retC False
     else bindC (wrapC ''Failed to verify isRevisionCountSame'' (rc_GetReplica (tT t) toClient)) (\<lambda>cur.
          retC (n = diRevisionCounter (disk_of (riDisks (rrInfo cur)) disk))))"

section \<open>Copying the snapshots\<close>

definition checkAndResetFailedRebuild :: "'w task \<Rightarrow> ('w, unit) call" where
  "checkAndResetFailedRebuild t =
     bindC (srvC t (\<lambda>(s, f). case Status (s, f) of (x, f') \<Rightarrow> (Inr x, s, f'))) (\<lambda>(st, i).
     if st = Closed \<and> iRebuilding i then
       bindC (without_preload t (srvC t (s_Open (tE t)))) (\<lambda>_.
       bindC (srvC t (s_SetRebuilding False)) (\<lambda>_. srvC t (s_Close (tE t))))
     else retC ())"

text \<open>The sizes of the disks, oldest first, as they are entered into the progress, and their sum.\<close>

fun progress_entries ::
  "(string \<times> diskInfo) list \<Rightarrow> (string \<times> diskInfo) list \<Rightarrow> string list \<Rightarrow> int \<Rightarrow> (snapshot list \<times> int) result" where
  "progress_entries rwDisks woDisks [] rwSize = Inr ([], rwSize)"
| "progress_entries rwDisks woDisks (disk # disks) rwSize =
     (case map_of rwDisks disk of
        None \<Rightarrow> Inl (Err ''Could not find disk in RWReplica'')
      | Some d \<Rightarrow>
          (case ParseInt (diSize d) of
             Inl e \<Rightarrow> Inl (Err ''Failed to parse size of RW replica'')
           | Inr diskSize \<Rightarrow>
               (case progress_entries rwDisks woDisks disks (i64 (rwSize + diskSize)) of
                  Inl e \<Rightarrow> Inl e
                | Inr (sns, tot) \<Rightarrow>
                    Inr (\<lparr>snName = disk, RWSize = ConvertHumanReadable diskSize,
                          WOSize = (case map_of woDisks disk of None \<Rightarrow> ''NA'' | Some d' \<Rightarrow> diSize d'), snStatus = ''Pending''\<rparr> # sns, tot))))"

fun wo_total :: "(string \<times> diskInfo) list \<Rightarrow> string list \<Rightarrow> int \<Rightarrow> int result" where
  "wo_total woDisks [] woSize = Inr woSize"
| "wo_total woDisks (disk # disks) woSize =
     (case map_of woDisks disk of
        None \<Rightarrow> wo_total woDisks disks woSize
      | Some d \<Rightarrow>
          (case ParseInt (diSize d) of
             Inl e \<Rightarrow> Inl (Err ''Failed to parse size of WO replica'')
           | Inr diskSize \<Rightarrow> wo_total woDisks disks (i64 (woSize + diskSize))))"

definition initalizeSyncProgress :: "'w task \<Rightarrow> replicaClient \<Rightarrow> replicaClient \<Rightarrow> string list \<Rightarrow> ('w, unit) call" where
  "initalizeSyncProgress t fromClient toClient disks =
     bindC (rc_GetReplica (tT t) fromClient) (\<lambda>rw.
     bindC (rc_GetReplica (tT t) toClient) (\<lambda>wo.
     bindC (pureC (progress_entries (riDisks (rrInfo rw)) (riDisks (rrInfo wo)) (rev disks) 0)) (\<lambda>(sns, rwSize).
     bindC (pureC (wo_total (riDisks (rrInfo wo)) disks 0)) (\<lambda>woSize.
       SetSyncInfo t \<lparr>Snapshots = sns, RWReplica = rcAddress fromClient, WOReplica = rcAddress toClient,
         RWSnapshotsTotalSize = ConvertHumanReadable rwSize, WOSnapshotsTotalSize = ConvertHumanReadable woSize\<rparr>))))"

definition task_syncFile :: "'w task \<Rightarrow> string \<Rightarrow> string \<Rightarrow> replicaClient \<Rightarrow> replicaClient \<Rightarrow> ('w, unit) call" where
  "task_syncFile t from to fromClient toClient =
     bindC (rc_LaunchReceiver (tT t) toClient (if to = [] then from else to)) (\<lambda>(host, port).
       rc_SendFile (tFuel t) (tT t) fromClient from host port)"

fun sync_disks :: "'w task \<Rightarrow> replicaClient \<Rightarrow> replicaClient \<Rightarrow> string list \<Rightarrow> ('w, unit) call" where
  "sync_disks t fromClient toClient [] = retC ()"
| "sync_disks t fromClient toClient (disk # disks) =
     (if contains_str disk ''volume-head'' then failC (Err ''Disk list shouldn't contain volume-head'')
      else bindC (SetStatus t disk ''InProgress'') (\<lambda>_.
           bindC (task_syncFile t disk [] fromClient toClient) (\<lambda>_.
           bindC (task_syncFile t (disk @ ''.meta'') [] fromClient toClient) (\<lambda>_.
           bindC (SetStatus t disk ''Completed'') (\<lambda>_. sync_disks t fromClient toClient disks)))))"

definition syncFiles :: "'w task \<Rightarrow> replicaClient \<Rightarrow> replicaClient \<Rightarrow> string list \<Rightarrow> ('w, unit) call" where
  "syncFiles t fromClient toClient disks =
     bindC (initalizeSyncProgress t fromClient toClient disks) (\<lambda>_. sync_disks t fromClient toClient (rev disks))"

text \<open>\<open>s.Replica().SyncDir()\<close>: without an open replica this is a nil pointer.\<close>

definition reloadAndVerify :: "'w task \<Rightarrow> string \<Rightarrow> replicaClient \<Rightarrow> ('w, unit) call" where
  "reloadAndVerify t address repClient =
     bindC (without_preload t (rc_ReloadReplica (tT t) repClient)) (\<lambda>_.
     bindC (srvC t (\<lambda>(s, f). case sR s of
              None \<Rightarrow> (Inl (Panic ''nil pointer dereference''), s, f)
            | Some r \<Rightarrow> (case SyncDir (r, f) of (x, r', f') \<Rightarrow> (x, s\<lparr>sR := Some r'\<rparr>, f')))) (\<lambda>_.
     bindC (wrapC ''UpdateLUNMap() failed'' (srvC t (UpdateLUNMap (tE t)))) (\<lambda>_.
     bindC (cc_VerifyRebuildReplica (tT t) (tClient t) (EncodeID address)) (\<lambda>_.
       rc_SetRebuilding (tT t) repClient False))))"

definition getFromReplica :: "'w task \<Rightarrow> ('w, ctlReplica) call" where
  "getFromReplica t =
     bindC (cc_ListReplicas (tT t) (tClient t)) (\<lambda>rs.
       case List.find (\<lambda>r. crMode r = ''RW'') rs of
         None \<Rightarrow> failC (Err ''Failed to find good replica to copy from'')
       | Some r \<Rightarrow> retC r)"

definition getToReplica :: "'w task \<Rightarrow> string \<Rightarrow> ('w, ctlReplica) call" where
  "getToReplica t address =
     bindC (cc_ListReplicas (tT t) (tClient t)) (\<lambda>rs.
       case List.find (\<lambda>r. crAddress r = address) rs of
         None \<Rightarrow> failC (Err ''Failed to find target replica to copy to'')
       | Some r \<Rightarrow> if crMode r \<noteq> ''WO'' then failC (Err ''Replica is not in mode WO'') else retC r)"

definition getTransferClients :: "'w task \<Rightarrow> string \<Rightarrow> ('w, replicaClient \<times> replicaClient) call" where
  "getTransferClients t address =
     bindC (wrapC ''Failed to get source replica for rebuild'' (getFromReplica t)) (\<lambda>from.
     bindC (pureC (NewReplicaClient (crAddress from))) (\<lambda>fromClient.
     bindC (getToReplica t address) (\<lambda>to.
     bindC (pureC (NewReplicaClient (crAddress to))) (\<lambda>toClient. retC (fromClient, toClient)))))"

section \<open>Joining the controller\<close>

text \<open>\<open>strings.Split(strings.Split(address, "://")[1], ":")[0]\<close>.\<close>

definition host_of :: "string \<Rightarrow> string result" where
  "host_of address =
     (case split_str ''://'' [] address of
        _ # a # _ \<Rightarrow> Inr (hd (split_on (CHR '':'') a))
      | _ \<Rightarrow> Inl (Panic ''index out of range''))"

text \<open>The wait for the ticker or for an action of the controller; the ticker may win although an action is there.\<close>

definition selectC :: "'w task \<Rightarrow> ('w, string option) call" where
  "selectC t = (\<lambda>w. case tWait t w of (ticked, w1) \<Rightarrow> case tGet t w1 of (s, f) \<Rightarrow>
     (case sActionChannel s of
        [] \<Rightarrow> (Inr None, w1)
      | a # rest \<Rightarrow> if ticked then (Inr None, w1) else (Inr (Some a), tPut t (s\<lparr>sActionChannel := rest\<rparr>, f) w1)))"

definition temp_replica :: "'w task \<Rightarrow> ('w, replica) call" where
  "temp_replica t = srvC t (\<lambda>(s, f). run_new (CreateTempReplica (renv_of (tE t) s)) (s, f))"

text \<open>The request of the registration; its error is ignored.\<close>

definition send_register :: "'w task \<Rightarrow> string \<Rightarrow> string \<Rightarrow> replica \<Rightarrow> ('w, unit) call" where
  "send_register t host replicaType r =
     bindC (tempC t r (GetRevisionCounter (seR (tE t)))) (\<lambda>revisionCount.
     bindC (srvC t (\<lambda>(s, f). case PrevStatus f of (x, f') \<Rightarrow> (Inr x, s, f'))) (\<lambda>(st, _).
     bindC (\<lambda>w. (Inr (tUpTime t w), w)) (\<lambda>upTime.
     bindC (attemptC (cc_Register (tT t) (tClient t) host (iUUID (rInfo r)) revisionCount replicaType upTime (state_string st)))
       (\<lambda>_. retC ()))))"

fun register_loop :: "nat \<Rightarrow> 'w task \<Rightarrow> string \<Rightarrow> replica \<Rightarrow> ('w, string) call" where
  "register_loop 0 t address r = failC Diverge"
| "register_loop (Suc n) t address r =
     bindC (wrapC ''failed to get volume info'' (cc_GetVolume (tT t) (tClient t))) (\<lambda>volume.
     bindC (pureC (host_of address)) (\<lambda>host.
     if cvReplicaCount volume \<noteq> 0 then retC []
     else bindC (send_register t host ''Backend'' r) (\<lambda>_.
          bindC (selectC t) (\<lambda>action. case action of None \<Rightarrow> register_loop n t address r | Some a \<Rightarrow> retC a))))"

definition start_volume :: "'w task \<Rightarrow> string \<Rightarrow> ('w, unit) call" where
  "start_volume t address =
     bindC (punchC t True) (\<lambda>_.
     bindC (attemptC (cc_Start (tT t) (tClient t) [address])) (\<lambda>res.
       case res of Inl e \<Rightarrow> bindC (punchC t False) (\<lambda>_. failC e) | Inr _ \<Rightarrow> retC ()))"

text \<open>From the request to be added in mode \<open>WO\<close> to the end of the rebuild.\<close>

definition rebuild_replica :: "'w task \<Rightarrow> string \<Rightarrow> ('w, unit) call" where
  "rebuild_replica t address =
     bindC (attemptC (without_preload t (cc_CreateReplica (tT t) (tClient t) address))) (\<lambda>res.
     case res of
       Inl e \<Rightarrow> bindC (sleepC (tT t) 5000000000) (\<lambda>_. failC e)
     | Inr _ \<Rightarrow>
         bindC (wrapC ''failed to get transfer clients'' (getTransferClients t address)) (\<lambda>(fromClient, toClient).
         bindC (wrapC ''failed to set rebuilding: true'' (rc_SetRebuilding (tT t) toClient True)) (\<lambda>_.
         bindC (wrapC ''failed to prepare rebuild'' (cc_PrepareRebuild (tT t) (tClient t) (EncodeID address))) (\<lambda>_.
         bindC (isRevisionCountAndChainSame t fromClient toClient) (\<lambda>(ok, chain).
         bindC (if \<not> ok then syncFiles t fromClient toClient chain else retC ()) (\<lambda>_.
           reloadAndVerify t address toClient))))))"

text \<open>
  \<open>AddReplica\<close>; \<open>present\<close> is whether there is a server.  The answer is the client with which the goroutine of
  \<open>InternalSnapshotCleaner\<close> is started.
\<close>

definition task_AddReplica :: "'w task \<Rightarrow> string \<Rightarrow> bool \<Rightarrow> ('w, replicaClient) call" where
  "task_AddReplica t address present =
     (if \<not> present then failC (Err ''Server not present'')
      else bindC (wrapC ''CheckAndResetFailedRebuild failed'' (checkAndResetFailedRebuild t)) (\<lambda>_.
           bindC (punchC t False) (\<lambda>_.
           bindC (pureC (NewReplicaClient address)) (\<lambda>repClient.
           bindC (wrapC ''failed to create temp replica'' (temp_replica t)) (\<lambda>r.
           bindC (register_loop (tFuel t) t address r) (\<lambda>action.
           bindC (if action = ''start'' then start_volume t address else rebuild_replica t address) (\<lambda>_. retC repClient)))))))"

text \<open>
  \<open>AddQuorumReplica\<close> ignores the error of the temporary replica, which is then a nil pointer.
\<close>

fun quorum_loop :: "nat \<Rightarrow> 'w task \<Rightarrow> string \<Rightarrow> ('w, unit) call" where
  "quorum_loop 0 t address = failC Diverge"
| "quorum_loop (Suc n) t address =
     bindC (cc_GetVolume (tT t) (tClient t)) (\<lambda>volume.
     bindC (pureC (host_of address)) (\<lambda>host.
     bindC (attemptC (temp_replica t)) (\<lambda>res.
     if cvReplicaCount volume \<noteq> 0 then retC ()
     else case res of
       Inl e \<Rightarrow> failC (Panic ''nil pointer dereference'')
     | Inr r \<Rightarrow>
         bindC (send_register t host ''quorum'' r) (\<lambda>_.
         bindC (selectC t) (\<lambda>action. case action of None \<Rightarrow> quorum_loop n t address | Some a \<Rightarrow> retC ())))))"

definition task_AddQuorumReplica :: "'w task \<Rightarrow> string \<Rightarrow> ('w, unit) call" where
  "task_AddQuorumReplica t address =
     bindC (quorum_loop (tFuel t) t address) (\<lambda>_. bindC (cc_CreateQuorumReplica (tT t) (tClient t) address) (\<lambda>_. retC ()))"

section \<open>Clones\<close>

text \<open>
  One round of \<open>CloneReplica\<close>.  The replica that was found and whether the snapshot was found are declared outside
  the loop: they are the state of the rounds.  \<open>None\<close> is another round, after two seconds.
\<close>

definition clone_copy ::
  "'w task \<Rightarrow> string \<Rightarrow> replicaClient \<Rightarrow> replicaClient \<Rightarrow> replicaInfo \<Rightarrow> string list \<Rightarrow> ('w, unit option) call" where
  "clone_copy t snapName fromClient toClient repl chain =
     bindC (wrapC ''Failed to setRebuilding = true'' (rc_SetRebuilding (tT t) toClient True)) (\<lambda>_.
     bindC (attemptC (syncFiles t fromClient toClient chain)) (\<lambda>res.
     case res of
       Inl e \<Rightarrow> bindC (sleepC (tT t) 2000000000) (\<lambda>_. retC None)
     | Inr _ \<Rightarrow>
         bindC (wrapC ''Failed to update clone info'' (rc_UpdateCloneInfo (tT t) toClient snapName
           (FormatInt (diRevisionCounter (disk_of (riDisks repl) (''volume-snap-'' @ snapName @ ''.img'')))))) (\<lambda>_.
         bindC (wrapC ''Failed to reload clone replica'' (without_preload t (rc_ReloadReplica (tT t) toClient))) (\<lambda>_.
         bindC (wrapC ''UpdateLUNMap() failed'' (srvC t (UpdateLUNMap (tE t)))) (\<lambda>_.
         bindC (wrapC ''Failed to setRebuilding = false'' (rc_SetRebuilding (tT t) toClient False)) (\<lambda>_. retC (Some ())))))))"

definition clone_round ::
  "'w task \<Rightarrow> string \<Rightarrow> string \<Rightarrow> string \<Rightarrow> ctlReplica option \<Rightarrow> bool \<Rightarrow> ('w, unit option \<times> ctlReplica option \<times> bool) call" where
  "clone_round t url address snapName known snapFound =
     bindC (attemptC (cc_ListReplicas (tT t) (NewControllerClient url))) (\<lambda>res.
     case res of
       Inl e \<Rightarrow> bindC (sleepC (tT t) 2000000000) (\<lambda>_. retC (None, known, snapFound))
     | Inr reps \<Rightarrow>
         (case (case List.find (\<lambda>r. crMode r = ''RW'') reps of None \<Rightarrow> known | Some r \<Rightarrow> Some r) of
            None \<Rightarrow> bindC (sleepC (tT t) 2000000000) (\<lambda>_. retC (None, None, snapFound))
          | Some fromReplica \<Rightarrow>
              bindC (wrapC ''Failed to create source replica client'' (pureC (NewReplicaClient (crAddress fromReplica)))) (\<lambda>fromClient.
              bindC (wrapC ''Failed to get replica info of the source'' (rc_GetReplica (tT t) fromClient)) (\<lambda>repl.
              let chain = riChain (rrInfo repl); name = ''volume-snap-'' @ snapName @ ''.img'';
                  snapFound' = (snapFound \<or> name \<in> set chain);
                  chain' = (if name \<in> set chain then dropWhile (\<lambda>x. x \<noteq> name) chain else chain) in
              bindC (wrapC ''Failed to create client of the clone replica'' (pureC (NewReplicaClient address))) (\<lambda>toClient.
              if \<not> snapFound' then failC (Err ''Snapshot Not found at source'')
              else bindC (clone_copy t snapName fromClient toClient (rrInfo repl) chain') (\<lambda>res.
                   retC (res, Some fromReplica, snapFound')))))))"

fun clone_loop :: "nat \<Rightarrow> 'w task \<Rightarrow> string \<Rightarrow> string \<Rightarrow> string \<Rightarrow> ctlReplica option \<Rightarrow> bool \<Rightarrow> ('w, unit) call" where
  "clone_loop 0 t url address snapName known snapFound = failC Diverge"
| "clone_loop (Suc n) t url address snapName known snapFound =
     bindC (clone_round t url address snapName known snapFound) (\<lambda>(res, known', snapFound').
       case res of None \<Rightarrow> clone_loop n t url address snapName known' snapFound' | Some _ \<Rightarrow> retC ())"

definition CloneReplica :: "'w task \<Rightarrow> bool \<Rightarrow> string \<Rightarrow> string \<Rightarrow> string \<Rightarrow> ('w, unit) call" where
  "CloneReplica t present url address snapName =
     (if \<not> present then failC (Err ''Server not present'')
      else bindC (wrapC ''CheckAndResetFailedRebuild failed'' (checkAndResetFailedRebuild t)) (\<lambda>_.
             clone_loop (tFuel t) t url address snapName None False))"

section \<open>Deleting snapshots in the background\<close>

text \<open>
  The snapshots strictly between the base and the checkpoint, oldest first; those that a user created and those
  right above one are kept.  The list of candidates has the length of this part of the chain: entries that are not
  filled have no name and are dropped after sorting.
\<close>

definition user_kept :: "(string \<times> diskInfo) list \<Rightarrow> string \<Rightarrow> bool" where
  "user_kept disks d = (diUserCreated (disk_of disks d) \<and> \<not> diRemoved (disk_of disks d))"

fun snap_list :: "(string \<times> diskInfo) list \<Rightarrow> string list \<Rightarrow> (string \<times> int) list result" where
  "snap_list disks [] = Inr []"
| "snap_list disks (d # ds) =
     (if user_kept disks d \<or> user_kept disks (diParent (disk_of disks d)) then snap_list disks ds
      else case ParseInt (diSize (disk_of disks d)) of
        Inl e \<Rightarrow> Inl (Err ''Failed to convert size'')
      | Inr n \<Rightarrow> (case snap_list disks ds of Inl e \<Rightarrow> Inl e | Inr rest \<Rightarrow> Inr ((d, n) # rest)))"

definition delete_candidates :: "string list \<Rightarrow> (string \<times> diskInfo) list \<Rightarrow> string \<Rightarrow> string list result" where
  "delete_candidates chain disks checkpoint =
     (let replicaChain = rev chain; indx = length (takeWhile (\<lambda>x. x \<noteq> checkpoint) replicaChain) in
      if checkpoint \<notin> set chain \<or> indx \<le> 1 then Inr []
      else let mid = take (indx - 1) (drop 1 replicaChain) in
        case snap_list disks mid of
          Inl e \<Rightarrow> Inl e
        | Inr snaps \<Rightarrow>
            Inr (filter (\<lambda>x. x \<noteq> []) (map fst (sort_key snd (snaps @ replicate (length mid - length snaps) ([], 0))))))"

definition GetDeleteCandidateChain :: "string \<Rightarrow> string list rop" where
  "GetDeleteCandidateChain checkpoint =
     bindR (liftC Chain) (\<lambda>chain.
       if length chain \<le> 3 \<or> checkpoint = [] then retR []
       else bindR ListDisks (\<lambda>disks. liftC (\<lambda>_. delete_candidates chain disks checkpoint)))"

definition SnapshotRetentionCount :: nat where
  "SnapshotRetentionCount = 10"

text \<open>The steps of a removal; an error ends them and is only written to the log.\<close>

fun clean_ops :: "'w task \<Rightarrow> replicaClient \<Rightarrow> prepareRemoveAction list \<Rightarrow> ('w, unit) call" where
  "clean_ops t repClient [] = retC ()"
| "clean_ops t repClient (a # as) =
     bindC (attemptC (case paAction a of
              OpCoalesce \<Rightarrow> rc_Coalesce (tFuel t) (tT t) repClient (paSource a) (paTarget a)
            | OpRemove \<Rightarrow> srvC t (s_RemoveDiffDisk (tE t) (paSource a))
            | _ \<Rightarrow> retC ()))
       (\<lambda>res. case res of Inl e \<Rightarrow> retC () | Inr _ \<Rightarrow> clean_ops t repClient as)"

text \<open>
  One tick of \<open>InternalSnapshotCleaner\<close>: the number of mismatches in a row for the next tick, or \<open>None\<close> when the
  goroutine returns because there is no open replica.  The error of \<open>GetDeleteCandidateChain\<close> is ignored: the list
  is then empty.
\<close>

definition cleaner_remove :: "'w task \<Rightarrow> replicaClient \<Rightarrow> string list \<Rightarrow> ('w, unit) call" where
  "cleaner_remove t repClient sorted_list =
     (if length sorted_list < SnapshotRetentionCount \<or> hd sorted_list = [] then retC ()
      else bindC (attemptC (srvC t (s_PrepareRemoveDisk (hd sorted_list)))) (\<lambda>res.
           case res of Inl e \<Rightarrow> retC () | Inr ops \<Rightarrow> clean_ops t repClient ops))"

definition cleaner_tick :: "'w task \<Rightarrow> replicaClient \<Rightarrow> nat \<Rightarrow> ('w, nat option) call" where
  "cleaner_tick t repClient mismatches =
     bindC (\<lambda>w. (Inr (sR (fst (tGet t w))), w)) (\<lambda>open.
     if open = None then retC None
     else bindC (attemptC (cc_GetCheckpoint (tT t) (tClient t))) (\<lambda>res.
       case res of
         Inl e \<Rightarrow> retC (Some mismatches)
       | Inr checkpoint \<Rightarrow>
           if checkpoint = [] then retC (Some mismatches)
           else bindC (\<lambda>w. (case sR (fst (tGet t w)) of
                              None \<Rightarrow> Inl (Panic ''nil pointer dereference'')
                            | Some r \<Rightarrow> Inr (iCheckpoint (rInfo r)), w)) (\<lambda>own.
                if checkpoint \<noteq> own then
                  (if mismatches + 1 = 3 then failC (Fatal ''Checkpoint mismatched 3 times continuously'')
                   else retC (Some (mismatches + 1)))
                else bindC (attemptC (srvC t (with_r [] (GetDeleteCandidateChain checkpoint)))) (\<lambda>res.
                     bindC (cleaner_remove t repClient (case res of Inl _ \<Rightarrow> [] | Inr l \<Rightarrow> l)) (\<lambda>_. retC (Some 0))))))"

end
