(* ===== verification/SyncProps.thy ===== *)
theory SyncProps
  imports Sync ReplicaProps
begin

text \<open>
  The rebuild task: which snapshots the background cleaner may delete, and what the reported progress of a rebuild
  means.
\<close>

section \<open>Candidates for deletion\<close>

lemma snap_list_sound:
  "snap_list disks ds = Inr snaps \<Longrightarrow> (d, n) \<in> set snaps \<Longrightarrow>
   d \<in> set ds \<and> \<not> user_kept disks d \<and> \<not> user_kept disks (diParent (disk_of disks d)) \<and> ParseInt (diSize (disk_of disks d)) = Inr n"
  by (induction ds arbitrary: snaps) (auto split: if_splits sum.splits)

lemma candidates_sound:
  assumes "delete_candidates chain disks cp = Inr cs" and "d \<in> set cs"
  shows "\<exists>newer between older base. chain = newer @ cp # between @ d # older @ [base]"
    and "\<not> user_kept disks d" and "\<not> user_kept disks (diParent (disk_of disks d))"
proof -
  define k where "k = length (takeWhile (\<lambda>x. x \<noteq> cp) (rev chain))"
  define mid where "mid = take (k - 1) (drop 1 (rev chain))"
  have cp: "cp \<in> set chain" and k: "k > 1" using assms unfolding delete_candidates_def Let_def k_def by (auto split: if_splits)
  obtain snaps where sn: "snap_list disks mid = Inr snaps"
    and cs: "cs = filter (\<lambda>x. x \<noteq> []) (map fst (sort_key snd (snaps @ replicate (length mid - length snaps) ([], 0))))"
    using assms cp k unfolding delete_candidates_def Let_def k_def mid_def by (auto split: if_splits sum.splits)
  have "d \<in> fst ` set snaps" using assms(2) cs by auto
  then obtain n where n: "(d, n) \<in> set snaps" by auto
  note s = snap_list_sound [OF sn n]
  show "\<not> user_kept disks d" "\<not> user_kept disks (diParent (disk_of disks d))" using s by auto
  obtain a b where mid: "mid = a @ d # b" using s by (meson split_list)
  have tw: "takeWhile (\<lambda>x. x \<noteq> cp) (rev chain) = take k (rev chain)"
    unfolding k_def by (metis takeWhile_eq_take)
  obtain rest where dw: "dropWhile (\<lambda>x. x \<noteq> cp) (rev chain) = cp # rest"
    using cp by (metis (mono_tags, lifting) dropWhile_eq_Nil_conv hd_Cons_tl hd_dropWhile set_rev)
  obtain base where "take k (rev chain) = base # mid"
    using k cp unfolding mid_def by (cases "rev chain"; cases k) (auto simp: take_Cons')
  then have "rev chain = base # mid @ cp # rest" using tw dw takeWhile_dropWhile_id [of "\<lambda>x. x \<noteq> cp" "rev chain"] by simp
  then have "chain = rev (base # (a @ d # b) @ cp # rest)" using mid by (metis rev_rev_ident)
  then have "chain = rev rest @ cp # rev b @ d # rev a @ [base]" by simp
  then show "\<exists>newer between older base. chain = newer @ cp # between @ d # older @ [base]" by blast
qed

lemma candidates_sorted:
  assumes "delete_candidates chain disks cp = Inr cs"
  shows "sorted (map (\<lambda>d. ParseInt_value (diSize (disk_of disks d))) cs)"
proof (cases "cs = []")
  case False
  define mid where "mid = take (length (takeWhile (\<lambda>x. x \<noteq> cp) (rev chain)) - 1) (drop 1 (rev chain))"
  obtain snaps pad where sn: "snap_list disks mid = Inr snaps"
    and cs: "cs = filter (\<lambda>x. x \<noteq> []) (map fst (sort_key snd (snaps @ replicate pad ([], 0))))"
    using assms False unfolding delete_candidates_def Let_def mid_def by (auto split: if_splits sum.splits)
  define L where "L = filter ((\<lambda>x. x \<noteq> []) \<circ> fst) (sort_key snd (snaps @ replicate pad ([], 0 :: int)))"
  have "cs = map fst L" using cs by (simp add: L_def filter_map)
  moreover have "ParseInt_value (diSize (disk_of disks (fst p))) = snd p" if "p \<in> set L" for p
    using that snap_list_sound [OF sn, of "fst p" "snd p"] by (auto simp: L_def ParseInt_value_Inr)
  ultimately have "map (\<lambda>d. ParseInt_value (diSize (disk_of disks d))) cs = map snd L" by (simp add: comp_def)
  then show ?thesis unfolding L_def by (simp add: sorted_filter)
qed simp

text \<open>
  C14. A snapshot that the background cleaner may delete lies strictly between the base and the checkpoint of the
  chain; neither it nor its parent is a snapshot of a user that is not marked as removed; and the candidates
  come in the order of their sizes.
\<close>

theorem cleaner_candidates_safe:
  assumes "GetDeleteCandidateChain cp (r, w) = (Inr cs, r', w')" and "d \<in> set cs"
  shows "(\<exists>newer between older base. Chain r = Inr (newer @ cp # between @ d # older @ [base])) \<and>
    (\<exists>disks. fst (ListDisks (r, w)) = Inr disks \<and> \<not> user_kept disks d \<and> \<not> user_kept disks (diParent (disk_of disks d)) \<and>
       sorted (map (\<lambda>e. ParseInt_value (diSize (disk_of disks e))) cs))"
proof -
  obtain chain where ch: "Chain r = Inr chain"
    using assms by (auto simp: GetDeleteCandidateChain_def bindR_def liftC_def split: sum.splits)
  then obtain disks r1 w1 where ld: "ListDisks (r, w) = (Inr disks, r1, w1)" and dc: "delete_candidates chain disks cp = Inr cs"
    using assms by (auto simp: GetDeleteCandidateChain_def bindR_def liftC_def retR_def split: sum.splits if_splits prod.splits)
  show ?thesis using candidates_sound [OF dc assms(2)] candidates_sorted [OF dc] ch ld by fastforce
qed

text \<open>
  Five snapshots with short names below the checkpoint \<open>5\<close>, all without data; a user made the one named \<open>2\<close>.
\<close>

definition clean_names :: "string list" where
  "clean_names = [''0'', ''1'', ''2'', ''3'', ''4'', ''5'', ''H'']"

definition clean_fs :: fs where
  "clean_fs = lab_fs\<lparr>dirents := map_of (zip clean_names [1, 2, 3, 4, 5, 6, 7]),
     ino_data := (\<lambda>f. \<lparr>sdata = (\<lambda>_. 0), salloc = (\<lambda>_. False), slen = 8192\<rparr>)\<rparr>"

definition clean_replica :: replica where
  "clean_replica = lab_replica\<lparr>rInfo := info0\<lparr>iSize := 8192, iHead := ''H'', iCheckpoint := ''5''\<rparr>,
     rHeap := (\<lambda>p. disk0\<lparr>dName := clean_names ! p, dParent := if p = 0 then [] else clean_names ! (p - 1), dUserCreated := p = 2\<rparr>),
     diskData := zip clean_names [0, 1, 2, 3, 4, 5, 6]\<rparr>"

theorem cleaner_candidates_safe_witness:
  "fst (GetDeleteCandidateChain ''5'' (clean_replica, clean_fs)) = Inr [''1'', ''4''] \<and>
   (\<exists>newer between older base. Chain clean_replica = Inr (newer @ ''5'' # between @ ''1'' # older @ [base]))"
proof -
  have c: "fst (GetDeleteCandidateChain ''5'' (clean_replica, clean_fs)) = Inr [''1'', ''4'']"
    by code_simp
  obtain x r' w' where "GetDeleteCandidateChain ''5'' (clean_replica, clean_fs) = (x, r', w')" by (metis prod_cases3)
  then have g: "GetDeleteCandidateChain ''5'' (clean_replica, clean_fs) =
      (Inr [''1'', ''4''], r', w')" using c by simp
  have m: "''1'' \<in> set [''1'', ''4'']" by simp
  show ?thesis by (rule conjI [OF c conjunct1 [OF cleaner_candidates_safe [OF g m]]])
qed

section \<open>Progress of a rebuild\<close>

text \<open>
  What is relied on of the transport and of the store of the progress: what is stored is read back, and neither a
  request nor the passing of time changes names or states of the entries.
\<close>

definition states_of :: "syncInfo option \<Rightarrow> (string \<times> string) list option" where
  "states_of = map_option (\<lambda>i. map (\<lambda>sn. (snName sn, snStatus sn)) (Snapshots i))"

definition progress_kept :: "'w task \<Rightarrow> bool" where
  "progress_kept t \<longleftrightarrow> (\<forall>i w. tInfo t (tSetInfo t i w) = i) \<and>
     (\<forall>m u b w. states_of (tInfo t (snd (httpDo (tT t) m u b w))) = states_of (tInfo t w)) \<and>
     (\<forall>d w. states_of (tInfo t (sleepFor (tT t) d w)) = states_of (tInfo t w))"

definition silent :: "'w task \<Rightarrow> ('w, 'a) call \<Rightarrow> bool" where
  "silent t m \<longleftrightarrow> (\<forall>w. states_of (tInfo t (snd (m w))) = states_of (tInfo t w))"

named_theorems silent_rules

lemma silent_bind [silent_rules]: "silent t m \<Longrightarrow> (\<And>x. silent t (f x)) \<Longrightarrow> silent t (bindC m f)"
  unfolding silent_def bindC_def by (simp split: prod.splits sum.splits) (metis snd_conv)

lemma silent_pure [silent_rules]: "silent t (retC x)" "silent t (failC e)" "silent t (pureC p)"
  by (simp_all add: silent_def call_defs)

lemma silent_cases [silent_rules]:
  "(\<And>x y. silent t (h x y)) \<Longrightarrow> silent t (case p of (x, y) \<Rightarrow> h x y)"
  "silent t m \<Longrightarrow> silent t n \<Longrightarrow> silent t (if b then m else n)"
  by (auto split: prod.splits)

lemma silent_http [silent_rules]:
  assumes "progress_kept t"
  shows "silent t (httpDo (tT t) m u b)" "silent t (sleepC (tT t) d)"
  using assms by (simp_all add: silent_def progress_kept_def sleepC_def)

lemma silent_rc [silent_rules]:
  assumes "progress_kept t"
  shows "silent t (rc_get (tT t) c u)" "silent t (rc_post (tT t) c u b)" "silent t (rc_GetReplica (tT t) c)"
    "silent t (start_process (tT t) c p)" "silent t (get_process (tT t) c self)"
  unfolding rc_get_def rc_post_def rc_GetReplica_def start_process_def get_process_def Let_def
  by (intro silent_rules assms)+

lemma silent_wait [silent_rules]:
  "progress_kept t \<Longrightarrow> silent t (wait_twice n (tT t) c self k d)"
  by (induction n arbitrary: self k d) (simp_all add: silent_rules)

lemma silent_task_syncFile [silent_rules]: "progress_kept t \<Longrightarrow> silent t (task_syncFile t from to f g)"
  unfolding task_syncFile_def rc_LaunchReceiver_def rc_SendFile_def by (intro silent_rules)

lemma states_SetStatus:
  assumes "progress_kept t" and "states_of (tInfo t w) = Some sts" and "SetStatus t d st w = (x, w')"
  shows "x = Inr () \<and> states_of (tInfo t w') = Some (map (\<lambda>(n, s). (n, if n = d then st else s)) sts)"
  using assms by (auto simp: SetStatus_def progress_kept_def states_of_def set_status_def split: option.splits)

lemma silentD: "silent t m \<Longrightarrow> m w = (x, w') \<Longrightarrow> states_of (tInfo t w') = states_of (tInfo t w)"
  unfolding silent_def by (metis snd_conv)

text \<open>The states when the first \<open>k\<close> disks are copied and the next one may be under way.\<close>

definition progress_of :: "string list \<Rightarrow> nat \<Rightarrow> bool \<Rightarrow> (string \<times> string) list" where
  "progress_of ds k busy = map (\<lambda>d. (d, ''Completed'')) (take k ds) @
     (case drop k ds of [] \<Rightarrow> [] | d # rest \<Rightarrow> (d, if busy then ''InProgress'' else ''Pending'') # map (\<lambda>d. (d, ''Pending'')) rest)"

lemma progress_set:
  assumes "distinct ds" and "k < length ds"
  shows "map (\<lambda>(n, s). (n, if n = ds ! k then ''InProgress'' else s)) (progress_of ds k False) = progress_of ds k True"
    and "map (\<lambda>(n, s). (n, if n = ds ! k then ''Completed'' else s)) (progress_of ds k True) = progress_of ds (Suc k) False"
proof -
  define a d b where "a = take k ds" and "d = ds ! k" and "b = drop (Suc k) ds"
  have ds: "ds = a @ d # b" and k: "k = length a" using assms(2) by (simp_all add: a_def d_def b_def id_take_nth_drop)
  have n: "d \<notin> set a" "d \<notin> set b" using assms(1) unfolding ds by auto
  have dk: "ds ! k = d" by (simp add: d_def)
  have e1: "map (\<lambda>(n, s). (n, if n = d then st else s)) (map (\<lambda>e. (e, c)) xs) = map (\<lambda>e. (e, c)) xs" if "d \<notin> set xs"
    for xs and st c :: string using that by (induction xs) auto
  have pf: "progress_of ds k busy = map (\<lambda>e. (e, ''Completed'')) a @ (d, if busy then ''InProgress'' else ''Pending'') #
    map (\<lambda>e. (e, ''Pending'')) b" for busy
    unfolding progress_of_def ds k by simp
  have pt: "progress_of ds (Suc k) False = map (\<lambda>e. (e, ''Completed'')) (a @ [d]) @ map (\<lambda>e. (e, ''Pending'')) b"
    unfolding progress_of_def ds k by (cases b) simp_all
  show "map (\<lambda>(n, s). (n, if n = ds ! k then ''InProgress'' else s)) (progress_of ds k False) = progress_of ds k True"
    unfolding dk pf map_append list.map e1 [OF n(1)] e1 [OF n(2)] by simp
  show "map (\<lambda>(n, s). (n, if n = ds ! k then ''Completed'' else s)) (progress_of ds k True) = progress_of ds (Suc k) False"
    unfolding dk pf pt map_append list.map e1 [OF n(1)] e1 [OF n(2)] by simp
qed

definition reached :: "'w task \<Rightarrow> string list \<Rightarrow> unit result \<times> 'w \<Rightarrow> bool" where
  "reached t ds = (\<lambda>(x, w). \<exists>k busy. k \<le> length ds \<and> states_of (tInfo t w) = Some (progress_of ds k busy) \<and> (x = Inr () \<longrightarrow> k = length ds))"

lemma reached_error:
  "k \<le> length ds \<Longrightarrow> states_of (tInfo t w) = Some (progress_of ds k busy) \<Longrightarrow> reached t ds (Inl e, w)"
  by (auto simp: reached_def)

lemma reached_bind:
  assumes "states_of (tInfo t w) = Some (progress_of ds k busy)" and "k \<le> length ds" and "silent t m"
    and "\<And>x w'. states_of (tInfo t w') = Some (progress_of ds k busy) \<Longrightarrow> reached t ds (f x w')"
  shows "reached t ds (bindC m f w)"
proof -
  obtain x w' where m: "m w = (x, w')" by fastforce
  have st: "states_of (tInfo t w') = Some (progress_of ds k busy)" using silentD [OF assms(3) m] assms(1) by simp
  show ?thesis using m assms(4) [OF st] reached_error [OF assms(2) st] by (cases x) (simp_all add: bindC_def)
qed

lemma sync_disks_reached:
  assumes "progress_kept t" and "distinct ds"
  shows "k \<le> length ds \<Longrightarrow> states_of (tInfo t w) = Some (progress_of ds k False) \<Longrightarrow> reached t ds (sync_disks t f g (drop k ds) w)"
proof (induction "length ds - k" arbitrary: k w)
  case 0
  then have "k = length ds" by simp
  then show ?case using 0 by (auto simp: reached_def retC_def)
next
  case (Suc n)
  then have k: "k < length ds" by simp
  then have dr: "drop k ds = ds ! k # drop (Suc k) ds" by (simp add: Cons_nth_drop_Suc)
  note set1 = states_SetStatus [OF assms(1)]
  obtain x1 w1 where s1: "SetStatus t (ds ! k) ''InProgress'' w = (x1, w1)" by fastforce
  have st1: "x1 = Inr ()" "states_of (tInfo t w1) = Some (progress_of ds k True)"
    using set1 [OF Suc.prems(2) s1] progress_set(1) [OF assms(2) k] by simp_all
  have last: "reached t ds (bindC (SetStatus t (ds ! k) ''Completed'') (\<lambda>_. sync_disks t f g (drop (Suc k) ds)) w2)"
    if st2: "states_of (tInfo t w2) = Some (progress_of ds k True)" for w2
  proof -
    obtain x3 w3 where s3: "SetStatus t (ds ! k) ''Completed'' w2 = (x3, w3)" by fastforce
    have st3: "x3 = Inr ()" "states_of (tInfo t w3) = Some (progress_of ds (Suc k) False)"
      using set1 [OF st2 s3] progress_set(2) [OF assms(2) k] by simp_all
    have "reached t ds (sync_disks t f g (drop (Suc k) ds) w3)" using Suc.hyps k st3(2) by auto
    then show ?thesis using s3 st3(1) by (simp add: bindC_def)
  qed
  have "reached t ds (bindC (task_syncFile t (ds ! k) [] f g) (\<lambda>_. bindC (task_syncFile t (ds ! k @ ''.meta'') [] f g)
      (\<lambda>_. bindC (SetStatus t (ds ! k) ''Completed'') (\<lambda>_. sync_disks t f g (drop (Suc k) ds)))) w1)"
    using k by (intro reached_bind [OF st1(2)] reached_bind last silent_task_syncFile [OF assms(1)]) (assumption | simp)+
  then show ?case
    unfolding dr sync_disks.simps using s1 st1(1) reached_error [of k ds t w False] Suc.prems
    by (simp add: bindC_def failC_def)
qed

lemma pending_entries:
  "progress_entries rw wo ds n = Inr (sns, tot) \<Longrightarrow> map (\<lambda>sn. (snName sn, snStatus sn)) sns = map (\<lambda>d. (d, ''Pending'')) ds"
  by (induction ds arbitrary: n sns tot) (auto split: option.splits sum.splits prod.splits)

lemma initial_progress:
  assumes "progress_entries rw wo ds n = Inr (sns, tot)"
  shows "map (\<lambda>sn. (snName sn, snStatus sn)) sns = progress_of ds 0 False"
  unfolding pending_entries [OF assms] progress_of_def by (cases ds) simp_all

text \<open>
  C15. The progress of a rebuild that a replica reports can be trusted, as long as nothing but the rebuild writes
  it: whenever the copying of the snapshots stops, with or without an error, the entries are the snapshots from
  the oldest to the newest, those up to some point are completed, at most the next one is in progress and all
  newer ones are pending; without an error all are completed.
\<close>

theorem rebuild_progress:
  assumes "progress_kept t" and "distinct disks" and "syncFiles t f g disks w = (x, w')"
    and "fst (initalizeSyncProgress t f g disks w) = Inr ()"
  shows "\<exists>k busy. k \<le> length disks \<and> states_of (tInfo t w') = Some (progress_of (rev disks) k busy) \<and> (x = Inr () \<longrightarrow> k = length disks)"
proof -
  obtain w1 where i: "initalizeSyncProgress t f g disks w = (Inr (), w1)" using assms(4) by (metis fst_conv surj_pair)
  have "states_of (tInfo t w1) = Some (progress_of (rev disks) 0 False)"
    using i assms(1) initial_progress
    by (auto simp: initalizeSyncProgress_def bindC_def pureC_def SetSyncInfo_def progress_kept_def states_of_def split: prod.splits sum.splits)
  then have "reached t (rev disks) (sync_disks t f g (drop 0 (rev disks)) w1)"
    using sync_disks_reached [OF assms(1), of "rev disks" 0] assms(2) by simp
  then show ?thesis using assms(3) i by (auto simp: syncFiles_def bindC_def reached_def)
qed

text \<open>A source that answers every question with the same description and finishes every transfer at once.\<close>

definition demo_info :: replicaInfo where
  "demo_info = replicaInfo0\<lparr>riChain := [''volume-head-002.img'', ''volume-snap-b.img'', ''volume-snap-a.img''],
     riDisks := [(''volume-snap-a.img'', diskInfo0\<lparr>diSize := ''7''\<rparr>), (''volume-snap-b.img'', diskInfo0\<lparr>diSize := ''9''\<rparr>)]\<rparr>"

definition demo_task :: "syncInfo option task" where
  "demo_task = \<lparr>
     tT = \<lparr>httpDo = (\<lambda>m u b w. (Inr (200, if has_suffix ''/replicas/1'' u then JReplica \<lparr>rrActions = [], rrInfo = demo_info\<rparr> else JProcess ''/p'' process0), w)),
           sleepFor = (\<lambda>_ w. w)\<rparr>,
     tClient = NewControllerClient ''http://c:9501'',
     tE = \<lparr>seR = lab_renv, seProbe = (\<lambda>_ _. None), seUUID = (\<lambda>_. ''u''), seNow = ''now''\<rparr>,
     tGet = (\<lambda>_. (NewServer ''a'' 512 [], lab_fs)), tPut = (\<lambda>_ w. w), tInfo = (\<lambda>w. w), tSetInfo = (\<lambda>i _. i),
     tWait = (\<lambda>w. (True, w)), tUpTime = (\<lambda>_. 0), tFuel = 2\<rparr>"

definition demo_source :: replicaClient where
  "demo_source = \<lparr>rcAddress = ''http://a:9502/v1'', rcSyncAgent = ''http://a:9504/v1'', rcHost = ''a''\<rparr>"

theorem rebuild_progress_witness:
  "fst (syncFiles demo_task demo_source demo_source [''volume-snap-b.img'', ''volume-snap-a.img''] None) = Inr () \<and>
   states_of (snd (syncFiles demo_task demo_source demo_source [''volume-snap-b.img'', ''volume-snap-a.img''] None)) =
     Some [(''volume-snap-a.img'', ''Completed''), (''volume-snap-b.img'', ''Completed'')]"
proof -
  let ?ds = "[''volume-snap-b.img'', ''volume-snap-a.img'']"
  let ?r = "syncFiles demo_task demo_source demo_source ?ds None"
  have kept: "progress_kept demo_task" by (simp add: progress_kept_def demo_task_def)
  have i: "fst (initalizeSyncProgress demo_task demo_source demo_source ?ds None) = Inr ()" by code_simp
  have r: "fst ?r = Inr ()" by code_simp
  have e: "?r = (fst ?r, snd ?r)" by simp
  have "distinct ?ds" by simp
  from rebuild_progress [OF kept this e i] r have "states_of (tInfo demo_task (snd ?r)) = Some (progress_of (rev ?ds) 2 busy)" for busy
    by (auto simp: progress_of_def)
  then show ?thesis using r by (simp add: demo_task_def progress_of_def)
qed

end
