(* ===== verification/Spec2Isabelle.thy ===== *)
theory Spec2Isabelle
  imports Cluster MemberProps ReplicaSnapshot RpcProps ClientProps ControllerRestProps SyncProps
begin

text \<open>
  A verification development of Jiva, the replicated block storage of OpenEBS.  Paths below are under \<open>src/\<close>.

  \<^bold>\<open>The program.\<close>  A volume is served by one controller (\<open>controller/\<close>) that takes reads and writes from a
  frontend, an iSCSI target, and sends each of them to its replicas.  A replica (\<open>replica/\<close>) is a process with a
  directory: its volume is a chain of sparse files, a writable head over snapshots, with a map from each sector to
  the file that has its latest data.  The controller reaches a replica as a backend (\<open>backend/\<close>): reads and writes
  by a protocol of its own (\<open>rpc/\<close>), everything else by HTTP (\<open>replica/rest\<close>).  A replica joins a volume by the
  task of \<open>sync/sync.go\<close>: it registers with the controller (\<open>controller/rest\<close>), is started or added, has the
  missing files copied by the processes of the sync agents (\<open>sync/agent\<close>) and is taken in after its chain has been
  compared.  The task and the controller use the HTTP clients \<open>controller/client\<close> and \<open>replica/client\<close>.

  \<^bold>\<open>How Go is modelled.\<close>  A struct is a record with the source's fields, an operation is a function of the record
  and of the world that returns both.  An \<open>error\<close> is a value; \<open>logrus.Fatal\<close> (the process ends), a run-time panic
  and a call that never returns (\<open>Diverge\<close>) are errors of their own.  Operations that run with a lock held are one
  step; where the source releases the lock in between they are several definitions, or the lock is part of the state
  (the handlers of \<open>controller/rest\<close>).  Code outside of \<open>src/\<close> is an argument: the files of a volume
  (\<open>fileOps\<close>), the transport of the HTTP clients, the frontend, the commands that the sync agent starts, clocks
  and identifiers.  Map entries of the volume (\<open>uint16\<close>), sequence numbers, sizes and revision counters keep their
  width where they can wrap around; offsets and lengths on a replica are \<open>int\<close>, since its requests lie inside of the
  volume.  A Go map is an association list, whose order is the order in which \<open>range\<close> visits it; the properties of
  the controller hold for every such list, but in one run two loops over the same map visit it in the same order.

  \<^bold>\<open>The theories.\<close>
  \<^item> \<open>Prelude\<close>, \<open>Strconv\<close>, \<open>Types\<close>: machine integers, errors, lists; decimal conversions; \<open>types/types.go\<close>.
  \<^item> \<open>DiffDisk\<close>, \<open>Preload\<close>: \<open>replica/diff_disk.go\<close>, \<open>replica/extents.go\<close>, and of \<open>replica/backup.go\<close> the goroutine
    that punches holes and \<open>preload\<close>.  \<open>DiffDiskCorrect\<close> (reads), \<open>DiffDiskWrite\<close> (writes, holes), \<open>VolumeTrace\<close>
    (interleavings) and \<open>PreloadCorrect\<close> prove that the volume is an array of bytes.  The locales \<open>block_file\<close>,
    \<open>punch_file\<close> and \<open>extent_file\<close> state what the files promise: a write is read back, extents are reported as they
    are, a hole is read as zeros.  \<open>SparseFile\<close> and \<open>FileSystem\<close> interpret them.
  \<^item> \<open>FileSystem\<close>: the directory of a replica, with hard links and a schedule of failing calls.  \<open>ReplicaState\<close>
    (\<open>replica/revision_counter.go\<close> included), \<open>Replica\<close>, \<open>ReplicaOps\<close>: \<open>replica/replica.go\<close>.  \<open>ReplicaServer\<close>:
    \<open>replica/server.go\<close>.  \<open>ReplicaRest\<close>: \<open>replica/rest\<close>.
  \<^item> \<open>ReplicaData\<close> (locale \<open>replica_files\<close>: the data path over any files that satisfy the laws), \<open>ReplicaFrame\<close>
    (what control operations leave alone), \<open>ReplicaProps\<close>, \<open>SnapshotProps\<close>, \<open>ReplicaSnapshot\<close> (locale
    \<open>rop_frame\<close>: relations that every composition of statements keeps): the properties of a replica.
  \<^item> \<open>Wire\<close>, \<open>Rpc\<close>, \<open>RpcProps\<close>: \<open>rpc/wire.go\<close>, \<open>rpc/server.go\<close>, \<open>rpc/client.go\<close>, and a connection as a
    state machine.  \<open>Remote\<close>: \<open>backend/remote\<close>, \<open>backend/dynamic\<close>, over a cluster of hosts and a network.
  \<^item> \<open>Backend\<close>, \<open>MultiWriter\<close>, \<open>Replicator\<close>, \<open>Controller\<close>, \<open>ControllerIO\<close>, \<open>ControllerRebuild\<close>: the interface
    \<open>types.Backend\<close>, \<open>controller/multi_writer_at.go\<close>, \<open>controller/replicator.go\<close>, \<open>controller/control.go\<close>,
    \<open>controller/rebuild.go\<close>, \<open>controller/revert.go\<close>.  \<open>ControllerInv\<close>, \<open>ControllerReach\<close> (the controller as a state
    machine), \<open>ControllerProps\<close>, \<open>MemberProps\<close>: their properties.
  \<^item> \<open>OneCopy\<close>, \<open>OneCopyTrace\<close>: the controller over backends that satisfy the contract of the locale
    \<open>replica_backend\<close>.  \<open>Cluster\<close> shows that remote replicas satisfy it (the sublocales of \<open>cluster_hosts\<close> and
    \<open>cluster_volume\<close>), and interprets it on a cluster of two hosts.
  \<^item> \<open>Http\<close>, \<open>ReplicaClient\<close>, \<open>ControllerClient\<close>: the HTTP clients.  \<open>SyncAgent\<close>, \<open>SyncAgentProps\<close>,
    \<open>ClientProps\<close>: \<open>sync/agent\<close>.  \<open>ControllerRest\<close>, \<open>ControllerRestProps\<close>: \<open>controller/rest\<close>.  \<open>Sync\<close>,
    \<open>SyncProps\<close>: \<open>sync/sync.go\<close>, \<open>sync/rebuild/progress.go\<close>.
\<close>

text \<open>
  \<^bold>\<open>What is shown.\<close>
  \<^item> Data: the volume of a replica refines an array of bytes under any interleaving with the punching of holes;
    \<open>preload\<close> builds the map that lookups would find; taking and removing snapshots keep the bytes of the volume; a
    write moves the revision counter, in memory and on disk; and, below, controller, connection and replicas
    together are one array.
  \<^item> Controller: its bookkeeping in every reachable state, the majority behind an acknowledged write, reads while one
    good replica is left, the checks of ranges and of the replication factor, the election, the start, and the check of
    a rebuilt replica.
  \<^item> Protocols: messages survive the encoding, cut messages are refused, a call over a connection is the call itself,
    answers belong to their requests, identifiers of replicas lead back to them, the lock is free after each request
    that is answered, listeners have ports of their own.
  \<^item> Behaviour that is not as intended is stated as such: a hole in a snapshot of a user, metadata lost on a failed
    write of the encoder, a stale leader, two additions beyond the factor, a short write without an error, a request
    that locks the controller for good, a client that polls for ever.

  \<^bold>\<open>Limits of the statements.\<close>  \<open>cluster_is_one_array\<close> is about reads and writes of the frontend, removals, pings,
  holes and deaths, from a state in which the \<open>RW\<close> replicas are equal; additions, snapshots and unmaps are not among
  its events, and the data files of its replicas do not fail (\<open>fs_ops\<close>), though messages are lost and hosts die.
  \<open>fs_ops\<close> is one instance of the laws of the locales above, with extents of one sector each; the properties of
  the volume are stated over the laws, which allow extents of any length, and those that speak about the directory of
  a replica over \<open>fs_ops\<close>.  The answers on a connection are matched as long as fewer than \<open>2 ^ 32\<close> requests have
  been made on it, after which the numbers repeat.

  \<^bold>\<open>Bounds and fuel.\<close>  \<open>findExtents\<close> reads the extents of a file with at most one call for each sector and one more,
  which is proved to be enough.  \<open>Chain\<close> follows at most one parent more than there are disks, and is shown not to
  return exactly when the parents form a cycle.  The search for a free port tries each port once, and punching a
  hole three times, as the source does.  The loops that poll (a process of an agent, the status of a clone, the
  registration of a replica) have the number of questions as their fuel and report \<open>Diverge\<close>, or no result, when it is
  used up; properties of such loops are stated for every number.

  \<^bold>\<open>Not modelled.\<close>  The interface for delta backups in \<open>replica/backup.go\<close>; \<open>sync/backup.go\<close>, whose methods are inside
  a comment; \<open>backend/file\<close>; the listener \<open>replica/rpc\<close>; the frontends; the command line; injected errors, logging
  and alerts; the schemas, routes and JSON of the HTTP libraries, except for which requests reach which handler; the
  restart of a host.  A request that the network delays beyond its timeout is either lost or carried out when it
  was sent.  After the end of a server's process, the transport's error is the end of the connection.  In
  \<open>chains_match\<close> a slice beyond the length of a chain is a panic, also where its capacity would allow it.
\<close>

section \<open>The data plane of a replica\<close>

text \<open>
  A volume of two sectors with a head over one snapshot, over empty sparse files of the right length.
\<close>

definition demo_world :: sworld where
  "demo_world = (\<lambda>f. \<lparr>sdata = (\<lambda>p. of_int (int f)), salloc = (\<lambda>s. f = 1 \<and> s = 0), slen = 8192\<rparr>)"

definition demo_disk :: "nat diffDisk" where
  "demo_disk = \<lparr>location = [0, 0], UsedLogicalBlocks = 0, UsedBlocks = 0, files = [None, Some 1, Some 2],
     UserCreatedSnap = [False, False, False], SnapIndx = 0, sectorSize = 4096\<rparr>"

lemma demo_wf: "wf_disk (sp_avail demo_world) demo_disk" "vol_size demo_disk = 8192" "all_safe (demo_disk, demo_world, [])"
  by (auto simp: wf_disk_def wf_shape_def demo_disk_def vol_size_def sp_avail_def demo_world_def all_safe_def nth_Cons')

text \<open>
  C2. Reads, writes and the punching of holes, in any order: every request inside the volume succeeds,
  every read returns the bytes that the writes before it have left, and a hole that a write has
  requested never changes what is read, whenever it is punched.  The files are any implementation of
  \<open>types.DiffDisk\<close> that reads back what was written and reports its extents.
\<close>

theorem io_trace_refines_array:
  assumes "punch_file F content alloc avail"
    and "wf_disk (avail w) d" and "all_safe (d, w, ch)"
    and "\<forall>r\<in>set rs. req_in (vol_size d) r"
  shows "fst (io_run F punch rs (ops, d, w, ch)) = fst (spec_run rs (vol_byte (content w) (alloc w) d)) \<and>
    (case snd (io_run F punch rs (ops, d, w, ch)) of (ops', d', w', ch') \<Rightarrow>
       wf_disk (avail w') d' \<and>
       (\<forall>p. 0 \<le> p \<and> p < vol_size d \<longrightarrow>
          vol_byte (content w') (alloc w') d' p = snd (spec_run rs (vol_byte (content w) (alloc w) d)) p))"
proof -
  have "punch_file.io_rel content alloc avail (vol_size d) (ops, d, w, ch) (vol_byte (content w) (alloc w) d)"
    using assms(1-3) by (simp add: punch_file.io_rel_def)
  from punch_file.io_run_sim [OF assms(1) this assms(4), of punch] show ?thesis
    using assms(1) by (auto simp: punch_file.io_rel_def split: prod.splits)
qed

theorem io_trace_refines_array_witness:
  "fst (io_run sp_ops True [ReqWrite [7, 8] 4095, ReqPunch, ReqRead 3 4094] (NoDrain, demo_disk, demo_world, [])) =
   fst (spec_run [ReqWrite [7, 8] 4095, ReqPunch, ReqRead 3 4094] (vol_byte (sp_content demo_world) (sp_alloc demo_world) demo_disk))"
  using io_trace_refines_array [OF spp.punch_file_axioms demo_wf(1,3),
      of "[ReqWrite [7, 8] 4095, ReqPunch, ReqRead 3 4094]" True NoDrain] demo_wf(2)
  by simp

section \<open>The whole system\<close>

text \<open>
  C1. The controller over RPC over replica servers over diff disks is one array of bytes.  Requests of the
  frontend, removals of replicas, pings, the punching of holes and deaths of hosts come in any order; the
  network delivers, loses or half-loses each message.  As long as the \<open>RW\<close> replicas start equal, a read
  without an error returns the bytes that the acknowledged writes have left, and a write with an error
  has happened as a whole or not at all.
\<close>

theorem cluster_is_one_array:
  assumes "eB E = remote_ops C" and "\<And>b. reF (seR (ceS C b)) = fs_ops"
    and "\<And>fe w. eFrontend E = Some fe \<Longrightarrow> nodes (snd (feShutdown fe w)) = nodes w" and "eFrontend E \<noteq> None"
    and "sz < 2 ^ 63" and "ctl_inv c" and "distinct_handles (backend c)" and "csize c = sz"
    and "cl_ok sz w" and "holds_copy (cl_vol sz) sz c w V"
    and "\<forall>q\<in>set (requests_of es). creq_ok q"
  shows "one_array (requests_of es) (fst (cl_run E C es (c, w))) V"
proof -
  have "cluster_volume C sz E" by unfold_locales (use assms in auto)
  from cluster_volume.cl_array [OF this assms(6-10) assms(4) assms(11)] show ?thesis .
qed

text \<open>Two hosts; the response to the second write is lost on its way from the second host.\<close>

definition two_events :: "cl_event list" where
  "two_events = [EvRequest (CWrite [7, 8] 4095), EvPing 0, EvRequest (CWrite [9] 1), EvHoles 0, EvRequest (CRead 3 4094), EvDies 1]"

theorem cluster_is_one_array_witness:
  "one_array (requests_of two_events) (fst (cl_run two_env two_cenv two_events (two_ctl, two_cluster))) (\<lambda>_. 0)"
proof (rule cluster_is_one_array [where sz = 8192])
  show "holds_copy (cl_vol 8192) 8192 two_ctl two_cluster (\<lambda>_. 0)"
    by (auto simp: holds_copy_def cl_vol_def nd_byte_def two_cluster_def two_server_def rep_byte_def vol_byte_def fs_content_def
        sp_content_def two_fs_def split: option.splits)
qed (use two_ctl_inv two_handles two_ok in \<open>auto simp: two_env_def two_cenv_def two_renv_def two_ctl_def two_events_def\<close>)

end
